(* ===== verification/Prelude.thy ===== *)
theory Prelude
  imports Main
begin

text \<open>
  What every component shares: the reading of Go's error returns and loops, and the
  generic lemmas about them.

  \<^item> A Go function that returns \<open>(T, error)\<close> is a function into \<open>'e + 'a\<close> (\<open>Inl\<close> the error).
  \<^item> A Go function that acts on the outside world and returns \<open>error\<close> is a function
    \<open>'w \<Rightarrow> 'w \<times> 'e option\<close>: the world it leaves and \<open>None\<close> for the nil error.
  \<^item> \<open>for_each\<close> is the loop \<open>for _, x := range xs { if err := f(x); err != nil { return err } }\<close>.
  \<^item> A nil-able pointer \<open>*T\<close> is \<open>'a option\<close>; a Go map is \<open>'k \<rightharpoonup> 'v\<close>, and reading a missing key gives
    the zero value of the element type (\<open>map_get\<close>).
\<close>

named_theorems eval_simps \<open>defining equations used to evaluate closed instances\<close>
named_theorems loop_simps \<open>equations of the loop combinators\<close>
named_theorems message_getters \<open>getters of the protocol messages\<close>
named_theorems memory_defs \<open>values and memory of the objects that are deep-copied\<close>

type_synonym ('w, 'e) action = "'w \<Rightarrow> 'w \<times> 'e option"

section \<open>Loops that stop at the first error\<close>

fun for_each :: "('a \<Rightarrow> ('w, 'e) action) \<Rightarrow> 'a list \<Rightarrow> ('w, 'e) action" where
  "for_each f [] w = (w, None)"
| "for_each f (x # xs) w =
     (case f x w of
        (w', Some e) \<Rightarrow> (w', Some e)
      | (w', None) \<Rightarrow> for_each f xs w')"

lemma for_each_append [loop_simps]:
  "for_each f (xs @ ys) w =
     (case for_each f xs w of
        (w', Some e) \<Rightarrow> (w', Some e)
      | (w', None) \<Rightarrow> for_each f ys w')"
  by (induction xs arbitrary: w) (auto split: prod.splits option.splits)

lemma for_each_ok_append:
  "for_each f (xs @ ys) w = (w', None) \<longleftrightarrow>
     (\<exists>w1. for_each f xs w = (w1, None) \<and> for_each f ys w1 = (w', None))"
  by (cases "for_each f xs w") (auto simp: for_each_append split: option.splits)

lemma for_each_ok_Cons:
  "for_each f (x # xs) w = (w', None) \<longleftrightarrow>
     (\<exists>w1. f x w = (w1, None) \<and> for_each f xs w1 = (w', None))"
  by (cases "f x w") (auto split: option.splits)

text \<open>A loop with a failing step ran a prefix of the list, failed at the next element and did not
  touch the rest.\<close>

lemma for_each_error_split:
  assumes "for_each f xs w = (w', Some e)"
  obtains ys x zs w1 where "xs = ys @ x # zs" "for_each f ys w = (w1, None)" "f x w1 = (w', Some e)"
proof -
  have "\<exists>ys x zs w1. xs = ys @ x # zs \<and> for_each f ys w = (w1, None) \<and> f x w1 = (w', Some e)"
    using assms
  proof (induction xs arbitrary: w)
    case Nil
    then show ?case by simp
  next
    case (Cons x xs)
    show ?case
    proof (cases "f x w")
      case (Pair w1 r)
      show ?thesis
      proof (cases r)
        case None
        with Pair Cons.prems have "for_each f xs w1 = (w', Some e)" by simp
        from Cons.IH [OF this] obtain ys y zs w2 where
          "xs = ys @ y # zs" "for_each f ys w1 = (w2, None)" "f y w2 = (w', Some e)" by blast
        with Pair None have "x # xs = (x # ys) @ y # zs \<and> for_each f (x # ys) w = (w2, None)
            \<and> f y w2 = (w', Some e)" by simp
        then show ?thesis by blast
      next
        case (Some e')
        with Pair Cons.prems have "x # xs = [] @ x # xs \<and> for_each f [] w = (w, None)
            \<and> f x w = (w', Some e)" by simp
        then show ?thesis by blast
      qed
    qed
  qed
  then show thesis using that by blast
qed

text \<open>What every step keeps, the loop keeps, error or not.\<close>

lemma for_each_invariant:
  assumes "for_each f xs w = (w', r)" and "P w"
    and "\<And>x v v' q. x \<in> set xs \<Longrightarrow> P v \<Longrightarrow> f x v = (v', q) \<Longrightarrow> P v'"
  shows "P w'"
  using assms
proof (induction xs arbitrary: w)
  case Nil
  then show ?case by simp
next
  case (Cons x xs)
  obtain w1 q where step: "f x w = (w1, q)" by fastforce
  have "P w1" using Cons.prems(2,3) step by (meson list.set_intros(1))
  then show ?case using Cons.prems Cons.IH step
    by (cases q) (auto, meson)
qed

text \<open>For a loop that ends without error it is enough that every error-free step keeps it.\<close>

lemma for_each_invariant_ok:
  assumes "for_each f xs w = (w', None)" and "P w"
    and "\<And>x v v'. x \<in> set xs \<Longrightarrow> P v \<Longrightarrow> f x v = (v', None) \<Longrightarrow> P v'"
  shows "P w'"
  using assms
proof (induction xs arbitrary: w)
  case Nil
  then show ?case by simp
next
  case (Cons x xs)
  from Cons.prems(1) obtain w1 where step: "f x w = (w1, None)" and rest: "for_each f xs w1 = (w', None)"
    unfolding for_each_ok_Cons by blast
  have "P w1" using Cons.prems(2,3) step by (meson list.set_intros(1))
  with rest show ?case
    by (rule Cons.IH) (use Cons.prems(3) in \<open>meson list.set_intros(2)\<close>)
qed

text \<open>A loop that ends without error established, for each element, what its step establishes, if
  later steps keep it.\<close>

lemma for_each_all:
  assumes run: "for_each f xs w = (w', None)" and x: "x \<in> set xs" and start: "Inv w"
    and inv: "\<And>y v v'. y \<in> set xs \<Longrightarrow> Inv v \<Longrightarrow> f y v = (v', None) \<Longrightarrow> Inv v'"
    and est: "\<And>v v'. Inv v \<Longrightarrow> f x v = (v', None) \<Longrightarrow> P v'"
    and keep: "\<And>z v v'. z \<in> set xs \<Longrightarrow> Inv v \<Longrightarrow> P v \<Longrightarrow> f z v = (v', None) \<Longrightarrow> P v'"
  shows "P w'"
proof -
  from x obtain ys zs where xs: "xs = ys @ x # zs" by (meson split_list)
  from run obtain w1 w2 where ys: "for_each f ys w = (w1, None)" and step: "f x w1 = (w2, None)"
    and zs: "for_each f zs w2 = (w', None)"
    unfolding xs for_each_ok_append for_each_ok_Cons by blast
  have mem: "set ys \<subseteq> set xs" "x \<in> set xs" "set zs \<subseteq> set xs" by (auto simp: xs)
  have i1: "Inv w1"
    by (rule for_each_invariant_ok [where P = Inv, OF ys start]) (meson inv mem(1) subsetD)
  have i2: "Inv w2" by (rule inv [OF mem(2) i1 step])
  have p2: "P w2" by (rule est [OF i1 step])
  have "Inv w' \<and> P w'"
    by (rule for_each_invariant_ok [where P = "\<lambda>v. Inv v \<and> P v", OF zs conjI [OF i2 p2]]) (meson inv keep mem(3) subsetD)
  then show ?thesis ..
qed

lemma for_each_total:
  assumes "\<And>x v. x \<in> set xs \<Longrightarrow> snd (f x v) = None"
  shows "snd (for_each f xs w) = None"
  using assms
proof (induction xs arbitrary: w)
  case Nil
  then show ?case by simp
next
  case (Cons x xs)
  obtain w1 q where step: "f x w = (w1, q)" by fastforce
  then have "q = None" using Cons.prems [of x w] by simp
  with step Cons show ?case by simp
qed

section \<open>Pure loops that stop at the first error\<close>

fun fold_result :: "('a \<Rightarrow> 's \<Rightarrow> 'e + 's) \<Rightarrow> 'a list \<Rightarrow> 's \<Rightarrow> 'e + 's" where
  "fold_result f [] s = Inr s"
| "fold_result f (x # xs) s = (case f x s of Inl e \<Rightarrow> Inl e | Inr s' \<Rightarrow> fold_result f xs s')"

lemma fold_result_append [loop_simps]:
  "fold_result f (xs @ ys) s =
     (case fold_result f xs s of Inl e \<Rightarrow> Inl e | Inr s' \<Rightarrow> fold_result f ys s')"
  by (induction xs arbitrary: s) (auto split: sum.splits)

section \<open>Maps as Go reads them\<close>

definition map_get :: "'v \<Rightarrow> ('k \<rightharpoonup> 'v) \<Rightarrow> 'k \<Rightarrow> 'v" where
  "map_get zero m k = (case m k of None \<Rightarrow> zero | Some v \<Rightarrow> v)"

text \<open>Two maps that agree everywhere but at one key.\<close>

lemma map_at:
  assumes "f(x := None) = g(x := None)"
  shows "f x = Some y \<Longrightarrow> f = g(x \<mapsto> y)" and "f x = None \<Longrightarrow> f = g(x := None)" and "z \<noteq> x \<Longrightarrow> f z = g z"
  using assms by (metis fun_upd_triv fun_upd_upd, metis fun_upd_triv, metis fun_upd_other)

lemma map_get_simps [simp]:
  "m k = None \<Longrightarrow> map_get z m k = z"
  "m k = Some v \<Longrightarrow> map_get z m k = v"
  by (simp_all add: map_get_def)

section \<open>Lists\<close>

lemma nth_map_upt [simp]: "i < n \<Longrightarrow> map f [0..<n] ! i = f i"
  by simp

lemma takeWhile_all_append: "\<forall>c \<in> set ds. P c \<Longrightarrow> \<not> P x \<Longrightarrow> takeWhile P (ds @ x # s) = ds"
  by (induction ds) auto

lemma dropWhile_all_append: "\<forall>c \<in> set ds. P c \<Longrightarrow> \<not> P x \<Longrightarrow> dropWhile P (ds @ x # s) = x # s"
  by (induction ds) auto

end
