(* ===== verification/ApiTypes.thy ===== *)
theory ApiTypes
  imports Prelude "HOL-Library.Word"
begin

text \<open>
  The data the program exchanges: the custom resources of \<open>api/v1\<close> (SliceNetwork, SliceOverlay,
  ProviderProfile), and the L2S-M objects it generates (\<open>github.com/Networks-it-uc3m/L2S-M/api/v1\<close>,
  whose Go types are not in the repository: the records list the fields the program reads or
  writes, and a field \<open>..._rest\<close> stands for the others, which it only copies).

  A pointer field is an \<open>option\<close>, a slice a \<open>list\<close>, a label map a HOL map. The metadata record
  keeps what the program reads or hands on; \<open>m_deletion\<close> is \<open>DeletionTimestamp\<close>, an optional time
  with \<open>0\<close> for Go's zero time.
\<close>

section \<open>JSON-like unstructured content\<close>

datatype json =
    JNull
  | JBool bool
  | JNum int
  | JStr string
  | JArr "json list"
  | JObj "(string \<times> json) list"

section \<open>Metadata\<close>

record type_meta =
  tm_kind :: string
  tm_apiVersion :: string

record object_meta =
  m_name :: string
  m_namespace :: string
  m_labels :: "string \<rightharpoonup> string"
  m_finalizers :: "string list"
  m_deletion :: "int option"
  m_resourceVersion :: string

definition empty_meta :: object_meta where
  "empty_meta = \<lparr>m_name = [], m_namespace = [], m_labels = Map.empty, m_finalizers = [],
     m_deletion = None, m_resourceVersion = []\<rparr>"

record group_version =
  gv_group :: string
  gv_version :: string

definition GroupVersion :: group_version where
  "GroupVersion = \<lparr>gv_group = ''l2sces.l2sm.io'', gv_version = ''v1''\<rparr>"

text \<open>What the generators take from L2S-M's API package and from apimachinery: the group version of
  the generated objects and how a group version is written.\<close>

record l2sm_lib =
  lib_group_version :: group_version
  lib_gv_string :: "group_version \<Rightarrow> string"
  lib_gv_identifier :: "group_version \<Rightarrow> string"

section \<open>Provider configuration and shared specs of L2S-M\<close>

record provider_spec =
  ps_name :: string
  ps_domain :: "string list"
  ps_ofPort :: string
  ps_sdnPort :: string
  ps_dnsPort :: string
  ps_dnsGrpcPort :: string

definition empty_provider :: provider_spec where
  "empty_provider = \<lparr>ps_name = [], ps_domain = [], ps_ofPort = [], ps_sdnPort = [],
     ps_dnsPort = [], ps_dnsGrpcPort = []\<rparr>"

record node_config_spec =
  nc_nodeName :: string
  nc_ipAddress :: string

record monitor_spec =
  mon_networkCIDR :: "string option"
  mon_ipCIDR :: "string option"
  mon_rest :: json

record env_var =
  ev_name :: string
  ev_fieldPath :: "string option"

record container =
  ct_name :: string
  ct_image :: string
  ct_env :: "env_var list"
  ct_imagePullPolicy :: string
  ct_capabilitiesAdd :: "string list"

record switch_template =
  st_containers :: "container list"
  st_rest :: json

section \<open>api/v1: provider references and profiles\<close>

record provider_reference =
  ref_name :: string
  ref_namespace :: string

record provider_profile_spec =
  pps_provider :: provider_spec

record provider_profile_status =
  ppst_conditions :: "json list"

record provider_profile =
  pp_typeMeta :: type_meta
  pp_meta :: object_meta
  pp_spec :: provider_profile_spec
  pp_status :: provider_profile_status

section \<open>api/v1: SliceNetwork\<close>

record slice_network_spec =
  sns_clusters :: "string list"
  sns_type :: string
  sns_providerRef :: "provider_reference option"
  sns_provider :: "provider_spec option"

record slice_cluster_status =
  scs_clusterName :: string
  scs_status :: string
  scs_message :: string

record slice_network_status =
  snst_clusterStatuses :: "slice_cluster_status list"
  snst_conditions :: "json list"

record slice_network =
  sn_typeMeta :: type_meta
  sn_meta :: object_meta
  sn_spec :: slice_network_spec
  sn_status :: slice_network_status

section \<open>api/v1: SliceOverlay\<close>

record overlay_link =
  ol_endpointA :: string
  ol_endpointB :: string

record overlay_cluster =
  oc_name :: string
  oc_gateway :: "node_config_spec option"

record overlay_topology =
  ot_nodes :: "overlay_cluster list"
  ot_links :: "overlay_link list"

record slice_overlay_spec =
  sos_providerRef :: "provider_reference option"
  sos_provider :: "provider_spec option"
  sos_switchTemplate :: "switch_template option"
  sos_topology :: "overlay_topology option"
  sos_monitoring :: "monitor_spec option"

record slice_overlay_status =
  sost_conditions :: "json list"
  sost_deployedSwitches :: "32 word"
  sost_phase :: string

record slice_overlay =
  so_typeMeta :: type_meta
  so_meta :: object_meta
  so_spec :: slice_overlay_spec
  so_status :: slice_overlay_status

definition empty_network_status :: slice_network_status where
  "empty_network_status = \<lparr>snst_clusterStatuses = [], snst_conditions = []\<rparr>"

definition empty_overlay_status :: slice_overlay_status where
  "empty_overlay_status = \<lparr>sost_conditions = [], sost_deployedSwitches = 0, sost_phase = []\<rparr>"

section \<open>The L2S-M objects the program generates\<close>

record l2network_spec =
  l2s_type :: string
  l2s_provider :: "provider_spec option"
  l2s_networkCIDR :: string
  l2s_podAddressRange :: string

record l2network =
  l2_typeMeta :: type_meta
  l2_meta :: object_meta
  l2_spec :: l2network_spec

record neighbor_spec =
  nb_node :: string
  nb_domain :: string
  nb_lpmIp :: "string option"

record ned_spec =
  neds_provider :: "provider_spec option"
  neds_nodeConfig :: "node_config_spec option"
  neds_neighbors :: "neighbor_spec list"
  neds_monitor :: "monitor_spec option"

record network_edge_device =
  ned_typeMeta :: type_meta
  ned_meta :: object_meta
  ned_spec :: ned_spec

record link =
  ln_endpointA :: string
  ln_endpointB :: string

record topology_spec =
  tp_nodes :: "string list"
  tp_links :: "link list"

record overlay_spec =
  os_provider :: "provider_spec option"
  os_switchTemplate :: "switch_template option"
  os_topology :: "topology_spec option"

record l2sm_overlay =
  lo_typeMeta :: type_meta
  lo_meta :: object_meta
  lo_spec :: overlay_spec

abbreviation net_name :: "slice_network \<Rightarrow> string" where
  "net_name n \<equiv> m_name (sn_meta n)"

abbreviation net_namespace :: "slice_network \<Rightarrow> string" where
  "net_namespace n \<equiv> m_namespace (sn_meta n)"

abbreviation overlay_name :: "slice_overlay \<Rightarrow> string" where
  "overlay_name s \<equiv> m_name (so_meta s)"

abbreviation overlay_namespace :: "slice_overlay \<Rightarrow> string" where
  "overlay_namespace s \<equiv> m_namespace (so_meta s)"

text \<open>\<open>DeletionTimestamp.IsZero()\<close>: nil or the zero time.\<close>

definition deletion_is_zero :: "object_meta \<Rightarrow> bool" where
  "deletion_is_zero m \<longleftrightarrow> (case m_deletion m of None \<Rightarrow> True | Some t \<Rightarrow> t = 0)"

end
