(* ===== verification/GoString.thy ===== *)
theory GoString
  imports Prelude
begin

text \<open>
  The part of Go's \<open>strings\<close>, \<open>strconv\<close> and \<open>fmt\<close> packages the program uses, on strings as byte
  sequences (\<open>string\<close> is \<open>char list\<close>, a \<open>char\<close> is a byte).

  Text is UTF-8. \<open>trim_space\<close> strips the Unicode white space, the encodings listed in \<open>wide_spaces\<close>;
  the first byte of an encoding is never inside another one, so reading them off either end is exact.
  \<open>to_lower\<close> gives every ASCII letter \<open>strings.ToLower\<close> gives: those of the ASCII letters, and the two
  of U+0130 and U+212A, the only letters outside ASCII that have one. The other characters outside
  ASCII are left as they are: \<open>sanitizeManifestWorkName\<close> replaces them whatever their case, and
  \<open>getPluralResourceName\<close> is for kinds of Kubernetes resources, which are ASCII.
\<close>

section \<open>Characters\<close>

definition code :: "char \<Rightarrow> nat" where
  "code c = of_char c"

definition is_digit :: "char \<Rightarrow> bool" where
  "is_digit c \<longleftrightarrow> 48 \<le> code c \<and> code c \<le> 57"

definition is_lower :: "char \<Rightarrow> bool" where
  "is_lower c \<longleftrightarrow> 97 \<le> code c \<and> code c \<le> 122"

definition is_upper :: "char \<Rightarrow> bool" where
  "is_upper c \<longleftrightarrow> 65 \<le> code c \<and> code c \<le> 90"

definition digit_char :: "nat \<Rightarrow> char" where
  "digit_char d = char_of (48 + d)"

definition digit_val :: "char \<Rightarrow> nat" where
  "digit_val c = code c - 48"

lemma code_lt [simp]: "code c < 256"
  by (simp add: code_def)

lemma code_char_of [simp]: "n < 256 \<Longrightarrow> code (char_of n) = n"
  by (simp add: code_def)

lemma code_inject [simp]: "code c = code d \<longleftrightarrow> c = d"
  by (simp add: code_def)

lemma code_eq_iff: "code c = n \<longleftrightarrow> n < 256 \<and> c = char_of n"
  by (auto simp: code_def)

lemma is_digit_digit_char [simp]: "d < 10 \<Longrightarrow> is_digit (digit_char d)"
  by (simp add: is_digit_def digit_char_def)

lemma digit_val_digit_char [simp]: "d < 10 \<Longrightarrow> digit_val (digit_char d) = d"
  by (simp add: digit_val_def digit_char_def)

lemma not_digit_punct [simp]:
  "\<not> is_digit CHR ''.''" "\<not> is_digit CHR ''/''" "\<not> is_digit CHR '':''" "\<not> is_digit CHR ''%''"
  by (simp_all add: is_digit_def code_def)

section \<open>The functions of package strings\<close>

definition lower_char :: "char \<Rightarrow> char" where
  "lower_char c = (if is_upper c then char_of (code c + 32) else c)"

fun to_lower :: "string \<Rightarrow> string" where
  "to_lower [] = []"
| "to_lower (c # cs) =
     (if take 2 (c # cs) = [CHR 0xC4, CHR 0xB0] then CHR ''i'' # to_lower (drop 1 cs)
      else if take 3 (c # cs) = [CHR 0xE2, CHR 0x84, CHR 0xAA] then CHR ''k'' # to_lower (drop 2 cs)
      else lower_char c # to_lower cs)"

lemma to_lower_ascii: "\<forall>c \<in> set s. code c < 128 \<Longrightarrow> to_lower s = map lower_char s"
proof (induction s)
  case Nil
  then show ?case by simp
next
  case (Cons c cs)
  have "c \<noteq> CHR 0xC4" "c \<noteq> CHR 0xE2" using Cons.prems by (auto simp: code_def)
  with Cons show ?case by simp
qed

definition replace_all :: "char \<Rightarrow> char \<Rightarrow> string \<Rightarrow> string" where
  "replace_all a b s = map (\<lambda>c. if c = a then b else c) s"

definition trim_left :: "(char \<Rightarrow> bool) \<Rightarrow> string \<Rightarrow> string" where
  "trim_left p s = dropWhile p s"

definition trim_right :: "(char \<Rightarrow> bool) \<Rightarrow> string \<Rightarrow> string" where
  "trim_right p s = rev (dropWhile p (rev s))"

text \<open>\<open>strings.Trim(s, cutset)\<close>, the cutset as a predicate.\<close>

definition trim :: "(char \<Rightarrow> bool) \<Rightarrow> string \<Rightarrow> string" where
  "trim p s = trim_right p (trim_left p s)"

definition is_space :: "char \<Rightarrow> bool" where
  "is_space c \<longleftrightarrow> code c = 32 \<or> (9 \<le> code c \<and> code c \<le> 13)"

text \<open>The encodings of the white space outside ASCII: U+0085, U+00A0, U+1680, U+2000 to U+200A,
  U+2028, U+2029, U+202F, U+205F and U+3000.\<close>

definition wide_spaces :: "string list" where
  "wide_spaces =
     [[CHR 0xC2, CHR 0x85], [CHR 0xC2, CHR 0xA0], [CHR 0xE1, CHR 0x9A, CHR 0x80],
      [CHR 0xE2, CHR 0x81, CHR 0x9F], [CHR 0xE3, CHR 0x80, CHR 0x80]]
     @ map (\<lambda>b. [CHR 0xE2, CHR 0x80, b])
         [CHR 0x80, CHR 0x81, CHR 0x82, CHR 0x83, CHR 0x84, CHR 0x85, CHR 0x86, CHR 0x87, CHR 0x88,
          CHR 0x89, CHR 0x8A, CHR 0xA8, CHR 0xA9, CHR 0xAF]"

definition leading_space :: "string list \<Rightarrow> string \<Rightarrow> nat" where
  "leading_space wide s =
     (case s of
        [] \<Rightarrow> 0
      | c # cs \<Rightarrow>
          if is_space c then 1
          else case List.find (\<lambda>p. take (length p) s = p) wide of Some p \<Rightarrow> length p | None \<Rightarrow> 0)"

lemma leading_space_nonempty: "leading_space wide s \<noteq> 0 \<Longrightarrow> s \<noteq> []"
  by (auto simp: leading_space_def)

function drop_space :: "string list \<Rightarrow> string \<Rightarrow> string" where
  "drop_space wide s =
     (if leading_space wide s = 0 then s else drop_space wide (drop (leading_space wide s) s))"
  by pat_completeness auto

termination drop_space
proof (relation "measure (length \<circ> snd)")
  fix wide s
  assume "leading_space wide s \<noteq> 0"
  moreover from this have "s \<noteq> []" by (rule leading_space_nonempty)
  ultimately show "((wide, drop (leading_space wide s) s), wide, s) \<in> measure (length \<circ> snd)"
    by simp
qed simp

declare drop_space.simps [simp del]

definition trim_space :: "string \<Rightarrow> string" where
  "trim_space s = rev (drop_space (map rev wide_spaces) (rev (drop_space wide_spaces s)))"

lemma drop_space_visible:
  assumes "s \<noteq> []" "32 < code (hd s)" "code (hd s) < 128" "\<forall>p \<in> set wide. p \<noteq> [] \<and> 128 \<le> code (hd p)"
  shows "drop_space wide s = s"
proof -
  obtain c cs where s: "s = c # cs" using assms(1) by (cases s) auto
  have "take (length p) s \<noteq> p" if "p \<in> set wide" for p
  proof
    assume "take (length p) s = p"
    moreover have "p \<noteq> []" "128 \<le> code (hd p)" using assms(4) that by auto
    ultimately have "hd p = c" using s by (cases p) auto
    with \<open>128 \<le> code (hd p)\<close> assms(3) s show False by simp
  qed
  then have "List.find (\<lambda>p. take (length p) s = p) wide = None" by (auto simp: find_None_iff)
  moreover have "\<not> is_space c" using assms(2) s by (simp add: is_space_def)
  ultimately have "leading_space wide s = 0" using s by (simp add: leading_space_def)
  then show ?thesis by (simp add: drop_space.simps [of wide s])
qed

text \<open>A string that begins and ends with a visible ASCII character is not changed.\<close>

lemma trim_space_id:
  assumes "s \<noteq> []" "32 < code (hd s)" "code (hd s) < 128" "32 < code (last s)" "code (last s) < 128"
  shows "trim_space s = s"
proof -
  have "\<forall>p \<in> set wide_spaces. p \<noteq> [] \<and> 128 \<le> code (hd p)"
    and "\<forall>p \<in> set (map rev wide_spaces). p \<noteq> [] \<and> 128 \<le> code (hd p)"
    by (simp_all add: wide_spaces_def code_def)
  with assms show ?thesis by (simp add: trim_space_def drop_space_visible hd_rev)
qed

text \<open>\<open>strings.Cut(s, sep)\<close> for a one-byte separator: \<open>None\<close> when it does not occur.\<close>

fun cut :: "char \<Rightarrow> string \<Rightarrow> (string \<times> string) option" where
  "cut x [] = None"
| "cut x (c # cs) = (if c = x then Some ([], cs) else map_option (map_prod (Cons c) id) (cut x cs))"

text \<open>\<open>strings.Split(s, sep)\<close> for a one-byte separator.\<close>

fun split_on :: "char \<Rightarrow> string \<Rightarrow> string list" where
  "split_on x [] = [[]]"
| "split_on x (c # cs) =
     (if c = x then [] # split_on x cs
      else (case split_on x cs of [] \<Rightarrow> [[c]] | f # fs \<Rightarrow> (c # f) # fs))"

lemma cut_append [simp]: "x \<notin> set s \<Longrightarrow> cut x (s @ x # t) = Some (s, t)"
  by (induction s) auto

lemma cut_None [simp]: "x \<notin> set s \<Longrightarrow> cut x s = None"
  by (induction s) auto

lemma cut_SomeD: "cut x s = Some (a, b) \<Longrightarrow> s = a @ x # b \<and> x \<notin> set a"
proof (induction s arbitrary: a)
  case Nil
  then show ?case by simp
next
  case (Cons c cs)
  then show ?case by (cases "c = x") auto
qed

lemma split_on_absent [simp]: "x \<notin> set s \<Longrightarrow> split_on x s = [s]"
  by (induction s) auto

lemma split_on_append [simp]: "x \<notin> set s \<Longrightarrow> split_on x (s @ x # t) = s # split_on x t"
  by (induction s) auto

lemma set_dropWhile_subset: "set (dropWhile p s) \<subseteq> set s"
  by (metis set_dropWhileD subsetI)

lemma set_trim_subset: "set (trim p s) \<subseteq> set s"
proof -
  have "set (dropWhile p (rev t)) \<subseteq> set t" for t :: string
    using set_dropWhile_subset [of p "rev t"] by simp
  then show ?thesis
    using set_dropWhile_subset [of p s]
    unfolding trim_def trim_right_def trim_left_def set_rev by (rule subset_trans)
qed

lemma length_trim_le: "length (trim p s) \<le> length s"
proof -
  have "length (dropWhile p (rev t)) \<le> length t" for t :: string
    using length_dropWhile_le [of p "rev t"] by simp
  then have "length (trim p s) \<le> length (dropWhile p s)"
    by (simp add: trim_def trim_right_def trim_left_def)
  then show ?thesis using length_dropWhile_le [of p s] by (rule le_trans)
qed

text \<open>Neither end of a trimmed string is in the cutset.\<close>

lemma trim_hd: "trim p s \<noteq> [] \<Longrightarrow> \<not> p (hd (trim p s))"
proof -
  assume ne: "trim p s \<noteq> []"
  let ?l = "dropWhile p s"
  have l: "?l \<noteq> []" using ne unfolding trim_def trim_right_def trim_left_def by force
  then have "\<not> p (hd ?l)" by (rule hd_dropWhile)
  moreover have "\<exists>u. ?l = trim p s @ u"
  proof -
    have "?l = rev (takeWhile p (rev ?l) @ dropWhile p (rev ?l))" by simp
    then show ?thesis unfolding trim_def trim_right_def trim_left_def
      by (metis rev_append)
  qed
  ultimately show ?thesis using ne by (metis hd_append2)
qed

lemma trim_last: "trim p s \<noteq> [] \<Longrightarrow> \<not> p (last (trim p s))"
  unfolding trim_def trim_right_def
  by (metis Nil_is_rev_conv hd_dropWhile last_rev)

lemma trim_id:
  assumes "s \<noteq> []" "\<not> p (hd s)" "\<not> p (last s)"
  shows "trim p s = s"
proof -
  have "dropWhile p s = s" using assms(1,2) by (cases s) auto
  moreover have "dropWhile p (rev s) = rev s"
    using assms(1,3) by (cases s rule: rev_cases) auto
  ultimately show ?thesis by (simp add: trim_def trim_right_def trim_left_def)
qed

section \<open>Numbers in decimal and binary\<close>

text \<open>\<open>fmt.Sprintf("%d", n)\<close> and \<open>fmt.Sprintf("%b", n)\<close> for a natural number.\<close>

fun show_nat :: "nat \<Rightarrow> string" where
  "show_nat n = (if n < 10 then [digit_char n] else show_nat (n div 10) @ [digit_char (n mod 10)])"

fun show_bin :: "nat \<Rightarrow> string" where
  "show_bin n = (if n < 2 then [digit_char n] else show_bin (n div 2) @ [digit_char (n mod 2)])"

declare show_nat.simps [simp del] show_bin.simps [simp del]

text \<open>\<open>%b\<close> of an \<open>int\<close>: a minus sign before the magnitude of a negative number.\<close>

definition show_bin_int :: "int \<Rightarrow> string" where
  "show_bin_int i = (if i < 0 then ''-'' @ show_bin (nat (- i)) else show_bin (nat i))"

lemma show_nat_digits: "c \<in> set (show_nat n) \<Longrightarrow> is_digit c"
proof (induction n rule: show_nat.induct)
  case (1 n)
  then show ?case
    by (cases "n < 10") (auto simp: show_nat.simps [of n])
qed

lemma show_nat_nonempty [simp]: "show_nat n \<noteq> []"
  by (simp add: show_nat.simps)

lemma show_nat_no_punct [simp]:
  "CHR ''.'' \<notin> set (show_nat n)" "CHR ''/'' \<notin> set (show_nat n)"
  "CHR '':'' \<notin> set (show_nat n)" "CHR ''%'' \<notin> set (show_nat n)"
  by (auto dest: show_nat_digits)

text \<open>The length of the binary numeral is the number of bits of the number.\<close>

lemma show_bin_length_bounds:
  "0 < n \<Longrightarrow> n < 2 ^ length (show_bin n) \<and> 2 ^ (length (show_bin n) - 1) \<le> n"
proof (induction n rule: show_bin.induct)
  case (1 n)
  show ?case
  proof (cases "n < 2")
    case True
    with "1.prems" have "n = 1" by simp
    then show ?thesis by (simp add: show_bin.simps)
  next
    case False
    let ?k = "length (show_bin (n div 2))"
    from False "1.IH" have ih: "n div 2 < 2 ^ ?k" "2 ^ (?k - 1) \<le> n div 2" by auto
    have k: "0 < ?k" by (simp add: show_bin.simps)
    have len: "length (show_bin n) = Suc ?k" using False by (simp add: show_bin.simps [of n])
    have "(2::nat) ^ ?k = 2 * 2 ^ (?k - 1)" using k by (cases ?k) simp_all
    then have "(2::nat) ^ (length (show_bin n) - 1) = 2 * 2 ^ (?k - 1)"
      and "(2::nat) ^ length (show_bin n) = 2 * 2 ^ ?k" using len by simp_all
    with ih show ?thesis by linarith
  qed
qed

section \<open>Reading numbers\<close>

text \<open>
  \<open>dtoi\<close> of package \<open>net\<close>: decimal digits with a cap. The callers modelled here require it to
  consume the whole string, so a stop at a non-digit is a failure.
\<close>

definition dtoi_big :: nat where
  "dtoi_big = 16777215"

fun dtoi_loop :: "nat \<Rightarrow> string \<Rightarrow> nat option" where
  "dtoi_loop n [] = Some n"
| "dtoi_loop n (c # cs) =
     (if is_digit c
      then (let n' = n * 10 + digit_val c in if n' \<ge> dtoi_big then None else dtoi_loop n' cs)
      else None)"

definition dtoi :: "string \<Rightarrow> nat option" where
  "dtoi s = (if s = [] then None else dtoi_loop 0 s)"

definition dec_val :: "string \<Rightarrow> nat" where
  "dec_val s = foldl (\<lambda>n c. n * 10 + digit_val c) 0 s"

lemma dec_val_show_nat [simp]: "dec_val (show_nat n) = n"
proof (induction n rule: show_nat.induct)
  case (1 n)
  then show ?case
    by (cases "n < 10") (simp_all add: show_nat.simps [of n] dec_val_def)
qed

lemma dtoi_loop_ok:
  "\<forall>c \<in> set s. is_digit c \<Longrightarrow> foldl (\<lambda>n c. n * 10 + digit_val c) n s < dtoi_big
    \<Longrightarrow> dtoi_loop n s = Some (foldl (\<lambda>n c. n * 10 + digit_val c) n s)"
proof (induction s arbitrary: n)
  case Nil
  then show ?case by simp
next
  case (Cons c s)
  let ?f = "\<lambda>n c. n * 10 + digit_val c"
  have "m \<le> foldl ?f m s" for m
  proof (induction s arbitrary: m)
    case Nil
    then show ?case by simp
  next
    case (Cons d ds)
    have "m \<le> m * 10 + digit_val d" by simp
    also have "\<dots> \<le> foldl ?f (m * 10 + digit_val d) ds" by (rule Cons.IH)
    finally show ?case by simp
  qed
  from this [of "n * 10 + digit_val c"] Cons.prems(2)
  have "n * 10 + digit_val c < dtoi_big" by simp
  with Cons show ?case by (simp add: Let_def)
qed

lemma dtoi_show_nat [simp]: "n < dtoi_big \<Longrightarrow> dtoi (show_nat n) = Some n"
  using dtoi_loop_ok [of "show_nat n" 0] dec_val_show_nat [of n]
  by (auto simp: dtoi_def dec_val_def dest: show_nat_digits)

end
