(* ===== verification/GoNet.thy ===== *)
theory GoNet
  imports GoString "HOL-Library.Word"
begin

unbundle bit_operations_syntax

text \<open>
  The part of Go's packages \<open>net\<close>, \<open>net/netip\<close> and \<open>encoding/binary\<close> the program uses.
  A \<open>net.IP\<close> and a \<open>net.IPMask\<close> are byte slices, of length 4 or 16, and the nil slice is \<open>[]\<close>.
  \<open>net.ParseCIDR\<close> and \<open>net.ParseIP\<close> return addresses in the 16-byte form, IPv4 ones with the
  prefix \<open>::ffff:0:0/96\<close>, and reject every address with a zone.

  The lemmas: masking by \<open>CIDRMask n 32\<close> clears the low \<open>32 - n\<close> bits of the address word, the
  big-endian conversions are inverse, and parsing inverts printing for IPv4 addresses and blocks.
\<close>

type_synonym byte = "8 word"
type_synonym ip = "byte list"
type_synonym u32 = "32 word"

section \<open>Addresses and masks as byte slices\<close>

definition v4InV6Prefix :: "byte list" where
  "v4InV6Prefix = [0, 0, 0, 0, 0, 0, 0, 0, 0, 0, 255, 255]"

definition to4 :: "ip \<Rightarrow> ip" where
  "to4 p = (if length p = 4 then p
            else if length p = 16 \<and> take 12 p = v4InV6Prefix then drop 12 p
            else [])"

text \<open>\<open>netip.Addr.As16\<close> of a 4-byte or 16-byte address.\<close>

definition as16 :: "ip \<Rightarrow> ip" where
  "as16 p = (if length p = 4 then v4InV6Prefix @ p else p)"

fun mask_bytes :: "nat \<Rightarrow> nat \<Rightarrow> byte list" where
  "mask_bytes 0 n = []"
| "mask_bytes (Suc l) n =
     (if n \<ge> 8 then 255 # mask_bytes l (n - 8) else NOT (drop_bit n 255) # mask_bytes l 0)"

definition cidr_mask :: "nat \<Rightarrow> nat \<Rightarrow> byte list" where
  "cidr_mask ones bits = mask_bytes (bits div 8) ones"

text \<open>\<open>simpleMaskLength\<close>: the number of leading one bits, \<open>None\<close> when a one bit follows a zero bit.
  A byte shifted left eight times is zero, so eight rounds exhaust it.\<close>

fun lead_ones :: "nat \<Rightarrow> byte \<Rightarrow> nat \<times> byte" where
  "lead_ones 0 v = (0, v)"
| "lead_ones (Suc k) v =
     (if v AND 128 \<noteq> 0 then map_prod Suc id (lead_ones k (push_bit 1 v)) else (0, v))"

fun simple_mask_length :: "byte list \<Rightarrow> nat option" where
  "simple_mask_length [] = Some 0"
| "simple_mask_length (v # vs) =
     (if v = 255 then map_option ((+) 8) (simple_mask_length vs)
      else (case lead_ones 8 v of
              (n, u) \<Rightarrow> if u \<noteq> 0 then None
                       else if list_all (\<lambda>b. b = 0) vs then Some n else None))"

definition mask_size :: "byte list \<Rightarrow> nat \<times> nat" where
  "mask_size m = (case simple_mask_length m of None \<Rightarrow> (0, 0) | Some n \<Rightarrow> (n, 8 * length m))"

definition ip_mask :: "ip \<Rightarrow> byte list \<Rightarrow> ip" where
  "ip_mask p m =
     (let m' = (if length m = 16 \<and> length p = 4 \<and> list_all (\<lambda>b. b = 255) (take 12 m)
                then drop 12 m else m);
          p' = (if length m' = 4 \<and> length p = 16 \<and> take 12 p = v4InV6Prefix
                then drop 12 p else p)
      in if length p' \<noteq> length m' then [] else map2 (AND) p' m')"

record ipnet =
  ipn_ip :: ip
  ipn_mask :: "byte list"

section \<open>encoding/binary: BigEndian.Uint32 and PutUint32\<close>

text \<open>\<open>Uint32\<close> reads the first four bytes and panics (\<open>None\<close>) on a shorter slice.\<close>

definition be_word :: "byte \<Rightarrow> byte \<Rightarrow> byte \<Rightarrow> byte \<Rightarrow> u32" where
  "be_word a b c d =
     ucast d OR push_bit 8 (ucast c) OR push_bit 16 (ucast b) OR push_bit 24 (ucast a)"

fun be_uint32 :: "byte list \<Rightarrow> u32 option" where
  "be_uint32 (a # b # c # d # _) = Some (be_word a b c d)"
| "be_uint32 _ = None"

definition be_put_uint32 :: "u32 \<Rightarrow> byte list" where
  "be_put_uint32 w =
     [ucast (drop_bit 24 w), ucast (drop_bit 16 w), ucast (drop_bit 8 w), ucast w]"

section \<open>Printing\<close>

definition ipv4_string :: "byte list \<Rightarrow> string" where
  "ipv4_string b =
     (case b of [p, q, r, s] \<Rightarrow>
        show_nat (unat p) @ ''.'' @ show_nat (unat q) @ ''.''
          @ show_nat (unat r) @ ''.'' @ show_nat (unat s)
      | _ \<Rightarrow> [])"

definition hex_char :: "nat \<Rightarrow> char" where
  "hex_char d = (if d < 10 then digit_char d else char_of (87 + d))"

fun show_hex :: "nat \<Rightarrow> string" where
  "show_hex n = (if n < 16 then [hex_char n] else show_hex (n div 16) @ [hex_char (n mod 16)])"

declare show_hex.simps [simp del]

fun join :: "string \<Rightarrow> string list \<Rightarrow> string" where
  "join sep [] = []"
| "join sep [s] = s"
| "join sep (s # ss) = s @ sep @ join sep ss"

fun groups16 :: "byte list \<Rightarrow> nat list" where
  "groups16 (a # b # bs) = (unat a * 256 + unat b) # groups16 bs"
| "groups16 _ = []"

text \<open>The first longest run of at least two zero groups, as \<open>(start, end)\<close>.\<close>

definition zero_run :: "nat list \<Rightarrow> (nat \<times> nat) option" where
  "zero_run gs =
     fold (\<lambda>i best.
        let l = length (takeWhile (\<lambda>g. g = 0) (drop i gs));
            cur = (case best of None \<Rightarrow> 0 | Some (s, e) \<Rightarrow> e - s)
        in if 2 \<le> l \<and> cur < l then Some (i, i + l) else best) [0..<length gs] None"

definition ipv6_string :: "byte list \<Rightarrow> string" where
  "ipv6_string p =
     (let gs = groups16 p in
      case zero_run gs of
        None \<Rightarrow> join '':'' (map show_hex gs)
      | Some (s, e) \<Rightarrow>
          join '':'' (map show_hex (take s gs)) @ ''::'' @ join '':'' (map show_hex (drop e gs)))"

definition hex_string :: "byte list \<Rightarrow> string" where
  "hex_string p = concat (map (\<lambda>b. [hex_char (unat b div 16), hex_char (unat b mod 16)]) p)"

definition ip_string :: "ip \<Rightarrow> string" where
  "ip_string p =
     (if p = [] then ''<nil>''
      else if length p \<noteq> 4 \<and> length p \<noteq> 16 then ''?'' @ hex_string p
      else if to4 p \<noteq> [] then ipv4_string (to4 p)
      else ipv6_string p)"

text \<open>\<open>IPNet.String\<close>, through \<open>networkNumberAndMask\<close>.\<close>

definition ipnet_string :: "ipnet \<Rightarrow> string" where
  "ipnet_string n =
     (let ip4 = to4 (ipn_ip n);
          ip' = (if ip4 \<noteq> [] then ip4 else if length (ipn_ip n) = 16 then ipn_ip n else []);
          m = ipn_mask n;
          m' = (if length m = 4 then (if length ip' = 4 then m else [])
                else if length m = 16 then (if length ip' = 4 then drop 12 m else m)
                else [])
      in if ip' = [] \<or> m' = [] then ''<nil>''
         else (case simple_mask_length m' of
                 None \<Rightarrow> ip_string ip' @ ''/'' @ hex_string m'
               | Some l \<Rightarrow> ip_string ip' @ ''/'' @ show_nat l))"

section \<open>Parsing\<close>

definition parse_octet :: "string \<Rightarrow> nat option" where
  "parse_octet s =
     (if s \<noteq> [] \<and> list_all is_digit s \<and> (length s = 1 \<or> hd s \<noteq> CHR ''0'') \<and> dec_val s \<le> 255
      then Some (dec_val s) else None)"

definition parse_ipv4 :: "string \<Rightarrow> byte list option" where
  "parse_ipv4 s =
     (case map parse_octet (split_on CHR ''.'' s) of
        [Some a, Some b, Some c, Some d] \<Rightarrow> Some [of_nat a, of_nat b, of_nat c, of_nat d]
      | _ \<Rightarrow> None)"

definition is_hex :: "char \<Rightarrow> bool" where
  "is_hex c \<longleftrightarrow> is_digit c \<or> (97 \<le> code c \<and> code c \<le> 102) \<or> (65 \<le> code c \<and> code c \<le> 70)"

definition hex_val :: "char \<Rightarrow> nat" where
  "hex_val c = (if is_digit c then digit_val c else if 97 \<le> code c then code c - 87 else code c - 55)"

definition hex_group :: "string \<Rightarrow> byte list" where
  "hex_group ds = (let v = foldl (\<lambda>n c. n * 16 + hex_val c) 0 ds in [of_nat (v div 256), of_nat v])"

lemma dropWhile_Cons_length: "c # cs = dropWhile p s \<Longrightarrow> length cs < length s"
  using length_dropWhile_le [of p s] by (auto dest: arg_cong [where f = length])

text \<open>The loop of \<open>parseIPv6\<close>: the bytes so far, the position of \<open>::\<close> and the rest of the input.\<close>

function parse6_loop ::
  "byte list \<Rightarrow> nat option \<Rightarrow> string \<Rightarrow> (byte list \<times> nat option \<times> string) option" where
  "parse6_loop acc ell s =
     (if length acc \<ge> 16 then Some (acc, ell, s)
      else let ds = takeWhile is_hex s; rest = dropWhile is_hex s; acc' = acc @ hex_group ds in
        if ds = [] \<or> length ds > 4 then None
        else (case rest of
            [] \<Rightarrow> Some (acc', ell, [])
          | c # cs \<Rightarrow>
              if c = CHR ''.'' then
                (if ell = None \<and> length acc \<noteq> 12 then None
                 else if length acc + 4 > 16 then None
                 else map_option (\<lambda>f. (acc @ f, ell, [])) (parse_ipv4 s))
              else if c \<noteq> CHR '':'' then None
              else (case cs of
                  [] \<Rightarrow> None
                | d # ds' \<Rightarrow>
                    if d = CHR '':'' then
                      (if ell \<noteq> None then None
                       else if ds' = [] then Some (acc', Some (length acc'), [])
                       else parse6_loop acc' (Some (length acc')) ds')
                    else parse6_loop acc' ell cs)))"
  by pat_completeness auto
termination
  by (relation "measure (\<lambda>(acc, ell, s). length s)") (auto dest: dropWhile_Cons_length)

declare parse6_loop.simps [simp del]

definition parse_ipv6 :: "string \<Rightarrow> byte list option" where
  "parse_ipv6 s =
     (let lead = take 2 s = ''::''; s' = (if lead then drop 2 s else s);
          ell = (if lead then Some 0 else None) in
      if lead \<and> s' = [] then Some (replicate 16 0)
      else (case parse6_loop [] ell s' of
          None \<Rightarrow> None
        | Some (acc, e, rest) \<Rightarrow>
            if rest \<noteq> [] then None
            else if length acc < 16 then
              (case e of
                 None \<Rightarrow> None
               | Some k \<Rightarrow> Some (take k acc @ replicate (16 - length acc) 0 @ drop k acc))
            else if e \<noteq> None then None else Some acc))"

text \<open>\<open>netip.ParseAddr\<close> for callers that reject zones: the first of \<open>. : %\<close> picks the syntax.\<close>

definition parse_addr :: "string \<Rightarrow> byte list option" where
  "parse_addr s =
     (case List.find (\<lambda>c. c = CHR ''.'' \<or> c = CHR '':'' \<or> c = CHR ''%'') s of
        None \<Rightarrow> None
      | Some c \<Rightarrow>
          if c = CHR ''.'' then parse_ipv4 s
          else if c = CHR '':'' then (if CHR ''%'' \<in> set s then None else parse_ipv6 s)
          else None)"

definition parse_ip :: "string \<Rightarrow> ip" where
  "parse_ip s = (case parse_addr s of None \<Rightarrow> [] | Some b \<Rightarrow> as16 b)"

definition parse_cidr :: "string \<Rightarrow> (ip \<times> ipnet) option" where
  "parse_cidr s =
     (case cut CHR ''/'' s of
        None \<Rightarrow> None
      | Some (addr, m) \<Rightarrow>
          (case parse_addr addr of
             None \<Rightarrow> None
           | Some b \<Rightarrow>
               (case dtoi m of
                  None \<Rightarrow> None
                | Some n \<Rightarrow>
                    if n > 8 * length b then None
                    else let msk = cidr_mask n (8 * length b); p = as16 b in
                      Some (p, \<lparr>ipn_ip = ip_mask p msk, ipn_mask = msk\<rparr>))))"

section \<open>Words and masks\<close>

lemma bit_byte_lt: "bit (b :: byte) k \<Longrightarrow> k < 8"
  using bit_imp_le_length [of b k] by simp

lemma bit_be_word:
  "bit (be_word a b c d) k \<longleftrightarrow>
     (if k < 8 then bit d k else if k < 16 then bit c (k - 8)
      else if k < 24 then bit b (k - 16) else k < 32 \<and> bit a (k - 24))"
  by (auto simp: be_word_def bit_or_iff bit_push_bit_iff bit_ucast_iff dest: bit_byte_lt)

lemma be_word_and:
  "be_word (a AND p) (b AND q) (c AND r) (d AND s) = be_word a b c d AND be_word p q r s"
  by (rule bit_word_eqI) (auto simp: bit_be_word bit_and_iff)

lemma be_put_be_word: "be_put_uint32 (be_word a b c d) = [a, b, c, d]"
  unfolding be_put_uint32_def
  by (auto intro!: bit_word_eqI simp: bit_be_word bit_ucast_iff bit_drop_bit_eq)

lemma be_uint32_put: "be_uint32 (be_put_uint32 w) = Some w"
  unfolding be_put_uint32_def be_uint32.simps option.inject
  by (rule bit_word_eqI) (auto simp: bit_be_word bit_ucast_iff bit_drop_bit_eq)


definition mask_byte :: "nat \<Rightarrow> byte" where
  "mask_byte n = NOT (drop_bit n 255)"

lemma byte_255: "(255 :: byte) = mask 8"
  by (simp add: mask_numeral)

lemma bit_mask_byte: "bit (mask_byte n) k \<longleftrightarrow> k < 8 \<and> 8 \<le> n + k"
  unfolding mask_byte_def byte_255 by (auto simp: bit_not_iff bit_drop_bit_eq bit_mask_iff)

lemma mask_byte_full: "8 \<le> n \<Longrightarrow> mask_byte n = 255"
  unfolding byte_255 by (rule bit_word_eqI) (simp add: bit_mask_byte bit_mask_iff)

lemma mask_bytes_Suc: "mask_bytes (Suc l) n = mask_byte n # mask_bytes l (n - 8)"
  by (simp add: mask_byte_full) (simp add: mask_byte_def)

lemma cidr_mask_32:
  "cidr_mask n 32 = [mask_byte n, mask_byte (n - 8), mask_byte (n - 16), mask_byte (n - 24)]"
proof -
  have "cidr_mask n 32 = mask_bytes (Suc (Suc (Suc (Suc 0)))) n"
    unfolding cidr_mask_def by (rule arg_cong2 [where f = mask_bytes]) simp_all
  then show ?thesis by (simp only: mask_bytes_Suc mask_bytes.simps(1) diff_diff_left) simp
qed

lemma be_word_cidr_mask:
  assumes "n \<le> 32"
  shows "be_word (mask_byte n) (mask_byte (n - 8)) (mask_byte (n - 16)) (mask_byte (n - 24))
    = NOT (mask (32 - n))"
  by (rule bit_word_eqI) (use assms in \<open>auto simp: bit_be_word bit_mask_byte bit_not_iff bit_mask_iff\<close>)


lemma mask_byte_0: "mask_byte 0 = 0"
  by (rule bit_word_eqI) (simp add: bit_mask_byte)

lemma list_all_mask_bytes_0: "list_all (\<lambda>b. b = 0) (mask_bytes l 0)"
  by (induction l) (simp_all add: mask_bytes_Suc mask_byte_0 del: mask_bytes.simps(2))

lemma lead_ones_mask_bytes:
  "list_all (\<lambda>n. mask_byte n \<noteq> 255 \<and> lead_ones 8 (mask_byte n) = (n, 0)) [0, 1, 2, 3, 4, 5, 6, 7]"
  by code_simp

lemma lead_ones_mask_byte:
  assumes "n < 8"
  shows "mask_byte n \<noteq> 255" "lead_ones 8 (mask_byte n) = (n, 0)"
proof -
  have "n \<in> set [0, 1, 2, 3, 4, 5, 6, 7]" using assms by auto
  then show "mask_byte n \<noteq> 255" "lead_ones 8 (mask_byte n) = (n, 0)"
    using lead_ones_mask_bytes unfolding list_all_iff by blast+
qed

lemma simple_mask_length_mask_bytes: "n \<le> 8 * l \<Longrightarrow> simple_mask_length (mask_bytes l n) = Some n"
proof (induction l arbitrary: n)
  case 0
  then show ?case by simp
next
  case (Suc l)
  show ?case
  proof (cases "8 \<le> n")
    case True
    with Suc show ?thesis by simp
  next
    case False
    then show ?thesis
      by (simp add: mask_bytes_Suc lead_ones_mask_byte list_all_mask_bytes_0 del: mask_bytes.simps)
  qed
qed

lemma length_mask_bytes [simp]: "length (mask_bytes l n) = l"
  by (induction l arbitrary: n) auto

lemma mask_size_cidr_mask_32 [simp]: "n \<le> 32 \<Longrightarrow> mask_size (cidr_mask n 32) = (n, 32)"
  by (simp add: mask_size_def cidr_mask_def simple_mask_length_mask_bytes)

lemma mask_size_cidr_mask_128 [simp]: "n \<le> 128 \<Longrightarrow> mask_size (cidr_mask n 128) = (n, 128)"
  by (simp add: mask_size_def cidr_mask_def simple_mask_length_mask_bytes)

section \<open>Parsing inverts printing\<close>

lemma hd_show_nat: "0 < n \<Longrightarrow> hd (show_nat n) \<noteq> CHR ''0''"
proof (induction n rule: show_nat.induct)
  case (1 n)
  show ?case
  proof (cases "n < 10")
    case True
    have "digit_val CHR ''0'' = 0" by (simp add: digit_val_def code_def)
    with True "1.prems" have "digit_char n \<noteq> CHR ''0''" by (metis digit_val_digit_char less_irrefl)
    with True show ?thesis by (simp add: show_nat.simps [of n])
  next
    case False
    with "1.IH" have "hd (show_nat (n div 10)) \<noteq> CHR ''0''" by simp
    with False show ?thesis by (simp add: show_nat.simps [of n])
  qed
qed

lemma parse_octet_show_nat [simp]: "n \<le> 255 \<Longrightarrow> parse_octet (show_nat n) = Some n"
proof -
  assume n: "n \<le> 255"
  have "length (show_nat n) = 1 \<or> hd (show_nat n) \<noteq> CHR ''0''"
    by (cases "n = 0") (auto simp: hd_show_nat show_nat.simps [of 0])
  moreover have "list_all is_digit (show_nat n)" by (auto simp: list_all_iff dest: show_nat_digits)
  ultimately show ?thesis using n by (simp add: parse_octet_def)
qed

lemma unat_byte_le: "unat (b :: byte) \<le> 255"
proof -
  have "unat b < 2 ^ LENGTH(8)" by (rule unsigned_less)
  then show ?thesis by simp
qed

lemma parse_ipv4_string: "parse_ipv4 (ipv4_string [a, b, c, d]) = Some [a, b, c, d]"
  by (simp add: parse_ipv4_def ipv4_string_def unat_byte_le)

lemma find_skip: "\<forall>c \<in> set s. \<not> P c \<Longrightarrow> List.find P (s @ t) = List.find P t"
  by (induction s) auto

lemma parse_addr_ipv4_string: "parse_addr (ipv4_string [a, b, c, d]) = Some [a, b, c, d]"
proof -
  have "List.find (\<lambda>c. c = CHR ''.'' \<or> c = CHR '':'' \<or> c = CHR ''%'') (ipv4_string [a, b, c, d])
      = Some CHR ''.''"
    unfolding ipv4_string_def by (simp add: find_skip) (subst find_skip, auto)
  then show ?thesis by (simp add: parse_addr_def parse_ipv4_string)
qed

lemma no_slash_ipv4_string: "CHR ''/'' \<notin> set (ipv4_string b)"
  by (auto simp: ipv4_string_def split: list.splits)

lemma ip_mask_v4:
  "length p = 4 \<Longrightarrow> length m = 4 \<Longrightarrow> ip_mask (v4InV6Prefix @ p) m = map2 (AND) p m"
  by (simp add: ip_mask_def v4InV6Prefix_def)

lemma parse_cidr_ipv4:
  assumes "n \<le> 32"
  shows "parse_cidr (ipv4_string [a, b, c, d] @ ''/'' @ show_nat n) =
    Some (v4InV6Prefix @ [a, b, c, d],
          \<lparr>ipn_ip = map2 (AND) [a, b, c, d] (cidr_mask n 32), ipn_mask = cidr_mask n 32\<rparr>)"
  using assms
  by (simp add: parse_cidr_def no_slash_ipv4_string parse_addr_ipv4_string dtoi_big_def as16_def ip_mask_v4 cidr_mask_32)


section \<open>What a successful parse returns\<close>

lemma length_parse_ipv4: "parse_ipv4 s = Some b \<Longrightarrow> length b = 4"
  by (auto simp: parse_ipv4_def split: list.splits option.splits)

lemma length_hex_group [simp]: "length (hex_group ds) = 2"
  by (simp add: hex_group_def Let_def)

definition p6_inv :: "byte list \<Rightarrow> nat option \<Rightarrow> bool" where
  "p6_inv acc ell \<longleftrightarrow> length acc \<le> 16 \<and> (\<forall>k. ell = Some k \<longrightarrow> k \<le> length acc)"

lemma p6_inv_step:
  assumes "p6_inv acc ell" "even (length acc)" "length acc < 16"
  shows "p6_inv (acc @ hex_group ds) ell" "p6_inv (acc @ hex_group ds) (Some (length (acc @ hex_group ds)))"
    "even (length (acc @ hex_group ds))"
  using assms unfolding p6_inv_def by (auto elim!: evenE)

lemma parse6_loop_inv:
  "parse6_loop acc ell s = Some (acc', ell', rest) \<Longrightarrow> even (length acc) \<Longrightarrow> p6_inv acc ell
    \<Longrightarrow> p6_inv acc' ell'"
proof (induction "length s" arbitrary: acc ell s rule: less_induct)
  case less
  let ?acc = "acc @ hex_group (takeWhile is_hex s)"
  note eq = less.prems(1) [unfolded parse6_loop.simps [of acc ell s] Let_def]
  show ?case
  proof (cases "16 \<le> length acc")
    case True
    with eq less.prems show ?thesis by simp
  next
    case False
    then have short: "length acc < 16" by simp
    note st = p6_inv_step [OF less.prems(3,2) short]
    have IH: "p6_inv acc' ell'"
      if "parse6_loop ?acc e t = Some (acc', ell', rest)" "p6_inv ?acc e" "length t < length s" for e t
      using less.hyps [OF that(3) that(1) st(3) that(2)] .
    from False eq consider
        (stop) "acc' = ?acc" "ell' = ell"
      | (dots) "acc' = ?acc" "ell' = Some (length ?acc)"
      | (v4) f where "acc' = acc @ f" "ell' = ell" "length acc + 4 \<le> 16" "parse_ipv4 s = Some f"
      | (rec) e c cs t where "parse6_loop ?acc e t = Some (acc', ell', rest)"
          "e = ell \<or> e = Some (length ?acc)" "dropWhile is_hex s = c # cs" "length t \<le> length cs"
      by (auto split: if_splits list.splits)
    then show ?thesis
    proof cases
      case v4
      then show ?thesis using less.prems(3) by (auto simp: p6_inv_def length_parse_ipv4)
    next
      case rec
      have "length t < length s"
        using dropWhile_Cons_length [OF rec(3) [symmetric]] rec(4) by simp
      then show ?thesis using IH [OF rec(1)] rec(2) st by auto
    qed (use st in auto)
  qed
qed

lemma length_parse_ipv6: "parse_ipv6 s = Some b \<Longrightarrow> length b = 16"
proof -
  assume p: "parse_ipv6 s = Some b"
  show ?thesis
  proof (cases "take 2 s = ''::'' \<and> drop 2 s = []")
    case True
    with p show ?thesis by (auto simp: parse_ipv6_def)
  next
    case False
    obtain ell s' acc e rest where loop: "parse6_loop [] ell s' = Some (acc, e, rest)"
      and ell: "ell = None \<or> ell = Some 0"
      and res: "(if length acc < 16 then
              (case e of
                 None \<Rightarrow> None
               | Some k \<Rightarrow> Some (take k acc @ replicate (16 - length acc) 0 @ drop k acc))
            else if e \<noteq> None then None else Some acc) = Some b"
      using p False by (auto simp: parse_ipv6_def Let_def split: option.splits if_splits)
    have "p6_inv acc e"
      by (rule parse6_loop_inv [OF loop]) (use ell in \<open>auto simp: p6_inv_def\<close>)
    with res show ?thesis
      by (auto simp: p6_inv_def split: if_splits option.splits)
  qed
qed

lemma length_parse_addr: "parse_addr s = Some b \<Longrightarrow> length b = 4 \<or> length b = 16"
  by (auto simp: parse_addr_def length_parse_ipv4 length_parse_ipv6 split: option.splits if_splits)

text \<open>Every successful \<open>ParseCIDR\<close> returned an IPv4 block or a 16-byte one.\<close>

lemma parse_cidr_cases:
  assumes "parse_cidr s = Some (p, n)"
  obtains (v4) a b c d k where "k \<le> 32" "p = v4InV6Prefix @ [a, b, c, d]"
      "n = \<lparr>ipn_ip = map2 (AND) [a, b, c, d] (cidr_mask k 32), ipn_mask = cidr_mask k 32\<rparr>"
  | (v6) k where "k \<le> 128" "length p = 16"
      "n = \<lparr>ipn_ip = ip_mask p (cidr_mask k 128), ipn_mask = cidr_mask k 128\<rparr>"
proof -
  obtain addr m where c: "cut CHR ''/'' s = Some (addr, m)"
    using assms by (cases "cut CHR ''/'' s") (auto simp: parse_cidr_def)
  obtain q where q: "parse_addr addr = Some q"
    using assms c by (cases "parse_addr addr") (auto simp: parse_cidr_def)
  obtain k where d: "dtoi m = Some k"
    using assms c q by (cases "dtoi m") (auto simp: parse_cidr_def)
  have k: "k \<le> 8 * length q" and p: "p = as16 q"
    and n: "n = \<lparr>ipn_ip = ip_mask p (cidr_mask k (8 * length q)), ipn_mask = cidr_mask k (8 * length q)\<rparr>"
    using assms by (auto simp: parse_cidr_def c q d Let_def split: if_splits)
  from length_parse_addr [OF q] show thesis
  proof
    assume l: "length q = 4"
    then obtain a b c d where abcd: "q = [a, b, c, d]"
      by (auto simp: length_Suc_conv numeral_eq_Suc)
    with l k p n show thesis
      by (intro v4 [of k a b c d]) (auto simp: as16_def ip_mask_v4 cidr_mask_32)
  next
    assume "length q = 16"
    with k p n show thesis by (intro v6 [of k]) (auto simp: as16_def)
  qed
qed

lemma to4_v4 [simp]: "length q = 4 \<Longrightarrow> to4 (v4InV6Prefix @ q) = q"
  by (simp add: to4_def v4InV6Prefix_def)

lemma to4_length4 [simp]: "length q = 4 \<Longrightarrow> to4 q = q"
  by (simp add: to4_def)

text \<open>The address word of the masked IPv4 address.\<close>

lemma be_uint32_masked:
  "k \<le> 32 \<Longrightarrow> be_uint32 (map2 (AND) [a, b, c, d] (cidr_mask k 32))
     = Some (be_word a b c d AND NOT (mask (32 - k)))"
  by (simp add: cidr_mask_32 be_word_and be_word_cidr_mask)

end
