(* ===== verification/Kube.thy ===== *)
theory Kube
  imports ApiTypes GoNet
begin

text \<open>
  What the program calls and the repository does not hold: the Kubernetes client the multi-domain
  client uses (\<open>sigs.k8s.io/controller-runtime\<close>, \<open>k8s.io/client-go\<close>, the OCM API types), name
  validation, the unstructured converter and DNS. They are the fields of \<open>kube\<close>, a parameter of
  every definition that uses them; \<open>'w\<close> is the state of the outside world.

  \<open>work_laws\<close> states what the code relies on of them. \<open>view\<close> reads the world: the labels and
  manifests of the ManifestWork stored under a namespace and a name, \<open>None\<close> when there is none. The
  laws speak of one caller: nobody else writes ManifestWorks during a call.
\<close>

section \<open>The client\<close>

datatype kerr = KNotFound | KConflict | KAlreadyExists | KOther string

record manifest_work =
  mw_name :: string
  mw_namespace :: string
  mw_resourceVersion :: string
  mw_labels :: "string \<rightharpoonup> string"
  mw_manifests :: "json list"

datatype l2sm_object = ObjL2Network l2network | ObjNED network_edge_device

record 'w kube =
  k_get_work :: "string \<Rightarrow> string \<Rightarrow> 'w \<Rightarrow> 'w \<times> (kerr + manifest_work)"
  k_create_work :: "manifest_work \<Rightarrow> ('w, kerr) action"
  k_update_work :: "manifest_work \<Rightarrow> ('w, kerr) action"
  k_delete_work :: "string \<Rightarrow> string \<Rightarrow> ('w, kerr) action"
  k_get_cluster_urls :: "string \<Rightarrow> 'w \<Rightarrow> 'w \<times> (kerr + string list)"
  k_retry_on_conflict :: "('w, kerr) action \<Rightarrow> ('w, kerr) action"
  k_lookup_ip :: "string \<Rightarrow> 'w \<Rightarrow> 'w \<times> (string + ip list)"
  k_dns1123 :: "string \<Rightarrow> bool"
  k_to_unstructured :: "l2sm_object \<Rightarrow> string + json"
  k_lib :: l2sm_lib
  k_env :: "string \<rightharpoonup> string"

definition ignore_not_found :: "kerr option \<Rightarrow> kerr option" where
  "ignore_not_found err = (if err = Some KNotFound then None else err)"

lemma ignore_not_found_None [simp]: "ignore_not_found None = None"
  by (simp add: ignore_not_found_def)

section \<open>What the code relies on\<close>

type_synonym work_view = "string \<times> string \<rightharpoonup> (string \<rightharpoonup> string) \<times> json list"

definition work_key :: "manifest_work \<Rightarrow> string \<times> string" where
  "work_key mw = (mw_namespace mw, mw_name mw)"

definition work_content :: "manifest_work \<Rightarrow> (string \<rightharpoonup> string) \<times> json list" where
  "work_content mw = (mw_labels mw, mw_manifests mw)"

text \<open>\<open>v'\<close> agrees with \<open>v\<close> outside the key.\<close>

definition same_except :: "string \<times> string \<Rightarrow> work_view \<Rightarrow> work_view \<Rightarrow> bool" where
  "same_except key v v' \<longleftrightarrow> (\<forall>k. k = key \<or> v' k = v k)"

definition get_law :: "'w kube \<Rightarrow> ('w \<Rightarrow> work_view) \<Rightarrow> bool" where
  "get_law k view \<longleftrightarrow> (\<forall>ns name w w' r. k_get_work k ns name w = (w', r) \<longrightarrow>
     view w' = view w \<and> (case r of
         Inl e \<Rightarrow> (e = KNotFound \<longrightarrow> view w (ns, name) = None)
       | Inr mw \<Rightarrow> work_key mw = (ns, name) \<and> view w (ns, name) = Some (work_content mw)))"

text \<open>A write that reports success is stored; one that reports an error may or may not be (a timeout),
  and touches no other object.\<close>

definition write_law :: "(manifest_work \<Rightarrow> ('w, kerr) action) \<Rightarrow> ('w \<Rightarrow> work_view) \<Rightarrow> bool" where
  "write_law f view \<longleftrightarrow> (\<forall>mw w w' r. f mw w = (w', r) \<longrightarrow>
     same_except (work_key mw) (view w) (view w')
     \<and> (r = None \<longrightarrow> view w' (work_key mw) = Some (work_content mw)))"

definition delete_law :: "'w kube \<Rightarrow> ('w \<Rightarrow> work_view) \<Rightarrow> bool" where
  "delete_law k view \<longleftrightarrow> (\<forall>ns name w w' r. k_delete_work k ns name w = (w', r) \<longrightarrow>
     same_except (ns, name) (view w) (view w')
     \<and> (r = None \<longrightarrow> view w' (ns, name) = None)
     \<and> (r = Some KNotFound \<longrightarrow> view w' (ns, name) = None))"

text \<open>\<open>RetryOnConflict\<close> runs the function one or more times, again only after a conflict, and returns
  the last result.\<close>

fun retry_steps :: "nat \<Rightarrow> ('w, kerr) action \<Rightarrow> ('w, kerr) action" where
  "retry_steps 0 f w = f w"
| "retry_steps (Suc n) f w =
     (case f w of
        (w', Some KConflict) \<Rightarrow> retry_steps n f w'
      | (w', r) \<Rightarrow> (w', r))"

definition retry_law :: "'w kube \<Rightarrow> bool" where
  "retry_law k \<longleftrightarrow> (\<forall>f w. \<exists>n. k_retry_on_conflict k f w = retry_steps n f w)"

definition read_laws :: "'w kube \<Rightarrow> ('w \<Rightarrow> work_view) \<Rightarrow> bool" where
  "read_laws k view \<longleftrightarrow>
     (\<forall>name w. view (fst (k_get_cluster_urls k name w)) = view w)
     \<and> (\<forall>name w. view (fst (k_lookup_ip k name w)) = view w)"

definition work_laws :: "'w kube \<Rightarrow> ('w \<Rightarrow> work_view) \<Rightarrow> bool" where
  "work_laws k view \<longleftrightarrow> get_law k view \<and> write_law (k_create_work k) view
     \<and> write_law (k_update_work k) view \<and> delete_law k view \<and> retry_law k \<and> read_laws k view"

lemma same_except_refl [simp, intro]: "same_except key v v"
  by (simp add: same_except_def)

lemma same_except_trans: "same_except key u v \<Longrightarrow> same_except key v w \<Longrightarrow> same_except key u w"
  unfolding same_except_def by metis

lemma same_exceptD: "same_except key v v' \<Longrightarrow> k \<noteq> key \<Longrightarrow> v' k = v k"
  unfolding same_except_def by metis

lemma get_lawD:
  assumes "work_laws k view" "k_get_work k ns name w = (w', r)"
  shows "view w' = view w"
    and "r = Inl KNotFound \<Longrightarrow> view w (ns, name) = None"
    and "r = Inr mw \<Longrightarrow> work_key mw = (ns, name) \<and> view w (ns, name) = Some (work_content mw)"
  using assms unfolding work_laws_def get_law_def by (fastforce split: sum.splits)+

lemma write_lawD:
  assumes "write_law f view" "f mw w = (w', r)"
  shows "same_except (work_key mw) (view w) (view w')"
    and "r = None \<Longrightarrow> view w' (work_key mw) = Some (work_content mw)"
  using assms unfolding write_law_def by blast+

lemma delete_lawD:
  assumes "work_laws k view" "k_delete_work k ns name w = (w', r)"
  shows "same_except (ns, name) (view w) (view w')"
    and "ignore_not_found r = None \<Longrightarrow> view w' (ns, name) = None"
  using assms unfolding work_laws_def delete_law_def ignore_not_found_def
  by (blast, (metis option.distinct(1)))

lemma read_lawsD:
  assumes "work_laws k view"
  shows "k_get_cluster_urls k c w = (w', r) \<Longrightarrow> view w' = view w"
    and "k_lookup_ip k h w = (w', q) \<Longrightarrow> view w' = view w"
  using assms unfolding work_laws_def read_laws_def by (metis fst_conv)+

lemma retry_steps_rule:
  assumes "retry_steps n f w = (w', r)" "P w"
    and step: "\<And>v v' q. P v \<Longrightarrow> f v = (v', q) \<Longrightarrow> P v' \<and> (q = None \<longrightarrow> Q v')"
  shows "P w' \<and> (r = None \<longrightarrow> Q w')"
  using assms(1,2)
proof (induction n arbitrary: w)
  case 0
  then show ?case using step by simp
next
  case (Suc n)
  obtain v q where f: "f w = (v, q)" by fastforce
  have v: "P v \<and> (q = None \<longrightarrow> Q v)" by (rule step [OF Suc.prems(2) f])
  show ?case
  proof (cases "q = Some KConflict")
    case True
    with f Suc.prems have "retry_steps n f v = (w', r)" by simp
    with v show ?thesis by (intro Suc.IH) auto
  next
    case False
    with f Suc.prems have "w' = v" "r = q" by (auto split: option.splits kerr.splits)
    with v show ?thesis by simp
  qed
qed

text \<open>A run under \<open>RetryOnConflict\<close>: what every attempt keeps is kept, and success establishes what a
  successful attempt does.\<close>

lemma retry_rule:
  assumes "work_laws k view" "k_retry_on_conflict k f w = (w', r)" "P w"
    and "\<And>v v' q. P v \<Longrightarrow> f v = (v', q) \<Longrightarrow> P v' \<and> (q = None \<longrightarrow> Q v')"
  shows "P w' \<and> (r = None \<longrightarrow> Q w')"
proof -
  obtain n where "k_retry_on_conflict k f w = retry_steps n f w"
    using assms(1) unfolding work_laws_def retry_law_def by meson
  with assms show ?thesis by (intro retry_steps_rule [of n f w w' r P Q]) auto
qed

section \<open>An API server in memory\<close>

text \<open>An instance of the parameter that meets the laws: a world is the stored works and the URLs of the
  registered clusters. The witnesses use it.\<close>

record store =
  s_works :: work_view
  s_urls :: "string \<rightharpoonup> string list"

definition mem_get_work :: "string \<Rightarrow> string \<Rightarrow> 'a store_scheme \<Rightarrow> 'a store_scheme \<times> (kerr + manifest_work)" where
  "mem_get_work ns name s =
     (s, case s_works s (ns, name) of
           None \<Rightarrow> Inl KNotFound
         | Some (ls, ms) \<Rightarrow> Inr \<lparr>mw_name = name, mw_namespace = ns, mw_resourceVersion = ''1'',
             mw_labels = ls, mw_manifests = ms\<rparr>)"

definition mem_put :: "manifest_work \<Rightarrow> 'a store_scheme \<Rightarrow> 'a store_scheme" where
  "mem_put mw s = s\<lparr>s_works := (s_works s)(work_key mw \<mapsto> work_content mw)\<rparr>"

definition mem_create_work :: "manifest_work \<Rightarrow> ('a store_scheme, kerr) action" where
  "mem_create_work mw s =
     (if s_works s (work_key mw) \<noteq> None then (s, Some KAlreadyExists) else (mem_put mw s, None))"

definition mem_update_work :: "manifest_work \<Rightarrow> ('a store_scheme, kerr) action" where
  "mem_update_work mw s =
     (if s_works s (work_key mw) = None then (s, Some KNotFound) else (mem_put mw s, None))"

definition mem_delete_work :: "string \<Rightarrow> string \<Rightarrow> ('a store_scheme, kerr) action" where
  "mem_delete_work ns name s =
     (if s_works s (ns, name) = None then (s, Some KNotFound)
      else (s\<lparr>s_works := (s_works s)((ns, name) := None)\<rparr>, None))"

definition mem_kube :: "'a store_scheme kube" where
  "mem_kube =
     \<lparr>k_get_work = mem_get_work, k_create_work = mem_create_work, k_update_work = mem_update_work,
      k_delete_work = mem_delete_work,
      k_get_cluster_urls = (\<lambda>name s. (s, case s_urls s name of None \<Rightarrow> Inl KNotFound | Some u \<Rightarrow> Inr u)),
      k_retry_on_conflict = retry_steps 4,
      k_lookup_ip = (\<lambda>h s. (s, Inl ''no such host'')),
      k_dns1123 = (\<lambda>s. list_all (\<lambda>c. is_lower c \<or> is_digit c) s \<and> s \<noteq> []),
      k_to_unstructured = (\<lambda>ob. Inr (case ob of ObjL2Network n \<Rightarrow> JStr (m_name (l2_meta n))
                                              | ObjNED n \<Rightarrow> JStr (m_name (ned_meta n)))),
      k_lib = \<lparr>lib_group_version = GroupVersion, lib_gv_string = gv_group, lib_gv_identifier = gv_group\<rparr>,
      k_env = Map.empty\<rparr>"

lemma mem_kube_simps:
  "k_get_work mem_kube = mem_get_work" "k_create_work mem_kube = mem_create_work"
  "k_update_work mem_kube = mem_update_work" "k_delete_work mem_kube = mem_delete_work"
  "k_retry_on_conflict mem_kube = retry_steps 4" "k_env mem_kube = Map.empty"
  by (simp_all add: mem_kube_def)

lemma mem_kube_laws: "work_laws mem_kube s_works"
proof -
  have "get_law mem_kube s_works"
    by (auto simp: get_law_def mem_kube_def mem_get_work_def work_key_def work_content_def
        split: option.splits)
  moreover have "write_law (k_create_work mem_kube) s_works" "write_law (k_update_work mem_kube) s_works"
    by (auto simp: write_law_def mem_kube_def mem_create_work_def mem_update_work_def mem_put_def
        same_except_def split: if_splits)
  moreover have "delete_law mem_kube s_works"
    by (auto simp: delete_law_def mem_kube_def mem_delete_work_def same_except_def split: if_splits)
  moreover have "retry_law mem_kube" by (auto simp: retry_law_def mem_kube_def)
  moreover have "read_laws mem_kube s_works" by (simp add: read_laws_def mem_kube_def)
  ultimately show ?thesis by (simp add: work_laws_def)
qed

end
