(* ===== verification/GoUrl.thy ===== *)
theory GoUrl
  imports GoNet
begin

text \<open>
  The parts of \<open>net/url\<close> and \<open>net\<close> that turn an endpoint into a host: \<open>url.Parse\<close> as far as it decides
  between an error and the field \<open>Host\<close>, and \<open>net.SplitHostPort\<close>. An error is \<open>None\<close>.
\<close>

section \<open>url.Parse\<close>

definition is_alpha :: "char \<Rightarrow> bool" where
  "is_alpha c \<longleftrightarrow> is_lower c \<or> is_upper c"

definition is_alnum :: "char \<Rightarrow> bool" where
  "is_alnum c \<longleftrightarrow> is_alpha c \<or> is_digit c"

datatype encoding = encodePath | encodeHost | encodeZone | encodeUserPassword | encodeFragment

text \<open>\<open>shouldEscape\<close> in the host and zone modes, the only ones whose answer a parse depends on.\<close>

definition should_escape_host :: "char \<Rightarrow> bool" where
  "should_escape_host c \<longleftrightarrow>
     \<not> (is_alnum c \<or> c \<in> set ''!$&()*+,;=:[]<>-_.~'' \<or> code c = 39 \<or> code c = 34)"

definition percent25 :: "char \<Rightarrow> char \<Rightarrow> bool" where
  "percent25 a b \<longleftrightarrow> a = CHR ''2'' \<and> b = CHR ''5''"

fun unescape :: "encoding \<Rightarrow> string \<Rightarrow> string option" where
  "unescape mode [] = Some []"
| "unescape mode (c # cs) =
     (if c = CHR ''%'' then
        (case cs of
           a # b # rest \<Rightarrow>
             (if \<not> is_hex a \<or> \<not> is_hex b then None
              else if mode = encodeHost \<and> hex_val a < 8 \<and> \<not> percent25 a b then None
              else if mode = encodeZone \<and> \<not> percent25 a b \<and> hex_val a * 16 + hex_val b \<noteq> 32
                      \<and> should_escape_host (char_of (hex_val a * 16 + hex_val b)) then None
              else map_option (Cons (char_of (hex_val a * 16 + hex_val b))) (unescape mode rest))
         | _ \<Rightarrow> None)
      else if (mode = encodeHost \<or> mode = encodeZone) \<and> code c < 128 \<and> should_escape_host c then None
      else map_option (Cons c) (unescape mode cs))"

text \<open>\<open>getScheme\<close>: the scheme (empty when there is none) and the rest, after the scanned prefix \<open>acc\<close>.\<close>

fun get_scheme :: "string \<Rightarrow> string \<Rightarrow> (string \<times> string) option" where
  "get_scheme acc [] = Some ([], acc)"
| "get_scheme acc (c # cs) =
     (if is_alpha c then get_scheme (acc @ [c]) cs
      else if is_digit c \<or> c \<in> set ''+-.''
      then (if acc = [] then Some ([], c # cs) else get_scheme (acc @ [c]) cs)
      else if c = CHR '':'' then (if acc = [] then None else Some (acc, cs))
      else Some ([], acc @ c # cs))"

definition valid_optional_port :: "string \<Rightarrow> bool" where
  "valid_optional_port port \<longleftrightarrow>
     (case port of [] \<Rightarrow> True | c # cs \<Rightarrow> c = CHR '':'' \<and> list_all is_digit cs)"

definition valid_userinfo :: "string \<Rightarrow> bool" where
  "valid_userinfo s \<longleftrightarrow>
     list_all (\<lambda>c. is_alnum c \<or> c \<in> set ''-._:~!$&()*+,;=%@'' \<or> code c = 39) s"

text \<open>\<open>strings.LastIndex\<close> of a byte, as the parts before it and from it on.\<close>

definition cut_last :: "char \<Rightarrow> string \<Rightarrow> (string \<times> string) option" where
  "cut_last x s = (case cut x (rev s) of None \<Rightarrow> None | Some (a, b) \<Rightarrow> Some (rev b, rev a))"

text \<open>\<open>strings.Index(s, "%25")\<close>, as the parts before it and from it on.\<close>

fun cut_percent25 :: "string \<Rightarrow> (string \<times> string) option" where
  "cut_percent25 [] = None"
| "cut_percent25 (c # cs) =
     (if take 3 (c # cs) = ''%25'' then Some ([], c # cs)
      else map_option (map_prod (Cons c) id) (cut_percent25 cs))"

definition append_opt :: "string option \<Rightarrow> string option \<Rightarrow> string option" where
  "append_opt a b = (case a of None \<Rightarrow> None | Some x \<Rightarrow> map_option ((@) x) b)"

definition parse_host :: "string \<Rightarrow> string option" where
  "parse_host host =
     (if host \<noteq> [] \<and> hd host = CHR ''[''
      then (case cut_last CHR '']'' host of
              None \<Rightarrow> None
            | Some (before, colonPort) \<Rightarrow>
                if \<not> valid_optional_port colonPort then None
                else (case cut_percent25 before of
                        None \<Rightarrow> unescape encodeHost host
                      | Some (h1, h2) \<Rightarrow>
                          append_opt (unescape encodeHost h1)
                            (append_opt (unescape encodeZone h2)
                              (unescape encodeHost (CHR '']'' # colonPort)))))
      else (case cut_last CHR '':'' host of
              None \<Rightarrow> unescape encodeHost host
            | Some (before, port) \<Rightarrow>
                if \<not> valid_optional_port (CHR '':'' # port) then None else unescape encodeHost host))"

definition parse_authority :: "string \<Rightarrow> string option" where
  "parse_authority authority =
     (case cut_last CHR ''@'' authority of
        None \<Rightarrow> parse_host authority
      | Some (userinfo, h) \<Rightarrow>
          (case parse_host h of
             None \<Rightarrow> None
           | Some host \<Rightarrow>
               if \<not> valid_userinfo userinfo then None
               else (case cut CHR '':'' userinfo of
                       None \<Rightarrow> (case unescape encodeUserPassword userinfo of None \<Rightarrow> None | Some u \<Rightarrow> Some host)
                     | Some (usr, pw) \<Rightarrow>
                         if unescape encodeUserPassword usr = None \<or> unescape encodeUserPassword pw = None
                         then None else Some host)))"

definition has_prefix :: "string \<Rightarrow> string \<Rightarrow> bool" where
  "has_prefix p s \<longleftrightarrow> take (length p) s = p"

text \<open>The part before the query. (A single \<open>?\<close> at the end only sets \<open>ForceQuery\<close>: cutting at it leaves
  the same rest.)\<close>

definition cut_query :: "string \<Rightarrow> string" where
  "cut_query rest = (case cut CHR ''?'' rest of None \<Rightarrow> rest | Some (r, q) \<Rightarrow> r)"

definition url_parse_nofrag :: "string \<Rightarrow> string option" where
  "url_parse_nofrag u =
     (if list_ex (\<lambda>c. code c < 32 \<or> code c = 127) u then None
      else if u = ''*'' then Some []
      else (case get_scheme [] u of
              None \<Rightarrow> None
            | Some (scheme, rest0) \<Rightarrow>
                let rest = cut_query rest0 in
                if \<not> has_prefix ''/'' rest \<and> scheme \<noteq> [] then Some []
                else if \<not> has_prefix ''/'' rest
                     \<and> CHR '':'' \<in> set (takeWhile (\<lambda>c. c \<noteq> CHR ''/'') rest) then None
                else if (scheme \<noteq> [] \<or> \<not> has_prefix ''///'' rest) \<and> has_prefix ''//'' rest
                then (case parse_authority (takeWhile (\<lambda>c. c \<noteq> CHR ''/'') (drop 2 rest)) of
                        None \<Rightarrow> None
                      | Some host \<Rightarrow>
                          if unescape encodePath (dropWhile (\<lambda>c. c \<noteq> CHR ''/'') (drop 2 rest)) = None
                          then None else Some host)
                else if unescape encodePath rest = None then None else Some []))"

text \<open>\<open>url.Parse\<close>: the field \<open>Host\<close> of the result, \<open>None\<close> for an error.\<close>

definition url_parse_host :: "string \<Rightarrow> string option" where
  "url_parse_host raw =
     (case cut CHR ''#'' raw of
        None \<Rightarrow> url_parse_nofrag raw
      | Some (u, frag) \<Rightarrow>
          (case url_parse_nofrag u of
             None \<Rightarrow> None
           | Some h \<Rightarrow> if unescape encodeFragment frag = None then None else Some h))"

section \<open>net.SplitHostPort\<close>

definition split_host_port :: "string \<Rightarrow> (string \<times> string) option" where
  "split_host_port hostport =
     (case cut_last CHR '':'' hostport of
        None \<Rightarrow> None
      | Some (before, port) \<Rightarrow>
          if hostport \<noteq> [] \<and> hd hostport = CHR ''[''
          then (case cut CHR '']'' hostport of
                  None \<Rightarrow> None
                | Some (h, rest) \<Rightarrow>
                    if Suc (length h) \<noteq> length before then None
                    else if CHR ''['' \<in> set (tl hostport) then None
                    else if CHR '']'' \<in> set rest then None
                    else Some (tl h, port))
          else if CHR '':'' \<in> set before then None
          else if CHR ''['' \<in> set hostport then None
          else if CHR '']'' \<in> set hostport then None
          else Some (before, port))"

section \<open>Hosts of plain endpoints\<close>

text \<open>A host name or IPv4 address: letters, digits, dashes and dots.\<close>

definition is_hostname :: "string \<Rightarrow> bool" where
  "is_hostname h \<longleftrightarrow> h \<noteq> [] \<and> list_all (\<lambda>c. is_alnum c \<or> c = CHR ''-'' \<or> c = CHR ''.'') h"

lemma cut_last_append [simp]: "x \<notin> set t \<Longrightarrow> cut_last x (s @ x # t) = Some (s, t)"
  by (simp add: cut_last_def)

lemma cut_last_None [simp]: "x \<notin> set s \<Longrightarrow> cut_last x s = None"
  by (simp add: cut_last_def)

lemma unescape_id:
  "list_all (\<lambda>c. c \<noteq> CHR ''%'' \<and> \<not> should_escape_host c) s \<Longrightarrow> unescape mode s = Some s"
  by (induction s) auto

lemma digit_chars:
  assumes "is_digit c"
  shows "c \<noteq> CHR ''%'' \<and> \<not> should_escape_host c \<and> c \<notin> set ''/?#@:[]*'' \<and> 32 < code c \<and> code c \<noteq> 127"
  using assms
  by (auto simp: should_escape_host_def is_alnum_def is_alpha_def is_lower_def is_upper_def
      is_digit_def) (auto simp: code_def)

lemma alpha_chars: "is_alpha c \<Longrightarrow> c \<noteq> CHR ''%'' \<and> c \<notin> set ''/?#@:[]*'' \<and> 32 < code c \<and> code c \<noteq> 127"
  by (auto simp: is_alpha_def is_lower_def is_upper_def) (auto simp: code_def)

lemma hostname_chars:
  assumes "is_hostname h" "c \<in> set h"
  shows "c \<noteq> CHR ''%'' \<and> \<not> should_escape_host c \<and> c \<notin> set ''/?#@:[]*'' \<and> 32 < code c \<and> code c \<noteq> 127"
proof -
  consider "is_alpha c" | "is_digit c" | "c = CHR ''-'' \<or> c = CHR ''.''"
    using assms by (auto simp: is_hostname_def list_all_iff is_alnum_def)
  then show ?thesis
  proof cases
    case 1
    then show ?thesis using alpha_chars [of c] by (simp add: should_escape_host_def is_alnum_def)
  next
    case 2
    then show ?thesis by (rule digit_chars)
  next
    case 3
    then show ?thesis by (auto simp: should_escape_host_def) (auto simp: code_def)
  qed
qed

text \<open>The endpoints with or without a port.\<close>

definition with_port :: "string \<Rightarrow> nat option \<Rightarrow> string" where
  "with_port h port = h @ (case port of None \<Rightarrow> [] | Some n \<Rightarrow> '':'' @ show_nat n)"

lemma with_port_chars:
  assumes "is_hostname h" "c \<in> set (with_port h port)"
  shows "c \<noteq> CHR ''%'' \<and> \<not> should_escape_host c \<and> c \<notin> set ''/?#@[]*'' \<and> 32 < code c \<and> code c \<noteq> 127"
proof -
  consider "c \<in> set h" | "c = CHR '':''" | n where "c \<in> set (show_nat n)"
    using assms(2) by (auto simp: with_port_def split: option.splits)
  then show ?thesis
  proof cases
    case 1
    then show ?thesis using hostname_chars [OF assms(1)] by auto
  next
    case 2
    then show ?thesis by (simp add: should_escape_host_def) (simp add: code_def)
  next
    case 3
    then show ?thesis using digit_chars [of c] show_nat_digits [of c] by auto
  qed
qed

lemma with_port_absent:
  assumes "is_hostname h" "x \<in> set ''/?#@[]*''"
  shows "x \<notin> set (with_port h port)"
  using with_port_chars [OF assms(1)] assms(2) by blast

lemma hostname_absent: "is_hostname h \<Longrightarrow> x \<in> set ''/?#@:[]*'' \<Longrightarrow> x \<notin> set h"
  using hostname_chars by blast

lemma show_nat_absent: "x \<in> set ''/?#@:[]*'' \<Longrightarrow> x \<notin> set (show_nat n)"
  using digit_chars show_nat_digits by blast

lemma split_host_port_with_port:
  assumes "is_hostname h"
  shows "split_host_port (with_port h port) = map_option (\<lambda>n. (h, show_nat n)) port"
proof (cases port)
  case None
  then show ?thesis using assms hostname_absent [OF assms, of "CHR '':''"]
    by (simp add: split_host_port_def with_port_def)
next
  case (Some n)
  have ne: "h \<noteq> []" using assms by (simp add: is_hostname_def)
  have "hd h \<in> set h" using ne by simp
  then have "hd h \<noteq> CHR ''[''" using hostname_absent [OF assms, of "CHR ''[''"] by auto
  with Some ne show ?thesis
    using hostname_absent [OF assms] show_nat_absent
    by (simp add: split_host_port_def with_port_def)
qed

lemma parse_host_with_port:
  assumes "is_hostname h"
  shows "parse_host (with_port h port) = Some (with_port h port)"
proof -
  have u: "unescape encodeHost (with_port h port) = Some (with_port h port)"
    by (rule unescape_id) (use with_port_chars [OF assms] in \<open>auto simp: list_all_iff\<close>)
  have ne: "with_port h port \<noteq> []" using assms by (simp add: is_hostname_def with_port_def)
  then have "hd (with_port h port) \<in> set (with_port h port)" by simp
  then have hd: "hd (with_port h port) \<noteq> CHR ''[''"
    using with_port_absent [OF assms, of "CHR ''[''" port] by auto
  show ?thesis
  proof (cases port)
    case None
    with hd u show ?thesis using hostname_absent [OF assms, of "CHR '':''"]
      by (simp add: parse_host_def with_port_def)
  next
    case (Some n)
    have "cut_last CHR '':'' (with_port h port) = Some (h, show_nat n)"
      using Some show_nat_absent by (simp add: with_port_def)
    moreover have "valid_optional_port (CHR '':'' # show_nat n)"
      using show_nat_digits by (auto simp: valid_optional_port_def list_all_iff)
    ultimately show ?thesis using hd u by (simp add: parse_host_def)
  qed
qed

lemma get_scheme_alpha:
  "list_all is_alpha sch \<Longrightarrow> acc @ sch \<noteq> [] \<Longrightarrow> get_scheme acc (sch @ CHR '':'' # r) = Some (acc @ sch, r)"
proof (induction sch arbitrary: acc)
  case Nil
  then show ?case by (simp add: is_alpha_def is_lower_def is_upper_def is_digit_def code_def)
next
  case (Cons c sch)
  then show ?case by simp
qed

lemma url_parse_host_url:
  assumes "is_hostname h" "sch \<noteq> []" "list_all is_alpha sch"
  shows "url_parse_host (sch @ ''://'' @ with_port h port) = Some (with_port h port)"
proof -
  let ?a = "with_port h port" and ?u = "sch @ ''://'' @ with_port h port"
  have abs: "x \<notin> set ?a" if "x \<in> set ''/?#@[]*''" for x
    by (rule with_port_absent [OF assms(1) that])
  have sch: "x \<notin> set sch" if "x \<in> set ''/?#@:[]*''" for x
    using assms(3) alpha_chars that by (auto simp: list_all_iff)
  have "\<not> list_ex (\<lambda>c. code c < 32 \<or> code c = 127) ?u"
  proof -
    have "\<not> (code c < 32 \<or> code c = 127)" if "c \<in> set ?u" for c
    proof -
      consider "c \<in> set sch" | "c = CHR '':'' \<or> c = CHR ''/''" | "c \<in> set ?a" using \<open>c \<in> set ?u\<close> by auto
      then show ?thesis
      proof cases
        case 1
        then show ?thesis using assms(3) alpha_chars [of c] by (auto simp: list_all_iff)
      next
        case 2
        then show ?thesis by (auto simp: code_def)
      next
        case 3
        then show ?thesis using with_port_chars [OF assms(1) 3] by auto
      qed
    qed
    then show ?thesis by (auto simp: list_ex_iff)
  qed
  moreover have "get_scheme [] ?u = Some (sch, ''//'' @ ?a)"
    using get_scheme_alpha [of sch "[]" "''//'' @ ?a"] assms(2,3) by simp
  moreover have "?u \<noteq> ''*''" using assms(2) by (cases sch) auto
  moreover have "cut_query (''//'' @ ?a) = ''//'' @ ?a" using abs by (simp add: cut_query_def)
  moreover have tw: "takeWhile (\<lambda>c. c \<noteq> CHR ''/'') ?a = ?a" "dropWhile (\<lambda>c. c \<noteq> CHR ''/'') ?a = []"
    using abs by (auto simp: takeWhile_eq_all_conv dropWhile_eq_Nil_conv)
  moreover have "parse_authority ?a = Some ?a"
    using abs parse_host_with_port [OF assms(1)] by (simp add: parse_authority_def)
  ultimately have "url_parse_nofrag ?u = Some ?a"
    using assms(2) by (simp add: url_parse_nofrag_def has_prefix_def Let_def tw)
  moreover have "CHR ''#'' \<notin> set ?u" using abs sch by simp
  ultimately show ?thesis by (simp add: url_parse_host_def)
qed

text \<open>Without a slash a parse finds no host.\<close>

lemma get_scheme_set: "get_scheme acc s = Some (sch, r) \<Longrightarrow> set r \<subseteq> set acc \<union> set s"
proof (induction acc s rule: get_scheme.induct)
  case (1 acc)
  then show ?case by simp
next
  case (2 acc c cs)
  then show ?case by (auto split: if_splits)
qed

lemma url_parse_host_no_slash:
  assumes "CHR ''/'' \<notin> set e" "CHR ''#'' \<notin> set e"
  shows "url_parse_host e = None \<or> url_parse_host e = Some []"
proof (cases "get_scheme [] e")
  case None
  with assms show ?thesis by (simp add: url_parse_host_def url_parse_nofrag_def)
next
  case (Some p)
  obtain sch r where p: "p = (sch, r)" by (cases p)
  have "CHR ''/'' \<notin> set r" using get_scheme_set [of "[]" e sch r] Some p assms by auto
  then have "CHR ''/'' \<notin> set (cut_query r)"
    by (auto simp: cut_query_def split: option.splits dest!: cut_SomeD)
  then have "\<not> has_prefix ''/'' (cut_query r)" "\<not> has_prefix ''//'' (cut_query r)"
    by (cases "cut_query r"; auto simp: has_prefix_def)+
  with Some p assms show ?thesis by (simp add: url_parse_host_def url_parse_nofrag_def Let_def)
qed

end
