(* ===== verification/Endpoint.thy ===== *)
theory Endpoint
  imports Kube GoUrl
begin

text \<open>
  How \<open>pkg/mdclient/ocmclient.go\<close> finds the address of a managed cluster: \<open>resolveEndpointToIP\<close> reads
  a host out of an endpoint and resolves it, and \<open>getManagedClusterIPAddress\<close> tries the endpoints of
  the cluster in order.
\<close>

datatype endpoint_error =
    EndpointEmpty
  | EndpointLookupFailed string string
  | EndpointNoAddresses string

text \<open>The host of an endpoint: of a URL its host, without the port.\<close>

definition endpoint_host :: "string \<Rightarrow> string" where
  "endpoint_host host0 =
     (let host = (case url_parse_host host0 of
                    Some h \<Rightarrow> if h \<noteq> [] then h else host0
                  | None \<Rightarrow> host0)
      in case split_host_port host of Some (splitHost, p) \<Rightarrow> splitHost | None \<Rightarrow> host)"

definition first_ipv4 :: "ip list \<Rightarrow> ip option" where
  "first_ipv4 addresses = map_option to4 (List.find (\<lambda>a. to4 a \<noteq> []) addresses)"

definition resolveEndpointToIP :: "'w kube \<Rightarrow> string \<Rightarrow> 'w \<Rightarrow> 'w \<times> (endpoint_error + string)" where
  "resolveEndpointToIP k endpoint w =
     (let host0 = trim_space endpoint in
      if host0 = [] then (w, Inl EndpointEmpty)
      else let host = endpoint_host host0 in
        if parse_ip host \<noteq> [] then (w, Inr (ip_string (parse_ip host)))
        else (case k_lookup_ip k host w of
                (w', Inl err) \<Rightarrow> (w', Inl (EndpointLookupFailed endpoint err))
              | (w', Inr addresses) \<Rightarrow>
                  (case first_ipv4 addresses of
                     Some ipv4 \<Rightarrow> (w', Inr (ip_string ipv4))
                   | None \<Rightarrow>
                       (case addresses of
                          a # rest \<Rightarrow> (w', Inr (ip_string a))
                        | [] \<Rightarrow> (w', Inl (EndpointNoAddresses endpoint))))))"

datatype cluster_ip_error = ClusterGetFailed kerr | NoResolvableEndpoint string

fun first_resolvable :: "'w kube \<Rightarrow> string list \<Rightarrow> 'w \<Rightarrow> 'w \<times> string option" where
  "first_resolvable k [] w = (w, None)"
| "first_resolvable k (url # urls) w =
     (if url = [] then first_resolvable k urls w
      else (case resolveEndpointToIP k url w of
              (w', Inr resolvedIP) \<Rightarrow> (w', Some resolvedIP)
            | (w', Inl err) \<Rightarrow> first_resolvable k urls w'))"

definition getManagedClusterIPAddress ::
  "'w kube \<Rightarrow> string \<Rightarrow> 'w \<Rightarrow> 'w \<times> (cluster_ip_error + string)" where
  "getManagedClusterIPAddress k clusterName w =
     (case k_get_cluster_urls k clusterName w of
        (w', Inl e) \<Rightarrow> (w', Inl (ClusterGetFailed e))
      | (w', Inr urls) \<Rightarrow>
          (case first_resolvable k urls w' of
             (w'', Some resolvedIP) \<Rightarrow> (w'', Inr resolvedIP)
           | (w'', None) \<Rightarrow> (w'', Inl (NoResolvableEndpoint clusterName))))"

section \<open>Resolving writes nothing\<close>

lemma resolve_view:
  "work_laws k view \<Longrightarrow> resolveEndpointToIP k e w = (w', r) \<Longrightarrow> view w' = view w"
  by (auto simp: resolveEndpointToIP_def Let_def dest: read_lawsD(2)
      split: if_splits prod.splits sum.splits option.splits list.splits)

lemma first_resolvable_view:
  "work_laws k view \<Longrightarrow> first_resolvable k urls w = (w', r) \<Longrightarrow> view w' = view w"
proof (induction urls arbitrary: w)
  case Nil
  then show ?case by simp
next
  case (Cons u us)
  obtain w1 q where u: "resolveEndpointToIP k u w = (w1, q)" by fastforce
  have "view w1 = view w" by (rule resolve_view [OF Cons.prems(1) u])
  with Cons u show ?case by (auto split: if_splits sum.splits)
qed

lemma cluster_ip_view:
  assumes "work_laws k view" "getManagedClusterIPAddress k c w = (w', r)"
  shows "view w' = view w"
proof -
  obtain w1 q where g: "k_get_cluster_urls k c w = (w1, q)" by fastforce
  then have w1: "view w1 = view w" using assms(1) by (rule read_lawsD(1) [rotated])
  show ?thesis
  proof (cases q)
    case (Inl e)
    with assms g w1 show ?thesis by (simp add: getManagedClusterIPAddress_def)
  next
    case (Inr urls)
    obtain w2 s where f: "first_resolvable k urls w1 = (w2, s)" by fastforce
    then have "view w2 = view w1" by (rule first_resolvable_view [OF assms(1)])
    with assms g f Inr w1 show ?thesis
      by (cases s) (auto simp: getManagedClusterIPAddress_def)
  qed
qed

section \<open>The host of plain endpoints\<close>

text \<open>An endpoint in the usual forms: a host or address, an optional port, an optional scheme.\<close>

definition plain_endpoint :: "string option \<Rightarrow> string \<Rightarrow> nat option \<Rightarrow> string" where
  "plain_endpoint sch h port =
     (case sch of None \<Rightarrow> with_port h port | Some s \<Rightarrow> s @ ''://'' @ with_port h port)"

definition plain_scheme :: "string option \<Rightarrow> bool" where
  "plain_scheme sch \<longleftrightarrow> (case sch of None \<Rightarrow> True | Some s \<Rightarrow> s \<noteq> [] \<and> list_all is_alpha s)"

lemma endpoint_host_plain:
  assumes "is_hostname h" "plain_scheme sch"
  shows "endpoint_host (plain_endpoint sch h port) = h"
proof -
  have s: "(case split_host_port (with_port h port) of Some (a, p) \<Rightarrow> a | None \<Rightarrow> with_port h port) = h"
    unfolding split_host_port_with_port [OF assms(1)]
    by (cases port) (simp_all add: with_port_def)
  have ne: "with_port h port \<noteq> []" using assms(1) by (simp add: with_port_def is_hostname_def)
  show ?thesis
  proof (cases sch)
    case None
    have "url_parse_host (with_port h port) = None \<or> url_parse_host (with_port h port) = Some []"
      by (rule url_parse_host_no_slash) (rule with_port_absent [OF assms(1)], simp)+
    with None s show ?thesis by (auto simp: endpoint_host_def plain_endpoint_def)
  next
    case (Some q)
    with assms have "url_parse_host (q @ ''://'' @ with_port h port) = Some (with_port h port)"
      by (intro url_parse_host_url) (auto simp: plain_scheme_def)
    with Some s ne show ?thesis by (simp add: endpoint_host_def plain_endpoint_def)
  qed
qed

lemma unescaped_ascii: "\<not> should_escape_host c \<Longrightarrow> code c < 128"
  by (auto simp: should_escape_host_def is_alnum_def is_alpha_def is_lower_def is_upper_def
      is_digit_def) (auto simp: code_def)

lemma trim_plain:
  assumes "is_hostname h" "plain_scheme sch"
  shows "trim_space (plain_endpoint sch h port) = plain_endpoint sch h port"
    and "plain_endpoint sch h port \<noteq> []"
proof -
  let ?e = "plain_endpoint sch h port" and ?a = "with_port h port"
  have ne: "?a \<noteq> []" using assms(1) by (simp add: with_port_def is_hostname_def)
  have a: "32 < code c \<and> code c < 128" if "c \<in> set ?a" for c
    using with_port_chars [OF assms(1) that] unescaped_ascii by simp
  have h: "32 < code (hd ?e) \<and> code (hd ?e) < 128"
  proof (cases sch)
    case None
    with a ne show ?thesis by (simp add: plain_endpoint_def)
  next
    case (Some q)
    with assms(2) have "is_alpha (hd q)" "q \<noteq> []"
      by (auto simp: plain_scheme_def list_all_iff)
    with Some show ?thesis using alpha_chars [of "hd q"]
      by (auto simp: plain_endpoint_def is_alpha_def is_lower_def is_upper_def)
  qed
  have "last ?e = last ?a" using ne by (auto simp: plain_endpoint_def split: option.splits)
  then have "32 < code (last ?e) \<and> code (last ?e) < 128" using a ne by simp
  moreover show "?e \<noteq> []" using ne by (auto simp: plain_endpoint_def split: option.splits)
  ultimately show "trim_space ?e = ?e" using h by (intro trim_space_id) auto
qed

text \<open>An endpoint \<open>host\<close>, \<open>host:port\<close>, \<open>scheme://host\<close> or \<open>scheme://host:port\<close> resolves to the
  address of its host. A host that is an IP address is returned in its canonical form without a
  lookup; another is looked up under exactly its own name, and the answer is the first IPv4 address,
  or the first address when there is none; a failed or empty lookup is reported with the endpoint.\<close>

theorem resolveEndpointToIP_plain:
  assumes "is_hostname h" "plain_scheme sch"
  shows "resolveEndpointToIP k (plain_endpoint sch h port) w =
    (if parse_ip h \<noteq> [] then (w, Inr (ip_string (parse_ip h)))
     else (case k_lookup_ip k h w of
             (w', Inl err) \<Rightarrow> (w', Inl (EndpointLookupFailed (plain_endpoint sch h port) err))
           | (w', Inr addresses) \<Rightarrow>
               (w', if addresses = [] then Inl (EndpointNoAddresses (plain_endpoint sch h port))
                    else Inr (ip_string (hd (map to4 (filter (\<lambda>a. to4 a \<noteq> []) addresses) @ addresses))))))"
proof -
  let ?v4 = "\<lambda>as. map to4 (filter (\<lambda>a. to4 a \<noteq> []) as)"
  have f: "first_ipv4 as = (if ?v4 as = [] then None else Some (hd (?v4 as)))" for as
    by (induction as) (auto simp: first_ipv4_def)
  note ep = trim_plain [OF assms, of port] endpoint_host_plain [OF assms, of port]
  obtain w' r where look: "k_lookup_ip k h w = (w', r)" by fastforce
  show ?thesis
  proof (cases "parse_ip h = []")
    case False
    then show ?thesis by (simp add: resolveEndpointToIP_def ep)
  next
    case True
    show ?thesis
    proof (cases r)
      case (Inl err)
      with True show ?thesis by (simp add: resolveEndpointToIP_def ep look)
    next
      case (Inr as)
      have empty: "?v4 [] = []" by simp
      show ?thesis
        using True Inr unfolding resolveEndpointToIP_def Let_def ep look f
        by (cases as; cases "?v4 as = []") (simp_all only: ep empty True if_False if_True prod.case sum.case option.case list.case list.sel list.distinct not_False_eq_True simp_thms hd_append append_Nil)
    qed
  qed
qed

lemma resolveEndpointToIP_plain_witness:
  "\<forall>w. resolveEndpointToIP (mem_kube :: store kube) ''https://10.0.0.7:6443'' w = (w, Inr ''10.0.0.7'')"
proof
  fix w
  have e: "plain_endpoint (Some ''https'') ''10.0.0.7'' (Some 6443) = ''https://10.0.0.7:6443''"
    by (simp add: plain_endpoint_def with_port_def show_nat.simps digit_char_def) code_simp
  have "''10.0.0.7'' = ipv4_string [10, 0, 0, 7]" by code_simp
  then have p: "parse_ip ''10.0.0.7'' = v4InV6Prefix @ [10, 0, 0, 7]"
    using parse_addr_ipv4_string [of 10 0 0 7] by (simp add: parse_ip_def as16_def)
  have "ip_string (v4InV6Prefix @ [10, 0, 0, 7]) = ''10.0.0.7''" by code_simp
  moreover have "is_hostname ''10.0.0.7''" "plain_scheme (Some ''https'')" by code_simp+
  ultimately show "resolveEndpointToIP mem_kube ''https://10.0.0.7:6443'' w = (w, Inr ''10.0.0.7'')"
    using resolveEndpointToIP_plain [of "''10.0.0.7''" "Some ''https''" mem_kube "Some 6443" w]
    unfolding e p by (simp add: v4InV6Prefix_def)
qed

end
