(* ===== verification/ManifestName.thy ===== *)
theory ManifestName
  imports GoString
begin

text \<open>
  \<open>sanitizeManifestWorkName\<close> of \<open>pkg/mdclient/ocmclient.go\<close>: the ManifestWork name of an object.
  \<open>validation.IsDNS1123Subdomain\<close> is the parameter \<open>dns\<close> (true when it reports no error). The loop
  over runes is a loop over bytes here: a byte of a multi-byte rune is not allowed, as its rune is
  not, and a run of bytes not allowed gives the one dash the rune gives.
\<close>

abbreviation is_dash :: "char \<Rightarrow> bool" where "is_dash c \<equiv> c = CHR ''-''"

definition is_allowed :: "char \<Rightarrow> bool" where
  "is_allowed c \<longleftrightarrow> is_lower c \<or> is_digit c \<or> is_dash c"

fun squeeze :: "bool \<Rightarrow> string \<Rightarrow> string" where
  "squeeze lastDash [] = []"
| "squeeze lastDash (r # rs) =
     (if \<not> is_allowed r
      then (if \<not> lastDash then CHR ''-'' # squeeze True rs else squeeze lastDash rs)
      else if is_dash r \<and> lastDash then squeeze lastDash rs
      else r # squeeze (is_dash r) rs)"

definition normalize_name :: "string \<Rightarrow> string" where
  "normalize_name name =
     replace_all CHR ''/'' CHR ''-''
       (replace_all CHR ''.'' CHR ''-'' (replace_all CHR ''_'' CHR ''-'' (to_lower name)))"

definition sanitizeManifestWorkName :: "(string \<Rightarrow> bool) \<Rightarrow> string \<Rightarrow> string" where
  "sanitizeManifestWorkName dns name =
     (if dns name then name
      else let result = trim is_dash (squeeze False (normalize_name name))
        in if result = [] then ''manifestwork''
           else let result' = (if length result > 63 then trim is_dash (take 63 result) else result)
             in if result' = [] then ''manifestwork'' else result')"

section \<open>What the loop leaves\<close>

fun no_double_dash :: "string \<Rightarrow> bool" where
  "no_double_dash (c # d # cs) \<longleftrightarrow> \<not> (is_dash c \<and> is_dash d) \<and> no_double_dash (d # cs)"
| "no_double_dash _ \<longleftrightarrow> True"

text \<open>A DNS label.\<close>

definition is_label :: "string \<Rightarrow> bool" where
  "is_label s \<longleftrightarrow> s \<noteq> [] \<and> length s \<le> 63 \<and> list_all is_allowed s \<and> \<not> is_dash (hd s) \<and> \<not> is_dash (last s)"

lemma is_allowed_dash [simp]: "is_allowed CHR ''-''"
  by (simp add: is_allowed_def)

lemma squeeze_allowed: "list_all is_allowed (squeeze ld s)"
  by (induction ld s rule: squeeze.induct) auto

lemma no_double_dash_Cons:
  "no_double_dash (c # s) \<longleftrightarrow> no_double_dash s \<and> \<not> (is_dash c \<and> s \<noteq> [] \<and> is_dash (hd s))"
  by (cases s) auto

lemma squeeze_no_double_dash:
  "no_double_dash (squeeze ld s) \<and> (ld \<longrightarrow> squeeze ld s \<noteq> [] \<longrightarrow> \<not> is_dash (hd (squeeze ld s)))"
  by (induction ld s rule: squeeze.induct) (auto simp: no_double_dash_Cons)

lemma squeeze_id:
  "list_all is_allowed s \<Longrightarrow> no_double_dash s \<Longrightarrow> \<not> (ld \<and> s \<noteq> [] \<and> is_dash (hd s)) \<Longrightarrow> squeeze ld s = s"
  by (induction ld s rule: squeeze.induct) (auto simp: no_double_dash_Cons)

lemma no_double_dash_take: "no_double_dash s \<Longrightarrow> no_double_dash (take n s)"
proof (induction s arbitrary: n)
  case Nil
  then show ?case by simp
next
  case (Cons c s)
  then show ?case by (cases n) (auto simp: no_double_dash_Cons)
qed

lemma no_double_dash_dropWhile: "no_double_dash s \<Longrightarrow> no_double_dash (dropWhile p s)"
  by (induction s) (auto simp: no_double_dash_Cons)

lemma no_double_dash_snoc:
  "no_double_dash (s @ [c]) \<longleftrightarrow> no_double_dash s \<and> \<not> (is_dash c \<and> s \<noteq> [] \<and> is_dash (last s))"
  by (induction s) (auto simp: no_double_dash_Cons hd_append)

lemma no_double_dash_rev: "no_double_dash (rev s) = no_double_dash s"
  by (induction s) (auto simp: no_double_dash_Cons no_double_dash_snoc last_rev)

lemma no_double_dash_trim: "no_double_dash s \<Longrightarrow> no_double_dash (trim p s)"
  unfolding trim_def trim_right_def trim_left_def
  by (simp add: no_double_dash_rev no_double_dash_dropWhile)

lemma list_all_trim: "list_all q s \<Longrightarrow> list_all q (trim p s)"
  using set_trim_subset by (fastforce simp: list_all_iff)

lemma list_all_take: "list_all q s \<Longrightarrow> list_all q (take n s)"
  by (auto simp: list_all_iff dest: in_set_takeD)

lemma is_label_manifestwork: "is_label ''manifestwork''" "no_double_dash ''manifestwork''"
  by (simp_all add: is_label_def is_allowed_def is_lower_def code_def)

lemma trim_label:
  assumes "list_all is_allowed s" "trim is_dash s \<noteq> []" "length s \<le> 63"
  shows "is_label (trim is_dash s)"
  using assms trim_hd [of is_dash s] trim_last [of is_dash s] length_trim_le [of is_dash s]
  by (simp add: is_label_def list_all_trim)

lemma trim_label_no_trim:
  assumes "list_all is_allowed s" "trim is_dash s \<noteq> []" "length (trim is_dash s) \<le> 63"
  shows "is_label (trim is_dash s)"
  using assms trim_hd [of is_dash s] trim_last [of is_dash s]
  by (simp add: is_label_def list_all_trim)

lemma sanitize_invalid:
  assumes "\<not> dns name"
  shows "is_label (sanitizeManifestWorkName dns name) \<and> no_double_dash (sanitizeManifestWorkName dns name)"
proof -
  let ?q = "squeeze False (normalize_name name)"
  let ?r = "trim is_dash ?q"
  let ?t = "trim is_dash (take 63 ?r)"
  have q: "list_all is_allowed ?q" "no_double_dash ?q"
    using squeeze_allowed squeeze_no_double_dash by blast+
  have r: "list_all is_allowed ?r" "no_double_dash ?r"
    using q by (simp_all add: list_all_trim no_double_dash_trim)
  have "is_label ?r" if "?r \<noteq> []" "length ?r \<le> 63"
    by (rule trim_label_no_trim [OF q(1) that])
  moreover have "is_label ?t" if "?t \<noteq> []"
    using r(1) that by (intro trim_label) (simp_all add: list_all_take)
  moreover have "no_double_dash ?t" using r(2) by (simp add: no_double_dash_trim no_double_dash_take)
  ultimately show ?thesis
    using assms r(2) is_label_manifestwork by (simp add: sanitizeManifestWorkName_def Let_def)
qed

text \<open>C30: the ManifestWork name of any object name is a legal one. A name that already is a DNS-1123
  subdomain is kept, so distinct valid object names give distinct ManifestWork names; any other name
  gives a DNS label (one to 63 lower-case letters, digits and dashes, no dash at either end) without
  two dashes in a row; a name that is such a label once lowered and with \<open>_\<close>, \<open>.\<close> and \<open>/\<close> as dashes
  gives that label; and sanitizing a second time changes nothing, \<open>dns\<close> accepting every DNS label.\<close>

theorem sanitizeManifestWorkName_legal:
  assumes "\<And>s. is_label s \<Longrightarrow> dns s"
  shows "dns (sanitizeManifestWorkName dns name)
    \<and> (dns name \<longrightarrow> sanitizeManifestWorkName dns name = name)
    \<and> (\<not> dns name \<longrightarrow> is_label (sanitizeManifestWorkName dns name)
         \<and> no_double_dash (sanitizeManifestWorkName dns name))
    \<and> (\<not> dns name \<longrightarrow> is_label (normalize_name name) \<longrightarrow> no_double_dash (normalize_name name) \<longrightarrow>
         sanitizeManifestWorkName dns name = normalize_name name)
    \<and> sanitizeManifestWorkName dns (sanitizeManifestWorkName dns name) = sanitizeManifestWorkName dns name"
proof -
  have keep: "sanitizeManifestWorkName dns s = s" if "dns s" for s
    using that by (simp add: sanitizeManifestWorkName_def)
  have ok: "dns (sanitizeManifestWorkName dns name)"
    using sanitize_invalid [of dns name] assms keep [of name] by (cases "dns name") auto
  have norm: "sanitizeManifestWorkName dns name = normalize_name name"
    if "\<not> dns name" "is_label (normalize_name name)" "no_double_dash (normalize_name name)"
    using that by (simp add: sanitizeManifestWorkName_def squeeze_id is_label_def trim_id)
  show ?thesis using ok keep norm sanitize_invalid [of dns name] by auto
qed

text \<open>An instance of \<open>dns\<close>: dot-separated labels, at most 253 characters.\<close>

definition example_dns :: "string \<Rightarrow> bool" where
  "example_dns s \<longleftrightarrow> length s \<le> 253 \<and> list_all is_label (split_on CHR ''.'' s)"

lemma example_dns_label: "is_label s \<Longrightarrow> example_dns s"
proof -
  assume l: "is_label s"
  then have "CHR ''.'' \<notin> set s"
    by (auto simp: is_label_def list_all_iff is_allowed_def is_lower_def is_digit_def code_def)
  with l show ?thesis by (simp add: example_dns_def) (simp add: is_label_def)
qed

lemma sanitizeManifestWorkName_legal_witness:
  "sanitizeManifestWorkName example_dns ''My_Slice'' = ''my-slice''"
proof -
  have "normalize_name ''My_Slice'' = ''my-slice''" by code_simp
  moreover have "\<not> example_dns ''My_Slice''" "is_label ''my-slice''" "no_double_dash ''my-slice''"
    by code_simp+
  ultimately show ?thesis
    using sanitizeManifestWorkName_legal [of example_dns "''My_Slice''"] example_dns_label by simp
qed

end
