(* ===== verification/Subnet.thy ===== *)
theory Subnet
  imports GoNet
begin

text \<open>
  IPv4 blocks as sets of 32-bit addresses: what \<open>x\<close> belongs to the block of a parsed CIDR means, and
  the arithmetic of blocks (containment, disjointness, the addresses base + offset).
\<close>

text \<open>\<open>IPNet.Contains\<close> for an IPv4 address given as its big-endian word: the masked address is the
  network's. A network that is not IPv4 contains none.\<close>

definition ipnet_contains :: "ipnet \<Rightarrow> u32 \<Rightarrow> bool" where
  "ipnet_contains n x =
     (if length (ipn_ip n) = 4 \<and> length (ipn_mask n) = 4
      then (case (be_uint32 (ipn_ip n), be_uint32 (ipn_mask n)) of
              (Some b, Some m) \<Rightarrow> x AND m = b
            | _ \<Rightarrow> False)
      else False)"

lemma unat_and_not_mask: "unat (x AND NOT (mask m) :: u32) = unat x div 2 ^ m * 2 ^ m"
proof -
  have a: "x AND NOT (mask m) = push_bit m (drop_bit m x)"
    by (rule bit_word_eqI) (auto simp: bit_simps)
  have l: "unat x div 2 ^ m * 2 ^ m < 2 ^ 32"
    by (rule le_less_trans [OF div_times_less_eq_dividend]) (use unsigned_less [of x] in simp)
  have d: "unat (drop_bit m x) = unat x div 2 ^ m"
    unfolding unat_drop_bit_eq by (simp add: drop_bit_eq_div)
  show ?thesis
    unfolding a unsigned_push_bit_eq d using l by (simp add: push_bit_eq_mult take_bit_eq_mod)
qed

lemma same_block_div:
  "x AND NOT (mask m) = (y :: u32) AND NOT (mask m) \<longleftrightarrow> unat x div 2 ^ m = unat y div 2 ^ m"
proof -
  have "x AND NOT (mask m) = y AND NOT (mask m)
      \<longleftrightarrow> unat (x AND NOT (mask m)) = unat (y AND NOT (mask m))"
    by (simp add: word_unat_eq_iff)
  then show ?thesis by (simp add: unat_and_not_mask)
qed

lemma length_be_put [simp]: "length (be_put_uint32 w) = 4"
  by (simp add: be_put_uint32_def)

lemma ip_string_v4 [simp]: "length p = 4 \<Longrightarrow> ip_string p = ipv4_string p"
  by (cases p) (simp_all add: ip_string_def)

lemma be_put_cases:
  obtains a b c d where "be_put_uint32 w = [a, b, c, d]" "w = be_word a b c d"
proof -
  let ?p = "be_put_uint32 w"
  obtain a b c d where p: "?p = [a, b, c, d]" by (simp add: be_put_uint32_def)
  have "w = be_word a b c d" using be_uint32_put [of w] by (simp add: p)
  with p show thesis by (rule that)
qed

text \<open>Membership in the IPv4 block of an address and a prefix length.\<close>

lemma ipnet_contains_v4:
  assumes "k \<le> 32"
  shows "ipnet_contains \<lparr>ipn_ip = map2 (AND) [a, b, c, d] (cidr_mask k 32), ipn_mask = cidr_mask k 32\<rparr> x
    \<longleftrightarrow> unat x div 2 ^ (32 - k) = unat (be_word a b c d) div 2 ^ (32 - k)"
proof -
  have len: "length (map2 (AND) [a, b, c, d] (cidr_mask k 32)) = 4" "length (cidr_mask k 32) = 4"
    by (simp_all add: cidr_mask_32)
  have m: "be_uint32 (cidr_mask k 32) = Some (NOT (mask (32 - k)))"
    using assms by (simp add: cidr_mask_32 be_word_cidr_mask)
  show ?thesis
    unfolding ipnet_contains_def ipnet.simps len be_uint32_masked [OF assms] m
    by (simp add: same_block_div)
qed

text \<open>Printing an address with a prefix length and parsing it back gives its block.\<close>

lemma parse_printed_block:
  assumes "k \<le> 32"
  shows "\<exists>p n. parse_cidr (ip_string (be_put_uint32 w) @ ''/'' @ show_nat k) = Some (p, n)
    \<and> (\<forall>x. ipnet_contains n x \<longleftrightarrow> unat x div 2 ^ (32 - k) = unat w div 2 ^ (32 - k))"
proof -
  obtain a b c d where p: "be_put_uint32 w = [a, b, c, d]" and w: "w = be_word a b c d"
    by (rule be_put_cases)
  show ?thesis
    using parse_cidr_ipv4 [OF assms, of a b c d] ipnet_contains_v4 [OF assms, of a b c d]
    by (simp add: w be_put_be_word)
qed

section \<open>Blocks of a block\<close>

lemma block_offset_div:
  fixes B i :: nat
  assumes "2 ^ m dvd B"
  shows "(B + i * 2 ^ m) div 2 ^ m = B div 2 ^ m + i"
  using assms by (auto elim!: dvdE simp: algebra_simps)

lemma block_offset_inside:
  fixes B i j :: nat
  assumes "2 ^ (m + j) dvd B" "i < 2 ^ j"
  shows "(B + i * 2 ^ m) div 2 ^ (m + j) = B div 2 ^ (m + j)"
proof -
  from assms(1) obtain q where q: "B = 2 ^ (m + j) * q" by (rule dvdE)
  have "i * 2 ^ m < 2 ^ (m + j)" using assms(2) by (simp add: power_add)
  with q show ?thesis by simp
qed

lemma sub_block_inside:
  fixes x y :: nat
  assumes "x div 2 ^ m = y div 2 ^ m"
  shows "x div 2 ^ (m + j) = y div 2 ^ (m + j)"
  using assms by (simp add: power_add div_mult2_eq)

text \<open>The address at an offset of an aligned block does not wrap.\<close>

lemma block_addr:
  fixes B :: u32
  assumes "2 ^ (m + j) dvd unat B" "m + j \<le> 32" "i < 2 ^ j"
  shows "unat (B + of_nat i * push_bit m 1) = unat B + i * 2 ^ m"
proof -
  from assms(1) obtain q where q: "unat B = 2 ^ (m + j) * q" by (rule dvdE)
  have two32: "(2::nat) ^ 32 = 2 ^ (m + j) * 2 ^ (32 - (m + j))"
    using assms(2) by (metis le_add_diff_inverse power_add)
  have "unat B < 2 ^ 32" using unsigned_less [of B] by simp
  then have "q < 2 ^ (32 - (m + j))" unfolding q two32 by simp
  then have "2 ^ (m + j) * (q + 1) \<le> (2::nat) ^ 32" unfolding two32 by (intro mult_le_mono2) simp
  moreover have "i * 2 ^ m < 2 ^ (m + j)" using assms(3) by (simp add: power_add)
  ultimately have lt: "unat B + i * 2 ^ m < 2 ^ 32" unfolding q by simp
  have "B + of_nat i * push_bit m 1 = of_nat (unat B + i * 2 ^ m)"
    by (simp add: push_bit_eq_mult)
  then show ?thesis
    using lt by (simp only: unat_of_nat) simp
qed

section \<open>Containment and disjointness\<close>

definition subnet_of :: "ipnet \<Rightarrow> ipnet \<Rightarrow> bool" where
  "subnet_of m n \<longleftrightarrow> (\<forall>x. ipnet_contains m x \<longrightarrow> ipnet_contains n x)"

definition disjoint_nets :: "ipnet \<Rightarrow> ipnet \<Rightarrow> bool" where
  "disjoint_nets m n \<longleftrightarrow> (\<forall>x. \<not> (ipnet_contains m x \<and> ipnet_contains n x))"

end
