(* ===== verification/MonitorAlloc.thy ===== *)
theory MonitorAlloc
  imports ApiTypes Subnet
begin

text \<open>
  \<open>allocateMonitoringNodeIPs\<close> of \<open>pkg/mdclient/ocmclient.go\<close>: one monitoring address per cluster out
  of an IPv4 block. The lemmas say exactly when it succeeds, that it never panics, which addresses
  it gives, that no two clusters share one, and when an address lies in the block.
\<close>

datatype alloc_error =
    InvalidMonitoringCIDR string
  | MonitoringCIDRNotIPv4 string
  | UnexpectedMaskSize string
  | MonitoringCIDRTooSmall string
  | NotEnoughAddresses string nat nat
  | EmptyClusterName
  | DuplicateClusterName string

definition node_ip :: "u32 \<Rightarrow> byte list \<Rightarrow> nat \<Rightarrow> ipnet" where
  "node_ip baseUint msk i = \<lparr>ipn_ip = be_put_uint32 (baseUint + of_nat (i + 1)), ipn_mask = msk\<rparr>"

fun alloc_loop :: "u32 \<Rightarrow> byte list \<Rightarrow> nat \<Rightarrow> overlay_cluster list \<Rightarrow> (string \<rightharpoonup> ipnet)
    \<Rightarrow> alloc_error + (string \<rightharpoonup> ipnet)" where
  "alloc_loop baseUint msk i [] allocated = Inr allocated"
| "alloc_loop baseUint msk i (c # cs) allocated =
     (if oc_name c = [] then Inl EmptyClusterName
      else if allocated (oc_name c) \<noteq> None then Inl (DuplicateClusterName (oc_name c))
      else alloc_loop baseUint msk (Suc i) cs (allocated(oc_name c \<mapsto> node_ip baseUint msk i)))"

text \<open>The outer \<open>None\<close> is the panic of \<open>Uint32\<close> on a short slice.\<close>

definition allocateMonitoringNodeIPs ::
  "string \<Rightarrow> overlay_cluster list \<Rightarrow> (alloc_error + (string \<rightharpoonup> ipnet)) option" where
  "allocateMonitoringNodeIPs cidr clusters =
     (if clusters = [] then Some (Inr Map.empty)
      else case parse_cidr cidr of
        None \<Rightarrow> Some (Inl (InvalidMonitoringCIDR cidr))
      | Some (networkIP, ipnet) \<Rightarrow>
          (let baseIPv4 = to4 networkIP;
               (ones, bits) = mask_size (ipn_mask ipnet);
               totalAddresses = 2 ^ (32 - ones) :: nat;
               usableHosts = totalAddresses - 2
           in if baseIPv4 = [] then Some (Inl (MonitoringCIDRNotIPv4 cidr))
              else if bits \<noteq> 32 then Some (Inl (UnexpectedMaskSize cidr))
              else if totalAddresses < 4 then Some (Inl (MonitoringCIDRTooSmall cidr))
              else if length clusters > usableHosts
              then Some (Inl (NotEnoughAddresses cidr usableHosts (length clusters)))
              else map_option (\<lambda>baseUint. alloc_loop baseUint (ipn_mask ipnet) 0 clusters Map.empty)
                     (be_uint32 baseIPv4)))"

section \<open>The loop\<close>

lemma alloc_loop_ok:
  "(\<exists>m'. alloc_loop b msk i cs m = Inr m')
     \<longleftrightarrow> [] \<notin> set (map oc_name cs) \<and> distinct (map oc_name cs) \<and> dom m \<inter> set (map oc_name cs) = {}"
  by (induction cs arbitrary: i m) (auto simp: domIff)

lemma alloc_loop_lookup:
  assumes "alloc_loop b msk i cs m = Inr m'"
  shows "dom m' = dom m \<union> set (map oc_name cs)"
    and "\<And>x. x \<notin> set (map oc_name cs) \<Longrightarrow> m' x = m x"
    and "\<And>j. j < length cs \<Longrightarrow> m' (oc_name (cs ! j)) = Some (node_ip b msk (i + j))"
proof -
  have "dom m' = dom m \<union> set (map oc_name cs)
    \<and> (\<forall>x. x \<notin> set (map oc_name cs) \<longrightarrow> m' x = m x)
    \<and> (\<forall>j < length cs. m' (oc_name (cs ! j)) = Some (node_ip b msk (i + j)))"
    using assms
  proof (induction cs arbitrary: i m)
    case Nil
    then show ?case by simp
  next
    case (Cons c cs)
    let ?m = "m(oc_name c \<mapsto> node_ip b msk i)"
    have run: "alloc_loop b msk (Suc i) cs ?m = Inr m'" using Cons.prems by (auto split: if_splits)
    then have "oc_name c \<notin> set (map oc_name cs)"
      using alloc_loop_ok [of b msk "Suc i" cs ?m] by auto
    moreover have "m' (oc_name ((c # cs) ! j)) = Some (node_ip b msk (i + j))"
      if "j < length (c # cs)" for j
      using Cons.IH [OF run] calculation that by (cases j) auto
    ultimately show ?case using Cons.IH [OF run] by auto
  qed
  then show "dom m' = dom m \<union> set (map oc_name cs)"
    "\<And>x. x \<notin> set (map oc_name cs) \<Longrightarrow> m' x = m x"
    "\<And>j. j < length cs \<Longrightarrow> m' (oc_name (cs ! j)) = Some (node_ip b msk (i + j))"
    by auto
qed

section \<open>When it succeeds\<close>

lemma to4_uint32: "to4 p \<noteq> [] \<Longrightarrow> \<exists>b. be_uint32 (to4 p) = Some b"
proof -
  assume "to4 p \<noteq> []"
  then have "length (to4 p) = 4" by (auto simp: to4_def split: if_splits)
  then show ?thesis by (auto simp: length_Suc_conv numeral_eq_Suc)
qed

lemma allocate_cases:
  "allocateMonitoringNodeIPs cidr cs \<noteq> None
   \<and> ((\<exists>m. allocateMonitoringNodeIPs cidr cs = Some (Inr m))
        \<longleftrightarrow> cs = []
          \<or> ((\<exists>p n k. parse_cidr cidr = Some (p, n) \<and> to4 p \<noteq> [] \<and> mask_size (ipn_mask n) = (k, 32)
                \<and> k \<le> 30 \<and> length cs \<le> 2 ^ (32 - k) - 2)
             \<and> [] \<notin> set (map oc_name cs) \<and> distinct (map oc_name cs)))"
proof (cases "cs = []")
  case True
  then show ?thesis by (simp add: allocateMonitoringNodeIPs_def)
next
  case False
  show ?thesis
  proof (cases "parse_cidr cidr")
    case None
    with False show ?thesis by (simp add: allocateMonitoringNodeIPs_def)
  next
    case (Some pn)
    then obtain p n where parsed: "parse_cidr cidr = Some (p, n)" by (cases pn) simp
    obtain k bits where size: "mask_size (ipn_mask n) = (k, bits)" by fastforce
    have four: "(2::nat) ^ (32 - k) < 4 \<longleftrightarrow> \<not> k \<le> 30" if "k \<le> 32"
    proof -
      have "(2::nat) ^ (32 - k) < 2 ^ 2 \<longleftrightarrow> 32 - k < 2"
        by (rule power_strict_increasing_iff) simp
      with that show ?thesis by auto
    qed
    have k: "k \<le> 32" if "bits = 32"
      using parsed
    proof (cases rule: parse_cidr_cases)
      case (v4 a b c d k')
      with size show ?thesis by simp
    next
      case (v6 k')
      with size that show ?thesis by simp
    qed
    show ?thesis
    proof (cases "to4 p = []")
      case True
      with False parsed size show ?thesis by (simp add: allocateMonitoringNodeIPs_def)
    next
      case to4: False
      then obtain b where "be_uint32 (to4 p) = Some b" using to4_uint32 by blast
      then show ?thesis
        using False parsed size to4 four k alloc_loop_ok [of b "ipn_mask n" 0 cs Map.empty]
        by (cases "bits = 32"; cases "k \<le> 30"; cases "length cs \<le> 2 ^ (32 - k) - 2")
           (auto simp: allocateMonitoringNodeIPs_def)
    qed
  qed
qed

lemma allocate_no_panic: "allocateMonitoringNodeIPs cidr cs \<noteq> None"
  using allocate_cases by blast

lemma allocate_ok_iff:
  "(\<exists>m. allocateMonitoringNodeIPs cidr cs = Some (Inr m))
     \<longleftrightarrow> cs = []
       \<or> ((\<exists>p n k. parse_cidr cidr = Some (p, n) \<and> to4 p \<noteq> [] \<and> mask_size (ipn_mask n) = (k, 32)
             \<and> k \<le> 30 \<and> length cs \<le> 2 ^ (32 - k) - 2)
          \<and> [] \<notin> set (map oc_name cs) \<and> distinct (map oc_name cs))"
  using allocate_cases by blast

text \<open>C21: the allocation never panics, and it succeeds exactly when there is no cluster, or the CIDR is
  an IPv4 block of prefix at most 30 with a usable address for every cluster and the clusters have
  distinct non-empty names. (An IPv4 address in IPv6 notation has a 128-bit mask and is refused.)\<close>

theorem allocateMonitoringNodeIPs_succeeds:
  "allocateMonitoringNodeIPs cidr cs \<noteq> None
   \<and> ((\<exists>m. allocateMonitoringNodeIPs cidr cs = Some (Inr m))
        \<longleftrightarrow> cs = []
          \<or> ((\<exists>p n k. parse_cidr cidr = Some (p, n) \<and> to4 p \<noteq> [] \<and> mask_size (ipn_mask n) = (k, 32)
                \<and> k \<le> 30 \<and> length cs \<le> 2 ^ (32 - k) - 2)
             \<and> [] \<notin> set (map oc_name cs) \<and> distinct (map oc_name cs)))"
  using allocate_no_panic allocate_ok_iff by blast

section \<open>The addresses it gives\<close>

lemma allocate_facts:
  assumes "allocateMonitoringNodeIPs cidr cs = Some (Inr m)" "cs \<noteq> []" "parse_cidr cidr = Some (p, n)"
  obtains a b c d k where "p = v4InV6Prefix @ [a, b, c, d]" "k \<le> 30"
    "n = \<lparr>ipn_ip = map2 (AND) [a, b, c, d] (cidr_mask k 32), ipn_mask = cidr_mask k 32\<rparr>"
    "length cs \<le> 2 ^ (32 - k) - 2" "distinct (map oc_name cs)"
    "alloc_loop (be_word a b c d) (ipn_mask n) 0 cs Map.empty = Inr m"
proof -
  from allocate_ok_iff [of cidr cs] assms
  obtain k where ok: "mask_size (ipn_mask n) = (k, 32)" "to4 p \<noteq> []" "k \<le> 30"
      "length cs \<le> 2 ^ (32 - k) - 2" "distinct (map oc_name cs)"
    by auto
  from assms(3) show thesis
  proof (cases rule: parse_cidr_cases)
    case (v6 k')
    with ok show thesis by simp
  next
    case (v4 a b c d k')
    with ok have k: "k' = k" by simp
    have "(2::nat) ^ 2 \<le> 2 ^ (32 - k)" using ok(3) by (intro power_increasing) auto
    then have "alloc_loop (be_word a b c d) (ipn_mask n) 0 cs Map.empty = Inr m"
      using assms ok v4 k by (simp add: allocateMonitoringNodeIPs_def not_less)
    with that v4 k ok show thesis by blast
  qed
qed

lemma node_ip_inject:
  assumes "i < 2 ^ 32 - 1" "j < 2 ^ 32 - 1"
  shows "ipn_ip (node_ip b msk i) = ipn_ip (node_ip b msk j) \<longleftrightarrow> i = j"
proof
  assume "ipn_ip (node_ip b msk i) = ipn_ip (node_ip b msk j)"
  then have "be_uint32 (be_put_uint32 (b + of_nat (i + 1))) = be_uint32 (be_put_uint32 (b + of_nat (j + 1)))"
    by (simp add: node_ip_def)
  then have "(of_nat (i + 1) :: u32) = of_nat (j + 1)" by (simp add: be_uint32_put)
  then have "unat (of_nat (i + 1) :: u32) = unat (of_nat (j + 1) :: u32)" by simp
  with assms show "i = j" by (simp only: unat_of_nat) simp
qed simp

text \<open>An address stays in the block while host part plus offset does; past the end it is in the next
  block, and from the last block it wraps to the first.\<close>

lemma host_in_block:
  fixes b :: u32
  assumes "k \<le> 32" "0 < k" "i < 2 ^ (32 - k)"
  shows "unat (b + of_nat i) div 2 ^ (32 - k) = unat b div 2 ^ (32 - k)
    \<longleftrightarrow> unat b mod 2 ^ (32 - k) + i < 2 ^ (32 - k)"
proof -
  let ?s = "(2::nat) ^ (32 - k)" and ?q = "unat b div 2 ^ (32 - k)" and ?h = "unat b mod 2 ^ (32 - k)"
  have s: "?s * 2 ^ k = 2 ^ 32" using assms(1) by (simp flip: power_add)
  have b: "unat b = ?s * ?q + ?h" by simp
  have h: "?h < ?s" by simp
  have dm: "(?s * x + r) div ?s = x" if "r < ?s" for x r using that by simp
  have q: "?q < 2 ^ k"
    using unsigned_less [of b] s by (intro less_mult_imp_div_less) (simp add: mult.commute)
  have k2: "(2::nat) \<le> 2 ^ k" using assms(2) by (cases k) auto
  have u: "unat (b + of_nat i) = (?s * ?q + ?h + i) mod (?s * 2 ^ k)"
    using b by (simp only: unat_word_ariths unat_of_nat s) (simp add: mod_simps)
  show ?thesis
  proof (cases "?h + i < ?s")
    case True
    have "?s * ?q + ?h + i < ?s * (?q + 1)"
      using True by (simp only: add_mult_distrib2 nat_mult_1_right)
    also have "\<dots> \<le> ?s * 2 ^ k" using q by (intro mult_le_mono2) simp
    finally have v: "unat (b + of_nat i) = ?s * ?q + (?h + i)" by (simp add: u)
    have "(?s * ?q + (?h + i)) div ?s = ?q" using True by (rule dm)
    with True v show ?thesis by simp
  next
    case False
    let ?r = "?h + i - ?s"
    have r: "?r < ?s" using h assms(3) by linarith
    have sum: "?s * ?q + ?h + i = ?s * (?q + 1) + ?r" using False by simp
    show ?thesis
    proof (cases "?q + 1 < 2 ^ k")
      case True
      then have "?s * (?q + 2) \<le> ?s * 2 ^ k" by (intro mult_le_mono2) simp
      then have "?s * (?q + 1) + ?r < ?s * 2 ^ k" using r by simp
      then have "unat (b + of_nat i) = ?s * (?q + 1) + ?r" unfolding u sum by simp
      then have "unat (b + of_nat i) div ?s = ?q + 1" using dm [OF r] by (simp only:)
      with False show ?thesis by simp
    next
      case last: False
      with q have "?q + 1 = 2 ^ k" by simp
      then have "unat (b + of_nat i) = ?r mod (?s * 2 ^ k)" unfolding u sum by simp
      moreover have "?s * 1 \<le> ?s * 2 ^ k" using k2 by (intro mult_le_mono2) linarith
      then have "?r < ?s * 2 ^ k" using r by linarith
      ultimately have "unat (b + of_nat i) div ?s = 0" using r by simp
      moreover have "?q \<noteq> 0" using \<open>?q + 1 = 2 ^ k\<close> k2 by linarith
      ultimately show ?thesis using False by simp
    qed
  qed
qed

definition host_part :: "ipnet \<Rightarrow> u32 \<Rightarrow> nat" where
  "host_part n x = unat x mod 2 ^ (32 - fst (mask_size (ipn_mask n)))"

definition block_size :: "ipnet \<Rightarrow> nat" where
  "block_size n = 2 ^ (32 - fst (mask_size (ipn_mask n)))"

text \<open>An offset into an aligned block is the host part.\<close>

lemma aligned_host:
  fixes B :: "32 word"
  assumes "unat B mod 2 ^ (32 - k) = 0" "j < 2 ^ (32 - k)"
  shows "unat (B + of_nat j) mod 2 ^ (32 - k) = j"
proof -
  have "(2::nat) ^ (32 - k) dvd 2 ^ 32" by (intro le_imp_power_dvd) simp
  then have "unat (B + of_nat j) mod 2 ^ (32 - k) = (unat B + j) mod 2 ^ (32 - k)"
    by (simp only: unat_word_ariths unat_of_nat) (simp add: mod_mod_cancel mod_simps)
  also have "\<dots> = j mod 2 ^ (32 - k)" using assms(1) by (metis mod_add_left_eq add_0)
  finally show ?thesis using assms(2) by simp
qed

text \<open>Different clusters get different addresses.\<close>

lemma node_ips_differ:
  assumes entry: "\<And>i. i < length cs \<Longrightarrow> m (oc_name (cs ! i)) = Some (node_ip B msk i)"
    and dom: "dom m = set (map oc_name cs)" and len: "length cs < 2 ^ 32"
    and xy: "x \<noteq> y" "m x = Some e" "m y = Some f"
  shows "ipn_ip e \<noteq> ipn_ip f"
proof -
  have "x \<in> set (map oc_name cs)" "y \<in> set (map oc_name cs)" using dom xy by auto
  then obtain i j where ij: "i < length cs" "x = oc_name (cs ! i)" "j < length cs" "y = oc_name (cs ! j)"
    by (auto simp: in_set_conv_nth)
  with xy have "i \<noteq> j" by auto
  moreover have "i < 2 ^ 32 - 1" "j < 2 ^ 32 - 1" using ij len by linarith+
  ultimately show ?thesis using node_ip_inject xy ij entry by auto
qed

text \<open>C20: a successful allocation gives every cluster, and nobody else, an address: the \<open>i\<close>-th cluster
  the address \<open>i + 1\<close> after the one written in the CIDR, with the block's mask. No two clusters share
  an address. For a prefix of at least 1, the address lies in the block exactly when the host part of the CIDR's address plus
  \<open>i + 1\<close> is below the block's size; so for a CIDR that names the network address itself (host part
  zero) every cluster gets an address of the block other than the network and broadcast addresses,
  while a CIDR such as \<open>10.0.0.254/24\<close> passes every check and gives addresses of the next block.\<close>

theorem allocateMonitoringNodeIPs_addresses:
  assumes "allocateMonitoringNodeIPs cidr cs = Some (Inr m)" "cs \<noteq> []" "parse_cidr cidr = Some (p, n)"
  shows "\<exists>base. be_uint32 (to4 p) = Some base
    \<and> dom m = set (map oc_name cs)
    \<and> (\<forall>i < length cs.
          m (oc_name (cs ! i)) = Some \<lparr>ipn_ip = be_put_uint32 (base + of_nat (i + 1)), ipn_mask = ipn_mask n\<rparr>
        \<and> (0 < fst (mask_size (ipn_mask n)) \<longrightarrow>
             (ipnet_contains n (base + of_nat (i + 1)) \<longleftrightarrow> host_part n base + i + 1 < block_size n))
        \<and> (host_part n base = 0 \<longrightarrow>
             0 < host_part n (base + of_nat (i + 1))
           \<and> host_part n (base + of_nat (i + 1)) < block_size n - 1))
    \<and> (\<forall>x y a b. x \<noteq> y \<longrightarrow> m x = Some a \<longrightarrow> m y = Some b \<longrightarrow> ipn_ip a \<noteq> ipn_ip b)"
proof -
  obtain a b c d k where p: "p = v4InV6Prefix @ [a, b, c, d]" and k: "k \<le> 30"
    and n: "n = \<lparr>ipn_ip = map2 (AND) [a, b, c, d] (cidr_mask k 32), ipn_mask = cidr_mask k 32\<rparr>"
    and len: "length cs \<le> 2 ^ (32 - k) - 2" and dist: "distinct (map oc_name cs)"
    and run: "alloc_loop (be_word a b c d) (ipn_mask n) 0 cs Map.empty = Inr m"
    using assms by (rule allocate_facts)
  let ?B = "be_word a b c d" and ?s = "(2::nat) ^ (32 - k)"
  have sz: "fst (mask_size (ipn_mask n)) = k" using n k by simp
  have "(2::nat) ^ 2 \<le> ?s" using k by (intro power_increasing) auto
  then have s4: "4 \<le> ?s" by simp
  have s32: "?s \<le> 2 ^ 32" by (intro power_increasing) auto
  note look = alloc_loop_lookup [OF run]
  have dom: "dom m = set (map oc_name cs)" using look(1) by simp
  have entry: "m (oc_name (cs ! i)) = Some (node_ip ?B (ipn_mask n) i)" if "i < length cs" for i
    using look(3) [OF that] by simp
  have contains: "ipnet_contains n x \<longleftrightarrow> unat x div ?s = unat ?B div ?s" for x
    unfolding n by (rule ipnet_contains_v4) (use k in simp)
  have inb: "ipnet_contains n (?B + of_nat (i + 1)) \<longleftrightarrow> unat ?B mod ?s + i + 1 < ?s"
    if "i < length cs" "0 < k" for i
    unfolding contains using host_in_block [of k "i + 1" ?B] that len s4 k by simp
  have al: "0 < unat (?B + of_nat (i + 1)) mod ?s \<and> unat (?B + of_nat (i + 1)) mod ?s < ?s - 1"
    if "i < length cs" "unat ?B mod ?s = 0" for i
    using aligned_host [OF that(2), of "i + 1"] that(1) len s4 by simp
  have "length cs < 2 ^ 32" using len s4 s32 by linarith
  note sep = node_ips_differ [OF entry dom this]
  show ?thesis
  proof (rule exI [of _ ?B], intro conjI)
    show "be_uint32 (to4 p) = Some ?B" by (simp add: p)
    show "dom m = set (map oc_name cs)" by (rule dom)
  next
    show "\<forall>i<length cs. m (oc_name (cs ! i)) = Some \<lparr>ipn_ip = be_put_uint32 (?B + of_nat (i + 1)), ipn_mask = ipn_mask n\<rparr>
        \<and> (0 < fst (mask_size (ipn_mask n)) \<longrightarrow>
             (ipnet_contains n (?B + of_nat (i + 1)) \<longleftrightarrow> host_part n ?B + i + 1 < block_size n))
        \<and> (host_part n ?B = 0 \<longrightarrow>
             0 < host_part n (?B + of_nat (i + 1)) \<and> host_part n (?B + of_nat (i + 1)) < block_size n - 1)"
      unfolding host_part_def block_size_def sz
      using entry [unfolded node_ip_def] inb al by (intro allI impI conjI) (simp_all only: bool_simps)
  next
    show "\<forall>x y a b. x \<noteq> y \<longrightarrow> m x = Some a \<longrightarrow> m y = Some b \<longrightarrow> ipn_ip a \<noteq> ipn_ip b"
      using sep by blast
  qed
qed

lemma parse_10_254: "parse_cidr ''10.0.0.254/24'' =
    Some (v4InV6Prefix @ [10, 0, 0, 254],
      \<lparr>ipn_ip = map2 (AND) [10, 0, 0, 254] (cidr_mask 24 32), ipn_mask = cidr_mask 24 32\<rparr>)"
proof -
  have "''10.0.0.254/24'' = ipv4_string [10, 0, 0, 254] @ ''/'' @ show_nat 24" by code_simp
  then show ?thesis using parse_cidr_ipv4 [of 24 10 0 0 254] by simp
qed

text \<open>The witness is the case that leaves the block: the second of two clusters of
  \<open>10.0.0.254/24\<close> gets \<open>10.0.1.0\<close>.\<close>

lemma allocateMonitoringNodeIPs_addresses_witness:
  "\<exists>m. allocateMonitoringNodeIPs ''10.0.0.254/24''
         [\<lparr>oc_name = ''a'', oc_gateway = None\<rparr>, \<lparr>oc_name = ''b'', oc_gateway = None\<rparr>] = Some (Inr m)
     \<and> map_option ipn_ip (m ''b'') = Some [10, 0, 1, 0]
     \<and> \<not> ipnet_contains \<lparr>ipn_ip = map2 (AND) [10, 0, 0, 254] (cidr_mask 24 32), ipn_mask = cidr_mask 24 32\<rparr>
           (be_word 10 0 0 254 + 2)"
proof -
  let ?cs = "[\<lparr>oc_name = ''a'', oc_gateway = None\<rparr>, \<lparr>oc_name = ''b'', oc_gateway = None\<rparr>]"
  let ?n = "\<lparr>ipn_ip = map2 (AND) [10, 0, 0, 254] (cidr_mask 24 32), ipn_mask = cidr_mask 24 32\<rparr>"
  obtain m where m: "allocateMonitoringNodeIPs ''10.0.0.254/24'' ?cs = Some (Inr m)"
    using allocate_ok_iff [of "''10.0.0.254/24''" ?cs] parse_10_254 by auto
  have b: "be_word 10 0 0 254 = 167772414" by code_simp
  have q: "be_put_uint32 167772416 = [10, 0, 1, 0]" by code_simp
  have u: "unat (be_word 10 0 0 254) = 167772414" by (simp add: b)
  obtain base where base: "be_uint32 (to4 (v4InV6Prefix @ [10, 0, 0, 254])) = Some base"
    and all: "\<And>i. i < length ?cs \<Longrightarrow>
      m (oc_name (?cs ! i)) = Some \<lparr>ipn_ip = be_put_uint32 (base + of_nat (i + 1)), ipn_mask = ipn_mask ?n\<rparr>
      \<and> (0 < fst (mask_size (ipn_mask ?n)) \<longrightarrow>
           (ipnet_contains ?n (base + of_nat (i + 1)) \<longleftrightarrow> host_part ?n base + i + 1 < block_size ?n))"
    using allocateMonitoringNodeIPs_addresses [OF m _ parse_10_254] by blast
  have base: "base = be_word 10 0 0 254" using base by simp
  have "m ''b'' = Some \<lparr>ipn_ip = be_put_uint32 (base + 2), ipn_mask = ipn_mask ?n\<rparr>"
    using all [of 1] by simp
  moreover have "\<not> ipnet_contains ?n (base + 2)"
    using all [of 1] by (simp add: host_part_def block_size_def base u)
  ultimately show ?thesis using m by (auto simp: base b q)
qed

end
