(* ===== verification/CrGen.thy ===== *)
theory CrGen
  imports ApiTypes GoString
begin

text \<open>
  \<open>pkg/l2sminterface/cr_generator.go\<close> and \<open>l2sminterface.go\<close>: the resource types, their kind and
  plural names, the factory of generators and the patch instructions for a workload.
  \<open>ResourceType\<close> is a Go string type, so any string is one; three constants are named.
\<close>

type_synonym ResourceType = string

abbreviation Overlay :: ResourceType where "Overlay \<equiv> ''Overlay''"
abbreviation NetworkEdgeDevice :: ResourceType where "NetworkEdgeDevice \<equiv> ''NetworkEdgeDevice''"
abbreviation L2Network :: ResourceType where "L2Network \<equiv> ''L2Network''"

definition GetKind :: "ResourceType \<Rightarrow> string" where
  "GetKind resource = resource"

definition getPluralResourceName :: "ResourceType \<Rightarrow> string" where
  "getPluralResourceName resource =
     (if resource = Overlay then ''overlays''
      else if resource = NetworkEdgeDevice then ''networkedgedevices''
      else if resource = L2Network then ''l2networks''
      else to_lower resource @ ''s'')"

record group_version_resource =
  gvr_group :: string
  gvr_version :: string
  gvr_resource :: string

definition GetGVR :: "l2sm_lib \<Rightarrow> ResourceType \<Rightarrow> group_version_resource" where
  "GetGVR lib resource =
     \<lparr>gvr_group = gv_group (lib_group_version lib),
      gvr_version = gv_version (lib_group_version lib),
      gvr_resource = getPluralResourceName resource\<rparr>"

text \<open>The special cases of the switch are what its default computes: every plural name is the kind
  in lower case with an \<open>s\<close>.\<close>

lemma getPluralResourceName_lower: "getPluralResourceName r = to_lower (GetKind r) @ ''s''"
proof -
  have "to_lower Overlay = ''overlay''" "to_lower NetworkEdgeDevice = ''networkedgedevice''"
    "to_lower L2Network = ''l2network''"
    by code_simp+
  then show ?thesis by (simp only: getPluralResourceName_def GetKind_def split: if_splits) simp
qed

section \<open>The factory of generators\<close>

record overlay_generator =
  og_values :: "topology_spec option"

datatype cr_error = TypeNotSupported string

definition NewCRGenerator :: "ResourceType \<Rightarrow> cr_error + overlay_generator" where
  "NewCRGenerator resource =
     (if resource = Overlay then Inr \<lparr>og_values = None\<rparr>
      else Inl (TypeNotSupported resource))"

section \<open>Patch instructions\<close>

record field_patch =
  fp_path :: string
  fp_value :: string

definition GetWorkloadPatchInstructions :: "string \<Rightarrow> field_patch list" where
  "GetWorkloadPatchInstructions networkName =
     [\<lparr>fp_path = ''spec.template.metadata.labels.l2sm'', fp_value = ''true''\<rparr>,
      \<lparr>fp_path = ''spec.template.metadata.labels.l2sm/app'', fp_value = ''<workload-name>''\<rparr>,
      \<lparr>fp_path = ''spec.template.metadata.annotations.l2sm/networks'', fp_value = networkName\<rparr>,
      \<lparr>fp_path = ''spec.template.spec.containers[0].env[0].name'', fp_value = ''DNS_NAME''\<rparr>,
      \<lparr>fp_path = ''spec.template.spec.containers[0].env[0].value'',
        fp_value = ''<workload-name>.'' @ networkName @ ''.'' @ ''inter'' @ ''.l2sm''\<rparr>]"

end
