(* ===== verification/Env.thy ===== *)
theory Env
  imports Prelude
begin

text \<open>
  \<open>internal/env/env.go\<close> and \<open>pkg/utils/utils.go\<close>: defaults read from the process environment, and
  the default for an empty string. The environment is the map \<open>os.LookupEnv\<close> reads.
\<close>

type_synonym environment = "string \<rightharpoonup> string"

definition getEnv :: "environment \<Rightarrow> string \<Rightarrow> string \<Rightarrow> string" where
  "getEnv env key defaultValue =
     (case env key of Some value \<Rightarrow> value | None \<Rightarrow> defaultValue)"

definition GetDefaultSDNPort :: "environment \<Rightarrow> string" where
  "GetDefaultSDNPort env = getEnv env ''DEFAULT_SDN_PORT'' ''30808''"

definition GetDefaultDNSGRPCPort :: "environment \<Rightarrow> string" where
  "GetDefaultDNSGRPCPort env = getEnv env ''DEFAULT_DNS_GRPC_PORT'' ''30818''"

definition GetDefaultDNSPort :: "environment \<Rightarrow> string" where
  "GetDefaultDNSPort env = getEnv env ''DEFAULT_DNS_PORT'' ''30053''"

definition GetDefaultOFPort :: "environment \<Rightarrow> string" where
  "GetDefaultOFPort env = getEnv env ''DEFAULT_OF_PORT'' ''30663''"

definition GetMultiDomainClientType :: "environment \<Rightarrow> string" where
  "GetMultiDomainClientType env = getEnv env ''MULTI_DOMAIN_CLIENT_TYPE'' ''ocm''"

definition DefaultIfEmpty :: "string \<Rightarrow> string \<Rightarrow> string" where
  "DefaultIfEmpty val def = (if val = [] then def else val)"

lemmas env_defs = GetDefaultSDNPort_def GetDefaultDNSGRPCPort_def GetDefaultDNSPort_def
  GetDefaultOFPort_def GetMultiDomainClientType_def getEnv_def

lemma DefaultIfEmpty_nonempty: "def \<noteq> [] \<Longrightarrow> DefaultIfEmpty val def \<noteq> []"
  by (simp add: DefaultIfEmpty_def)

lemma DefaultIfEmpty_idem [simp]: "DefaultIfEmpty (DefaultIfEmpty val def) def' =
    (if val = [] then DefaultIfEmpty def def' else val)"
  by (simp add: DefaultIfEmpty_def)

end
