(* ===== verification/Ned.thy ===== *)
theory Ned
  imports CrGen Env GoNet
begin

text \<open>
  \<open>pkg/l2sminterface/ned_generator.go\<close>: the generator of network edge devices. The lemmas show the
  default ports, which neighbours carry a monitoring address, and when \<open>ConstructNED\<close> panics.
\<close>

record NodeConfig =
  cfg_nodeName :: string
  cfg_ipAddress :: string

text \<open>The zero value, which reading a missing key of a \<open>map[string]NodeConfig\<close> gives.\<close>

definition zero_NodeConfig :: NodeConfig where
  "zero_NodeConfig = \<lparr>cfg_nodeName = [], cfg_ipAddress = []\<rparr>"

record Neighbor =
  ngh_node :: string
  ngh_domain :: string

record SDNController =
  sdn_name :: string
  sdn_domain :: string
  sdn_sdnPort :: string
  sdn_dnsPort :: string
  sdn_ofPort :: string
  sdn_dnsGrpcPort :: string

record NEDValues =
  nv_clusterName :: string
  nv_nodeConfig :: "NodeConfig option"
  nv_neighbors :: "Neighbor list"
  nv_monitoredNodes :: "string \<rightharpoonup> ipnet"

record NEDGenerator =
  ng_sliceName :: string
  ng_provider :: SDNController
  ng_monitoring :: "monitor_spec option"

definition NewNEDGenerator :: "environment \<Rightarrow> SDNController \<Rightarrow> NEDGenerator" where
  "NewNEDGenerator env sdnController =
     (let sdnPort = sdn_sdnPort sdnController;
          dnsPort = sdn_dnsPort sdnController;
          ofPort = sdn_ofPort sdnController;
          dnsGRPCPort = sdn_dnsGrpcPort sdnController;
          sdnPort = (if sdnPort = [] then GetDefaultSDNPort env else sdnPort);
          dnsGRPCPort = (if dnsGRPCPort = [] then GetDefaultDNSGRPCPort env else dnsGRPCPort);
          dnsPort = (if dnsPort = [] then GetDefaultDNSPort env else dnsPort);
          ofPort = (if ofPort = [] then GetDefaultOFPort env else ofPort)
      in \<lparr>ng_sliceName = sdn_name sdnController,
          ng_provider = \<lparr>sdn_name = sdn_name sdnController,
                         sdn_domain = sdn_domain sdnController,
                         sdn_sdnPort = sdnPort,
                         sdn_dnsPort = dnsPort,
                         sdn_ofPort = ofPort,
                         sdn_dnsGrpcPort = dnsGRPCPort\<rparr>,
          ng_monitoring = None\<rparr>)"

definition ned_neighbor :: "bool \<Rightarrow> (string \<rightharpoonup> ipnet) \<Rightarrow> Neighbor \<Rightarrow> neighbor_spec" where
  "ned_neighbor monitored monitoredNodes n =
     \<lparr>nb_node = ngh_node n, nb_domain = ngh_domain n,
      nb_lpmIp = (if monitored
                  then (case monitoredNodes (ngh_node n) of
                          Some neighLPMIp \<Rightarrow> Some (ip_string (ipn_ip neighLPMIp))
                        | None \<Rightarrow> None)
                  else None)\<rparr>"

text \<open>The copy of the monitoring spec is nil when the generator has none, and writing its \<open>IpCIDR\<close>
  then panics (\<open>None\<close>).\<close>

definition ConstructNED :: "l2sm_lib \<Rightarrow> NEDGenerator \<Rightarrow> NEDValues \<Rightarrow> network_edge_device option" where
  "ConstructNED lib gen values =
     (let nodeConf = map_option (\<lambda>c. \<lparr>nc_nodeName = cfg_nodeName c, nc_ipAddress = cfg_ipAddress c\<rparr>)
                       (nv_nodeConfig values);
          lpmIp = nv_monitoredNodes values (nv_clusterName values);
          monitored = (lpmIp \<noteq> None);
          neighbors = map (ned_neighbor monitored (nv_monitoredNodes values)) (nv_neighbors values);
          p = ng_provider gen;
          ned = \<lparr>ned_typeMeta = \<lparr>tm_kind = GetKind NetworkEdgeDevice,
                                 tm_apiVersion = lib_gv_string lib (lib_group_version lib)\<rparr>,
                 ned_meta = empty_meta\<lparr>m_name := ng_sliceName gen @ ''-ned''\<rparr>,
                 ned_spec = \<lparr>neds_provider = Some \<lparr>ps_name = sdn_name p, ps_domain = [sdn_domain p],
                                ps_ofPort = sdn_ofPort p, ps_sdnPort = sdn_sdnPort p,
                                ps_dnsPort = sdn_dnsPort p, ps_dnsGrpcPort = sdn_dnsGrpcPort p\<rparr>,
                             neds_nodeConfig = nodeConf, neds_neighbors = neighbors,
                             neds_monitor = None\<rparr>\<rparr>
      in case lpmIp of
           None \<Rightarrow> Some ned
         | Some ip \<Rightarrow>
             (case ng_monitoring gen of
                None \<Rightarrow> None
              | Some mon \<Rightarrow>
                  Some (ned\<lparr>ned_spec := (ned_spec ned)
                    \<lparr>neds_monitor := Some (mon\<lparr>mon_ipCIDR := Some (ipnet_string ip)\<rparr>)\<rparr>\<rparr>)))"

lemma NewNEDGenerator_simps [simp]:
  "ng_sliceName (NewNEDGenerator env c) = sdn_name c"
  "sdn_name (ng_provider (NewNEDGenerator env c)) = sdn_name c"
  "sdn_domain (ng_provider (NewNEDGenerator env c)) = sdn_domain c"
  "ng_monitoring (NewNEDGenerator env c) = None"
  by (simp_all add: NewNEDGenerator_def Let_def)

lemma ConstructNED_panics:
  "ConstructNED lib gen v = None
     \<longleftrightarrow> nv_monitoredNodes v (nv_clusterName v) \<noteq> None \<and> ng_monitoring gen = None"
  by (auto simp: ConstructNED_def Let_def split: option.splits)

definition monitor_of :: "NEDGenerator \<Rightarrow> NEDValues \<Rightarrow> monitor_spec option" where
  "monitor_of gen v =
     (case nv_monitoredNodes v (nv_clusterName v) of
        None \<Rightarrow> None
      | Some ip \<Rightarrow> map_option (\<lambda>m. m\<lparr>mon_ipCIDR := Some (ipnet_string ip)\<rparr>) (ng_monitoring gen))"

lemma ConstructNED_monitor:
  "ConstructNED lib gen v = Some ned \<Longrightarrow> neds_monitor (ned_spec ned) = monitor_of gen v"
  by (auto simp: ConstructNED_def Let_def monitor_of_def split: option.splits)

lemma ConstructNED_neighbors:
  "ConstructNED lib gen v = Some ned \<Longrightarrow> neds_neighbors (ned_spec ned) =
     map (ned_neighbor (nv_monitoredNodes v (nv_clusterName v) \<noteq> None) (nv_monitoredNodes v))
       (nv_neighbors v)"
  by (auto simp: ConstructNED_def Let_def split: option.splits)

lemma ConstructNED_node:
  "ConstructNED lib gen v = Some ned \<Longrightarrow> neds_nodeConfig (ned_spec ned) =
     map_option (\<lambda>c. \<lparr>nc_nodeName = cfg_nodeName c, nc_ipAddress = cfg_ipAddress c\<rparr>) (nv_nodeConfig v)"
  by (auto simp: ConstructNED_def Let_def split: option.splits)

lemma ConstructNED_identity:
  "ConstructNED lib gen v = Some ned \<Longrightarrow>
     ned_typeMeta ned = \<lparr>tm_kind = GetKind NetworkEdgeDevice, tm_apiVersion = lib_gv_string lib (lib_group_version lib)\<rparr>
     \<and> ned_meta ned = empty_meta\<lparr>m_name := ng_sliceName gen @ ''-ned''\<rparr>"
  by (auto simp: ConstructNED_def Let_def split: option.splits)

lemma ConstructNED_rest:
  "ConstructNED lib gen v = Some ned \<Longrightarrow>
     neds_provider (ned_spec ned) = Some \<lparr>ps_name = sdn_name (ng_provider gen),
        ps_domain = [sdn_domain (ng_provider gen)], ps_ofPort = sdn_ofPort (ng_provider gen),
        ps_sdnPort = sdn_sdnPort (ng_provider gen), ps_dnsPort = sdn_dnsPort (ng_provider gen),
        ps_dnsGrpcPort = sdn_dnsGrpcPort (ng_provider gen)\<rparr>
     \<and> m_name (ned_meta ned) = ng_sliceName gen @ ''-ned''"
  by (auto simp: ConstructNED_def Let_def split: option.splits)

lemmas ConstructNED_facts = ConstructNED_monitor ConstructNED_neighbors ConstructNED_node ConstructNED_identity ConstructNED_rest

text \<open>The generator a slice uses: the provider's, with the slice's monitoring spec.\<close>

definition provider_generator :: "environment \<Rightarrow> SDNController \<Rightarrow> monitor_spec option \<Rightarrow> NEDGenerator" where
  "provider_generator env c mon = (NewNEDGenerator env c)\<lparr>ng_monitoring := mon\<rparr>"

text \<open>C31: the device built for a provider and a cluster. It exists unless the cluster is monitored and
  the generator has no monitoring spec (the nil copy is written). It is a \<open>NetworkEdgeDevice\<close> of the L2S-M API
  group, named after the provider with \<open>-ned\<close>, with the given node's name and address where a node is
  given, and none otherwise. It has one neighbour per given
  neighbour, in order; a neighbour carries a monitoring address exactly when both the cluster and the
  neighbour are monitored, and then that node's address; the device carries the monitoring spec with
  the cluster's own address exactly when the cluster is monitored; and every port of its provider is
  the given one or, when that is empty, the process default.\<close>

theorem ConstructNED_correct:
  "(ConstructNED lib (provider_generator env c mon) v = None
            \<longleftrightarrow> nv_monitoredNodes v (nv_clusterName v) \<noteq> None \<and> mon = None)
    \<and> (\<forall>ned. ConstructNED lib (provider_generator env c mon) v = Some ned \<longrightarrow>
          ned_typeMeta ned = \<lparr>tm_kind = ''NetworkEdgeDevice'', tm_apiVersion = lib_gv_string lib (lib_group_version lib)\<rparr>
        \<and> ned_meta ned = empty_meta\<lparr>m_name := sdn_name c @ ''-ned''\<rparr>
        \<and> neds_nodeConfig (ned_spec ned) = (case nv_nodeConfig v of None \<Rightarrow> None
             | Some n \<Rightarrow> Some \<lparr>nc_nodeName = cfg_nodeName n, nc_ipAddress = cfg_ipAddress n\<rparr>)
        \<and> map nb_node (neds_neighbors (ned_spec ned)) = map ngh_node (nv_neighbors v)
        \<and> map nb_domain (neds_neighbors (ned_spec ned)) = map ngh_domain (nv_neighbors v)
        \<and> (\<forall>n. n \<in> set (neds_neighbors (ned_spec ned)) \<longrightarrow>
              (nb_lpmIp n \<noteq> None \<longleftrightarrow> nv_monitoredNodes v (nv_clusterName v) \<noteq> None
                 \<and> nv_monitoredNodes v (nb_node n) \<noteq> None)
            \<and> (\<forall>a. nb_lpmIp n = Some a \<longrightarrow>
                 map_option (\<lambda>i. ip_string (ipn_ip i)) (nv_monitoredNodes v (nb_node n)) = Some a))
        \<and> neds_monitor (ned_spec ned) = monitor_of (provider_generator env c mon) v
        \<and> neds_provider (ned_spec ned) = Some \<lparr>ps_name = sdn_name c, ps_domain = [sdn_domain c],
             ps_ofPort = DefaultIfEmpty (sdn_ofPort c) (GetDefaultOFPort env),
             ps_sdnPort = DefaultIfEmpty (sdn_sdnPort c) (GetDefaultSDNPort env),
             ps_dnsPort = DefaultIfEmpty (sdn_dnsPort c) (GetDefaultDNSPort env),
             ps_dnsGrpcPort = DefaultIfEmpty (sdn_dnsGrpcPort c) (GetDefaultDNSGRPCPort env)\<rparr>)"
proof (intro conjI allI impI)
  show "ConstructNED lib (provider_generator env c mon) v = None
      \<longleftrightarrow> nv_monitoredNodes v (nv_clusterName v) \<noteq> None \<and> mon = None"
    by (simp add: ConstructNED_panics provider_generator_def)
next
  fix ned
  assume ned: "ConstructNED lib (provider_generator env c mon) v = Some ned"
  show "ned_typeMeta ned = \<lparr>tm_kind = ''NetworkEdgeDevice'', tm_apiVersion = lib_gv_string lib (lib_group_version lib)\<rparr>"
    "ned_meta ned = empty_meta\<lparr>m_name := sdn_name c @ ''-ned''\<rparr>"
    using ConstructNED_identity [OF ned] by (simp_all add: provider_generator_def GetKind_def)
  show "neds_nodeConfig (ned_spec ned) = (case nv_nodeConfig v of None \<Rightarrow> None
      | Some n \<Rightarrow> Some \<lparr>nc_nodeName = cfg_nodeName n, nc_ipAddress = cfg_ipAddress n\<rparr>)"
    by (simp add: ConstructNED_node [OF ned] split: option.split)
  show "map nb_node (neds_neighbors (ned_spec ned)) = map ngh_node (nv_neighbors v)"
    "map nb_domain (neds_neighbors (ned_spec ned)) = map ngh_domain (nv_neighbors v)"
    by (simp_all add: ConstructNED_neighbors [OF ned] ned_neighbor_def)
  show "neds_monitor (ned_spec ned) = monitor_of (provider_generator env c mon) v" by (rule ConstructNED_monitor [OF ned])
  show "neds_provider (ned_spec ned) = Some \<lparr>ps_name = sdn_name c, ps_domain = [sdn_domain c],
             ps_ofPort = DefaultIfEmpty (sdn_ofPort c) (GetDefaultOFPort env),
             ps_sdnPort = DefaultIfEmpty (sdn_sdnPort c) (GetDefaultSDNPort env),
             ps_dnsPort = DefaultIfEmpty (sdn_dnsPort c) (GetDefaultDNSPort env),
             ps_dnsGrpcPort = DefaultIfEmpty (sdn_dnsGrpcPort c) (GetDefaultDNSGRPCPort env)\<rparr>"
    using ConstructNED_rest [OF ned]
    by (simp add: provider_generator_def NewNEDGenerator_def Let_def DefaultIfEmpty_def)
next
  fix ned n
  assume ned: "ConstructNED lib (provider_generator env c mon) v = Some ned" and "n \<in> set (neds_neighbors (ned_spec ned))"
  then obtain m where n: "n = ned_neighbor (nv_monitoredNodes v (nv_clusterName v) \<noteq> None)
      (nv_monitoredNodes v) m"
    by (auto simp: ConstructNED_neighbors)
  show "nb_lpmIp n \<noteq> None \<longleftrightarrow> nv_monitoredNodes v (nv_clusterName v) \<noteq> None
      \<and> nv_monitoredNodes v (nb_node n) \<noteq> None"
    unfolding n by (auto simp: ned_neighbor_def split: option.splits)
  show "map_option (\<lambda>i. ip_string (ipn_ip i)) (nv_monitoredNodes v (nb_node n)) = Some a"
    if "nb_lpmIp n = Some a" for a
    using that unfolding n by (auto simp: ned_neighbor_def split: option.splits if_splits)
qed

text \<open>A monitored cluster with one monitored and one unmonitored neighbour.\<close>

definition example_values :: NEDValues where
  "example_values =
     \<lparr>nv_clusterName = ''a'', nv_nodeConfig = None,
      nv_neighbors = [\<lparr>ngh_node = ''b'', ngh_domain = ''10.9.0.2''\<rparr>, \<lparr>ngh_node = ''c'', ngh_domain = ''10.9.0.3''\<rparr>],
      nv_monitoredNodes = [''a'' \<mapsto> \<lparr>ipn_ip = [10, 0, 0, 1], ipn_mask = [255, 255, 255, 0]\<rparr>,
                           ''b'' \<mapsto> \<lparr>ipn_ip = [10, 0, 0, 2], ipn_mask = [255, 255, 255, 0]\<rparr>]\<rparr>"

definition example_monitor :: monitor_spec where
  "example_monitor = \<lparr>mon_networkCIDR = None, mon_ipCIDR = None, mon_rest = JNull\<rparr>"

lemma ConstructNED_correct_witness:
  "\<forall>lib. \<exists>ned. ConstructNED lib (provider_generator Map.empty
        \<lparr>sdn_name = ''p'', sdn_domain = ''d'', sdn_sdnPort = [], sdn_dnsPort = ''53'', sdn_ofPort = [], sdn_dnsGrpcPort = []\<rparr>
        (Some example_monitor)) example_values = Some ned
     \<and> map nb_node (neds_neighbors (ned_spec ned)) = [''b'', ''c'']
     \<and> map_option ps_sdnPort (neds_provider (ned_spec ned)) = Some ''30808''"
proof
  fix lib
  let ?c = "\<lparr>sdn_name = ''p'', sdn_domain = ''d'', sdn_sdnPort = [], sdn_dnsPort = ''53'',
      sdn_ofPort = [], sdn_dnsGrpcPort = []\<rparr>"
  note correct = ConstructNED_correct [of lib Map.empty ?c "Some example_monitor" example_values]
  obtain ned where ned: "ConstructNED lib (provider_generator Map.empty ?c (Some example_monitor))
      example_values = Some ned"
    using conjunct1 [OF correct] by blast
  note facts = spec [OF conjunct2 [OF correct], THEN mp, OF ned]
  have nodes: "map nb_node (neds_neighbors (ned_spec ned)) = [''b'', ''c'']"
    using facts [THEN conjunct2, THEN conjunct2, THEN conjunct2, THEN conjunct1] by (simp add: example_values_def)
  have port: "map_option ps_sdnPort (neds_provider (ned_spec ned)) = Some ''30808''"
    unfolding facts [THEN conjunct2, THEN conjunct2, THEN conjunct2, THEN conjunct2, THEN conjunct2, THEN conjunct2, THEN conjunct2]
    by (simp add: DefaultIfEmpty_def env_defs)
  show "\<exists>ned. ConstructNED lib (provider_generator Map.empty ?c (Some example_monitor)) example_values = Some ned
     \<and> map nb_node (neds_neighbors (ned_spec ned)) = [''b'', ''c'']
     \<and> map_option ps_sdnPort (neds_provider (ned_spec ned)) = Some ''30808''"
    by (intro exI [of _ ned] conjI ned nodes port)
qed

end
