(* ===== verification/L2NetworkGen.thy ===== *)
theory L2NetworkGen
  imports CrGen Env Subnet
begin

text \<open>
  \<open>pkg/l2sminterface/l2network_generator.go\<close>: the L2Network of a SliceNetwork, and \<open>ApplyCIDRs\<close>,
  which cuts a network block into one block per cluster. A Go panic is the value \<open>None\<close>.
\<close>

definition ConstructL2NetworkFromL2smmd :: "l2sm_lib \<Rightarrow> slice_network \<Rightarrow> string + l2network" where
  "ConstructL2NetworkFromL2smmd lib network =
     Inr \<lparr>l2_typeMeta = \<lparr>tm_kind = GetKind L2Network,
                         tm_apiVersion = lib_gv_string lib (lib_group_version lib)\<rparr>,
          l2_meta = empty_meta\<lparr>m_name := net_name network\<rparr>,
          l2_spec = \<lparr>l2s_type = DefaultIfEmpty (sns_type (sn_spec network)) ''vnet'',
                     l2s_provider = sns_provider (sn_spec network),
                     l2s_networkCIDR = [], l2s_podAddressRange = []\<rparr>\<rparr>"

section \<open>ApplyCIDRs\<close>

datatype cidr_error = ParseCIDRError string | PrefixExceeds nat

definition apply_cidr_entry :: "string \<Rightarrow> l2network \<Rightarrow> nat \<Rightarrow> u32 \<Rightarrow> int \<Rightarrow> l2network" where
  "apply_cidr_entry networkCIDR l2network newPrefix ipInt i =
     (let blockSize = push_bit (32 - newPrefix) 1 :: u32;
          newIPInt = ipInt + of_int i * blockSize;
          newCIDR = ip_string (be_put_uint32 newIPInt) @ ''/'' @ show_nat newPrefix
      in l2network\<lparr>l2_spec := (l2_spec l2network)
           \<lparr>l2s_networkCIDR := networkCIDR, l2s_podAddressRange := newCIDR\<rparr>\<rparr>)"

definition ApplyCIDRs :: "string \<Rightarrow> l2network \<Rightarrow> int \<Rightarrow> (cidr_error + l2network list) option" where
  "ApplyCIDRs networkCIDR l2network numberClusters =
     (case parse_cidr networkCIDR of
        None \<Rightarrow> Some (Inl (ParseCIDRError networkCIDR))
      | Some (ip, ipNet) \<Rightarrow>
          (let ones = fst (mask_size (ipn_mask ipNet));
               bitsNeeded = length (show_bin_int numberClusters);
               newPrefix = ones + bitsNeeded
           in if newPrefix > 32 then Some (Inl (PrefixExceeds newPrefix))
              else (case be_uint32 (to4 (ip_mask ip (ipn_mask ipNet))) of
                      None \<Rightarrow> None
                    | Some ipInt \<Rightarrow>
                        if numberClusters < 0 then None
                        else Some (Inr (map (apply_cidr_entry networkCIDR l2network newPrefix ipInt)
                                            [1..numberClusters])))))"

section \<open>When it errs, panics and succeeds\<close>

lemma nth_mask_bytes: "i < l \<Longrightarrow> mask_bytes l n ! i = mask_byte (n - 8 * i)"
proof (induction l arbitrary: n i)
  case 0
  then show ?case by simp
next
  case (Suc l)
  then show ?case by (cases i) (simp_all add: mask_bytes_Suc del: mask_bytes.simps)
qed

text \<open>A masked IPv6 address with a prefix shorter than 80 is not an IPv4 address: \<open>To4\<close> is nil.\<close>

lemma to4_masked_v6:
  assumes "length p = 16" and "k \<le> 80"
  shows "to4 (ip_mask p (cidr_mask k 128)) = []"
proof -
  let ?m = "cidr_mask k 128"
  have m: "length ?m = 16" by (simp add: cidr_mask_def)
  have q: "ip_mask p ?m = map2 (AND) p ?m" using assms(1) m by (simp add: ip_mask_def)
  have "map2 (AND) p ?m ! 10 = p ! 10 AND mask_byte (k - 80)"
    using assms(1) m by (simp add: cidr_mask_def nth_mask_bytes)
  then have z: "map2 (AND) p ?m ! 10 = 0" using assms(2) by (simp add: mask_byte_0)
  have "take 12 (map2 (AND) p ?m) \<noteq> v4InV6Prefix"
  proof
    assume "take 12 (map2 (AND) p ?m) = v4InV6Prefix"
    then have "take 12 (map2 (AND) p ?m) ! 10 = (255 :: byte)"
      by (simp add: v4InV6Prefix_def)
    with z show False by simp
  qed
  then show ?thesis using assms(1) m unfolding q to4_def by simp
qed

lemma be_uint32_to4_v4:
  assumes "k \<le> 32"
  shows "be_uint32 (to4 (ip_mask (v4InV6Prefix @ [a, b, c, d]) (cidr_mask k 32)))
    = Some (be_word a b c d AND NOT (mask (32 - k)))"
proof -
  have "length (map2 (AND) [a, b, c, d] (cidr_mask k 32)) = 4" by (simp add: cidr_mask_32)
  then have "to4 (ip_mask (v4InV6Prefix @ [a, b, c, d]) (cidr_mask k 32))
      = map2 (AND) [a, b, c, d] (cidr_mask k 32)"
    by (subst ip_mask_v4) (simp_all add: cidr_mask_32)
  then show ?thesis by (simp only: be_uint32_masked [OF assms])
qed

lemma length_cidr_mask [simp]: "length (cidr_mask k 32) = 4" "length (cidr_mask k 128) = 16"
  by (simp_all add: cidr_mask_def)

definition is_ipv4_net :: "ipnet \<Rightarrow> bool" where
  "is_ipv4_net n \<longleftrightarrow> length (ipn_mask n) = 4"

definition new_prefix :: "ipnet \<Rightarrow> int \<Rightarrow> nat" where
  "new_prefix n N = fst (mask_size (ipn_mask n)) + length (show_bin_int N)"

text \<open>C23: \<open>ApplyCIDRs\<close> reports exactly an unparsable CIDR and a new prefix beyond 32. Otherwise it
  succeeds for an IPv4 block and a count that is not negative, and panics in the remaining cases: an
  IPv6 block (the nil result of \<open>To4\<close> is read) or a negative count (a negative capacity).\<close>

theorem ApplyCIDRs_outcome:
  "(ApplyCIDRs cidr l2 N = Some (Inl (ParseCIDRError cidr)) \<longleftrightarrow> parse_cidr cidr = None)
   \<and> (\<forall>p n. parse_cidr cidr = Some (p, n) \<longrightarrow>
        (ApplyCIDRs cidr l2 N = Some (Inl (PrefixExceeds (new_prefix n N))) \<longleftrightarrow> 32 < new_prefix n N)
        \<and> ((\<exists>nets. ApplyCIDRs cidr l2 N = Some (Inr nets))
             \<longleftrightarrow> new_prefix n N \<le> 32 \<and> is_ipv4_net n \<and> 0 \<le> N)
        \<and> (ApplyCIDRs cidr l2 N = None
             \<longleftrightarrow> new_prefix n N \<le> 32 \<and> \<not> (is_ipv4_net n \<and> 0 \<le> N)))"
proof (cases "parse_cidr cidr")
  case None
  then show ?thesis by (simp add: ApplyCIDRs_def)
next
  case (Some pn)
  obtain p n where pn: "pn = (p, n)" by (cases pn)
  with Some have parsed: "parse_cidr cidr = Some (p, n)" by simp
  then have run: "(\<exists>b. be_uint32 (to4 (ip_mask p (ipn_mask n))) = Some b \<and> is_ipv4_net n)
    \<or> (new_prefix n N \<le> 32 \<longrightarrow> be_uint32 (to4 (ip_mask p (ipn_mask n))) = None) \<and> \<not> is_ipv4_net n"
    by (cases rule: parse_cidr_cases)
       (simp_all add: is_ipv4_net_def be_uint32_to4_v4 new_prefix_def to4_masked_v6)
  then show ?thesis
    by (cases "32 < new_prefix n N"; cases "N < 0")
       (auto simp: ApplyCIDRs_def parsed new_prefix_def Let_def)
qed

text \<open>A concrete block the witnesses use.\<close>

lemma parse_10_1: "parse_cidr ''10.1.0.0/16'' =
    Some (v4InV6Prefix @ [10, 1, 0, 0],
      \<lparr>ipn_ip = map2 (AND) [10, 1, 0, 0] (cidr_mask 16 32), ipn_mask = cidr_mask 16 32\<rparr>)"
proof -
  have "''10.1.0.0/16'' = ipv4_string [10, 1, 0, 0] @ ''/'' @ show_nat 16" by code_simp
  then show ?thesis using parse_cidr_ipv4 [of 16 10 1 0 0] by simp
qed

lemma ApplyCIDRs_outcome_witness:
  "\<forall>l2. (\<exists>nets. ApplyCIDRs ''10.1.0.0/16'' l2 3 = Some (Inr nets))
   \<and> ApplyCIDRs ''10.1.0.0/16'' l2 (- 3) = None"
proof
  fix l2
  have "length (show_bin_int 3) = 2" "length (show_bin_int (- 3)) = 3" by code_simp+
  then show "(\<exists>nets. ApplyCIDRs ''10.1.0.0/16'' l2 3 = Some (Inr nets)) \<and> ApplyCIDRs ''10.1.0.0/16'' l2 (- 3) = None"
    using ApplyCIDRs_outcome [of "''10.1.0.0/16''" l2 3]
      ApplyCIDRs_outcome [of "''10.1.0.0/16''" l2 "- 3"]
    by (simp add: is_ipv4_net_def parse_10_1 new_prefix_def)
qed

section \<open>The blocks it cuts\<close>

definition pod_range :: "l2network \<Rightarrow> string" where
  "pod_range net = l2s_podAddressRange (l2_spec net)"

definition pod_block :: "l2network \<Rightarrow> ipnet option" where
  "pod_block net = map_option snd (parse_cidr (pod_range net))"

text \<open>The block of the entry of cluster \<open>i\<close>.\<close>

lemma pod_block_entry:
  assumes aligned: "2 ^ (32 - k) dvd unat B" and k: "k + j \<le> 32" and i: "0 \<le> i" "nat i < 2 ^ j"
  shows "\<exists>blk. pod_block (apply_cidr_entry cidr l2 (k + j) B i) = Some blk
    \<and> (\<forall>x. ipnet_contains blk x
            \<longleftrightarrow> unat x div 2 ^ (32 - (k + j)) = unat B div 2 ^ (32 - (k + j)) + nat i)"
proof -
  let ?m = "32 - (k + j)"
  have mj: "?m + j = 32 - k" using k by simp
  have oi: "(of_int i :: u32) = of_nat (nat i)" using i(1) by simp
  have u: "unat (B + of_int i * push_bit ?m 1) = unat B + nat i * 2 ^ ?m"
    unfolding oi by (rule block_addr [where j = j]) (use aligned k i mj in auto)
  have "2 ^ ?m dvd (2::nat) ^ (32 - k)" by (rule le_imp_power_dvd) simp
  then have d: "2 ^ ?m dvd unat B" using aligned by (rule dvd_trans)
  show ?thesis
    using parse_printed_block [OF k, of "B + of_int i * push_bit ?m 1"] block_offset_div [OF d]
    unfolding u pod_block_def pod_range_def apply_cidr_entry_def by (auto simp: Let_def)
qed

text \<open>The clusters' blocks lie in the block they are cut from, and no two of them meet.\<close>

lemma cut_blocks:
  assumes aligned: "2 ^ (32 - k) dvd unat B" and k: "k + j \<le> 32"
    and i: "0 \<le> i" "nat i < 2 ^ j" "pod_block (apply_cidr_entry cidr l2 (k + j) B i) = Some b"
  shows "ipnet_contains b x \<Longrightarrow> unat x div 2 ^ (32 - k) = unat B div 2 ^ (32 - k)"
    and "0 \<le> i' \<Longrightarrow> nat i' < 2 ^ j \<Longrightarrow> i \<noteq> i'
      \<Longrightarrow> pod_block (apply_cidr_entry cidr l2 (k + j) B i') = Some b' \<Longrightarrow> disjoint_nets b b'"
proof -
  let ?m = "32 - (k + j)"
  have mj: "32 - k = ?m + j" using k by simp
  have "2 ^ ?m dvd (2::nat) ^ (32 - k)" by (rule le_imp_power_dvd) simp
  then have d: "2 ^ ?m dvd unat B" using aligned by (rule dvd_trans)
  have c: "ipnet_contains b y \<longleftrightarrow> unat y div 2 ^ ?m = unat B div 2 ^ ?m + nat i" for y
    using pod_block_entry [OF aligned k i(1,2), of cidr l2] i(3) by auto
  {
    assume "ipnet_contains b x"
    then have "unat x div 2 ^ ?m = (unat B + nat i * 2 ^ ?m) div 2 ^ ?m"
      by (simp add: c block_offset_div [OF d])
    then have "unat x div 2 ^ (?m + j) = (unat B + nat i * 2 ^ ?m) div 2 ^ (?m + j)"
      by (rule sub_block_inside)
    also have "\<dots> = unat B div 2 ^ (?m + j)"
      by (rule block_offset_inside) (use aligned i(2) mj in auto)
    finally show "unat x div 2 ^ (32 - k) = unat B div 2 ^ (32 - k)" by (simp only: mj)
  }
  assume "0 \<le> i'" "nat i' < 2 ^ j" "i \<noteq> i'"
    "pod_block (apply_cidr_entry cidr l2 (k + j) B i') = Some b'"
  then have "ipnet_contains b' y \<longleftrightarrow> unat y div 2 ^ ?m = unat B div 2 ^ ?m + nat i'" for y
    using pod_block_entry [OF aligned k, of i' cidr l2] by auto
  then show "disjoint_nets b b'" using \<open>i \<noteq> i'\<close> i(1) \<open>0 \<le> i'\<close>
    unfolding disjoint_nets_def c by auto
qed

text \<open>C22: for an IPv4 block with room for the new prefix, \<open>ApplyCIDRs\<close> gives one network per cluster.
  Each is the input network with the whole CIDR as its network CIDR and, as its pod address range, a
  CIDR that parses to a block inside the given one, and the ranges of any two clusters are disjoint:
  the 32-bit offsets never wrap and the count fits in the bits added to the prefix. (The test in
  \<open>l2network_generator_test.go\<close> expects the part as the network CIDR; the code stores it as the pod
  address range.)\<close>

theorem ApplyCIDRs_subnets:
  assumes "parse_cidr cidr = Some (p, n)" "is_ipv4_net n" "new_prefix n (int N) \<le> 32"
  shows "\<exists>nets. ApplyCIDRs cidr l2 (int N) = Some (Inr nets) \<and> length nets = N
    \<and> (\<forall>i<N. nets ! i = l2\<lparr>l2_spec := (l2_spec l2)
          \<lparr>l2s_networkCIDR := cidr, l2s_podAddressRange := pod_range (nets ! i)\<rparr>\<rparr>
        \<and> (\<exists>b. pod_block (nets ! i) = Some b \<and> subnet_of b n))
    \<and> (\<forall>i<N. \<forall>j<N. \<forall>b b'. i \<noteq> j \<longrightarrow> pod_block (nets ! i) = Some b
         \<longrightarrow> pod_block (nets ! j) = Some b' \<longrightarrow> disjoint_nets b b')"
  using assms(1)
proof (cases rule: parse_cidr_cases)
  case (v6 k)
  with assms(2) show ?thesis by (simp add: is_ipv4_net_def)
next
  case (v4 a b c d k)
  let ?B = "be_word a b c d AND NOT (mask (32 - k))"
  let ?j = "length (show_bin N)"
  let ?nets = "map (apply_cidr_entry cidr l2 (k + ?j) ?B) [1..int N]"
  have np: "new_prefix n (int N) = k + ?j" using v4 by (simp add: new_prefix_def show_bin_int_def)
  then have kj: "k + ?j \<le> 32" using assms(3) by simp
  have run: "ApplyCIDRs cidr l2 (int N) = Some (Inr ?nets)"
    using assms(1) np kj v4 by (simp add: ApplyCIDRs_def be_uint32_to4_v4 show_bin_int_def)
  have al: "2 ^ (32 - k) dvd unat ?B" by (simp add: unat_and_not_mask)
  have inside: "nat (1 + int i) < 2 ^ ?j" if "i < N" for i
    using show_bin_length_bounds [of N] that by (auto simp: nat_add_distrib)
  have nth: "?nets ! i = apply_cidr_entry cidr l2 (k + ?j) ?B (1 + int i)" if "i < N" for i
    using that by simp
  have "ipnet_contains n x \<longleftrightarrow> unat x div 2 ^ (32 - k) = unat ?B div 2 ^ (32 - k)" for x
    using ipnet_contains_v4 [OF v4(1), of a b c d x] v4(3) by (simp add: unat_and_not_mask)
  then have sub: "\<exists>blk. pod_block (?nets ! i) = Some blk \<and> subnet_of blk n" if "i < N" for i
    using pod_block_entry [OF al kj _ inside, OF _ that, of cidr l2] that
      cut_blocks(1) [OF al kj _ inside, OF _ that, of cidr l2]
    unfolding nth [OF that] subnet_of_def by auto
  have dis: "disjoint_nets blk blk'"
    if "i < N" "j < N" "i \<noteq> j" "pod_block (?nets ! i) = Some blk" "pod_block (?nets ! j) = Some blk'"
    for i j blk blk'
    using that unfolding nth [OF that(1)] nth [OF that(2)]
    by (intro cut_blocks(2) [OF al kj, where i = "1 + int i" and i' = "1 + int j" and cidr = cidr and ?l2.0 = l2])
       (use inside [OF that(1)] inside [OF that(2)] in auto)
  have shape: "?nets ! i = l2\<lparr>l2_spec := (l2_spec l2)
      \<lparr>l2s_networkCIDR := cidr, l2s_podAddressRange := pod_range (?nets ! i)\<rparr>\<rparr>" if "i < N" for i
    unfolding nth [OF that] by (simp add: apply_cidr_entry_def pod_range_def Let_def)
  show ?thesis
    by (rule exI [of _ ?nets]) (use run shape sub dis in auto)
qed

lemma ApplyCIDRs_subnets_witness:
  "\<forall>l2. \<exists>nets. ApplyCIDRs ''10.1.0.0/16'' l2 3 = Some (Inr nets) \<and> length nets = 3"
proof
  fix l2
  have "length (show_bin_int 3) = 2" by code_simp
  then show "\<exists>nets. ApplyCIDRs ''10.1.0.0/16'' l2 3 = Some (Inr nets) \<and> length nets = 3"
    using ApplyCIDRs_subnets [OF parse_10_1, of 3 l2]
    by (auto simp: is_ipv4_net_def new_prefix_def)
qed

end
