(* ===== verification/Topology.thy ===== *)
theory Topology
  imports ApiTypes
begin

text \<open>
  \<open>pkg/topologygenerator\<close>: the default topology of a slice, the full mesh. \<open>GenerateTopology\<close> is the
  pair of index loops of the code; \<open>mesh_pairs\<close> is the reference recursion it equals. The lemmas
  show that the links of distinct nodes join every two of them exactly once.
\<close>

definition GenerateTopology :: "string list \<Rightarrow> overlay_link list" where
  "GenerateTopology nodes =
     (let numNodes = length nodes in
      concat (map (\<lambda>i. map (\<lambda>j. \<lparr>ol_endpointA = nodes ! i, ol_endpointB = nodes ! j\<rparr>)
                        [Suc i..<numNodes])
                  [0..<numNodes]))"

fun mesh_pairs :: "string list \<Rightarrow> overlay_link list" where
  "mesh_pairs [] = []"
| "mesh_pairs (x # xs) =
     map (\<lambda>y. \<lparr>ol_endpointA = x, ol_endpointB = y\<rparr>) xs @ mesh_pairs xs"

lemma upt_Suc_shift: "[Suc m..<Suc n] = map Suc [m..<n]"
  by (simp add: map_Suc_upt)

lemma map_nth_upt: "map (\<lambda>j. f (xs ! j)) [0..<length xs] = map f xs"
  by (metis (no_types, lifting) map_map comp_def map_nth map_eq_conv)

lemma GenerateTopology_mesh_pairs: "GenerateTopology nodes = mesh_pairs nodes"
proof (induction nodes)
  case Nil
  then show ?case by (simp add: GenerateTopology_def)
next
  case (Cons x xs)
  let ?l = "\<lambda>a b. \<lparr>ol_endpointA = a, ol_endpointB = b\<rparr>"
  have "GenerateTopology (x # xs) =
      map (\<lambda>j. ?l x (xs ! j)) [0..<length xs]
      @ concat (map (\<lambda>i. map (\<lambda>j. ?l (xs ! i) (xs ! j)) [Suc i..<length xs]) [0..<length xs])"
    by (simp add: GenerateTopology_def Let_def upt_conv_Cons upt_Suc_shift comp_def
          del: upt_Suc)
  then show ?case
    using Cons.IH by (simp add: GenerateTopology_def Let_def map_nth_upt [of "?l x"])
qed

lemma mesh_pairs_nodes:
  "l \<in> set (mesh_pairs xs) \<Longrightarrow> ol_endpointA l \<in> set xs \<and> ol_endpointB l \<in> set xs"
  by (induction xs) auto

lemma mesh_pairs_length: "2 * length (mesh_pairs xs) = length xs * (length xs - 1)"
proof (induction xs)
  case Nil
  then show ?case by simp
next
  case (Cons x xs)
  then show ?case by (cases xs) (simp_all add: algebra_simps)
qed

lemma mesh_pairs_no_loop:
  "distinct xs \<Longrightarrow> l \<in> set (mesh_pairs xs) \<Longrightarrow> ol_endpointA l \<noteq> ol_endpointB l"
  by (induction xs) auto

definition joins :: "overlay_link \<Rightarrow> string \<Rightarrow> string \<Rightarrow> bool" where
  "joins l a b \<longleftrightarrow> (ol_endpointA l = a \<and> ol_endpointB l = b) \<or> (ol_endpointA l = b \<and> ol_endpointB l = a)"

lemma joins_commute: "joins l a b \<longleftrightarrow> joins l b a"
  by (auto simp: joins_def)

lemma filter_joins_star:
  "distinct xs \<Longrightarrow> x \<notin> set xs \<Longrightarrow> a \<noteq> b \<Longrightarrow>
     length (filter (\<lambda>y. joins \<lparr>ol_endpointA = x, ol_endpointB = y\<rparr> a b) xs)
       = (if a = x \<and> b \<in> set xs \<or> b = x \<and> a \<in> set xs then 1 else 0)"
  by (induction xs) (auto simp: joins_def split: if_splits)

lemma mesh_pairs_joins:
  "distinct xs \<Longrightarrow> a \<noteq> b \<Longrightarrow>
     length (filter (\<lambda>l. joins l a b) (mesh_pairs xs)) = (if a \<in> set xs \<and> b \<in> set xs then 1 else 0)"
proof (induction xs)
  case Nil
  then show ?case by simp
next
  case (Cons x xs)
  then show ?case
    using filter_joins_star [of xs x a b] by (auto simp: filter_map comp_def)
qed

text \<open>C32: the generated topology of distinct cluster names is the full mesh. Any two different
  clusters are joined by exactly one link, no link joins a cluster to itself, every endpoint is one
  of the clusters, and there are \<open>n (n - 1) / 2\<close> links, the capacity the code reserves.\<close>

theorem GenerateTopology_full_mesh:
  assumes "distinct nodes"
  shows "2 * length (GenerateTopology nodes) = length nodes * (length nodes - 1)
    \<and> (\<forall>l. l \<in> set (GenerateTopology nodes) \<longrightarrow>
          ol_endpointA l \<noteq> ol_endpointB l \<and> ol_endpointA l \<in> set nodes \<and> ol_endpointB l \<in> set nodes)
    \<and> (\<forall>a b. a \<in> set nodes \<longrightarrow> b \<in> set nodes \<longrightarrow> a \<noteq> b \<longrightarrow>
          length (filter (\<lambda>l. joins l a b) (GenerateTopology nodes)) = 1)"
  using assms
  by (simp add: GenerateTopology_mesh_pairs mesh_pairs_length mesh_pairs_joins)
     (blast dest: mesh_pairs_nodes mesh_pairs_no_loop)

lemma GenerateTopology_full_mesh_witness:
  "length (filter (\<lambda>l. joins l ''a'' ''c'') (GenerateTopology [''a'', ''b'', ''c''])) = 1"
  using GenerateTopology_full_mesh [of "[''a'', ''b'', ''c'']"] by simp

end
