(* ===== verification/OcmClient.thy ===== *)
theory OcmClient
  imports Endpoint ManifestName MonitorAlloc Ned L2NetworkGen Topology
begin

text \<open>
  \<open>pkg/mdclient/ocmclient.go\<close>: the multi-domain client on Open Cluster Management. It deploys a slice
  as ManifestWorks, one per cluster, in the namespace named like the cluster on the hub.
\<close>

datatype md_error =
    ConstructL2NetworkFailed string
  | L2NetworkManifestFailed string string
  | ApplyNetworkWorkFailed string string kerr
  | DeleteWorkFailed string string kerr
  | SliceWithoutTopology string
  | ResolveClusterFailed string cluster_ip_error
  | MonitoringAllocationFailed string alloc_error
  | NEDManifestFailed string string
  | ApplySliceWorkFailed string kerr
  | RestMigrationPending string string string
  | MDPanic

section \<open>ManifestWorks\<close>

definition newManifestWork :: "'w kube \<Rightarrow> string \<Rightarrow> string \<Rightarrow> json list \<Rightarrow> manifest_work" where
  "newManifestWork k clusterName objectName manifests =
     \<lparr>mw_name = sanitizeManifestWorkName (k_dns1123 k) objectName,
      mw_namespace = clusterName,
      mw_resourceVersion = [],
      mw_labels = [''app'' \<mapsto> ''l2sm''],
      mw_manifests = manifests\<rparr>"

definition toManifest :: "'w kube \<Rightarrow> l2sm_object \<Rightarrow> string + json" where
  "toManifest k obj = k_to_unstructured k obj"

definition apply_attempt :: "'w kube \<Rightarrow> manifest_work \<Rightarrow> ('w, kerr) action" where
  "apply_attempt k desired w =
     (case k_get_work k (mw_namespace desired) (mw_name desired) w of
        (w', Inl err) \<Rightarrow>
          if ignore_not_found (Some err) = None then k_create_work k desired w' else (w', Some err)
      | (w', Inr current) \<Rightarrow>
          k_update_work k (current\<lparr>mw_labels := mw_labels desired, mw_manifests := mw_manifests desired\<rparr>) w')"

definition applyManifestWork :: "'w kube \<Rightarrow> manifest_work \<Rightarrow> ('w, kerr) action" where
  "applyManifestWork k desired = k_retry_on_conflict k (apply_attempt k desired)"

section \<open>Networks\<close>

definition apply_network_step :: "'w kube \<Rightarrow> l2network \<Rightarrow> string \<Rightarrow> string \<Rightarrow> ('w, md_error) action" where
  "apply_network_step k l2net namespace clusterName w =
     (let currentNetwork = l2net\<lparr>l2_meta := (l2_meta l2net)\<lparr>m_namespace := namespace\<rparr>\<rparr>;
          name = m_name (l2_meta currentNetwork)
      in case toManifest k (ObjL2Network currentNetwork) of
           Inl err \<Rightarrow> (w, Some (L2NetworkManifestFailed clusterName err))
         | Inr manifest \<Rightarrow>
             (case applyManifestWork k (newManifestWork k clusterName name [manifest]) w of
                (w', Some err) \<Rightarrow> (w', Some (ApplyNetworkWorkFailed name clusterName err))
              | (w', None) \<Rightarrow> (w', None)))"

definition ocm_ApplyNetwork :: "'w kube \<Rightarrow> slice_network \<Rightarrow> string \<Rightarrow> ('w, md_error) action" where
  "ocm_ApplyNetwork k network namespace w =
     (let namespace = DefaultIfEmpty namespace ''default'' in
      case ConstructL2NetworkFromL2smmd (k_lib k) network of
        Inl err \<Rightarrow> (w, Some (ConstructL2NetworkFailed err))
      | Inr l2net \<Rightarrow> for_each (apply_network_step k l2net namespace) (sns_clusters (sn_spec network)) w)"

definition delete_work_step :: "'w kube \<Rightarrow> string \<Rightarrow> string \<Rightarrow> ('w, md_error) action" where
  "delete_work_step k workName clusterName w =
     (case k_delete_work k clusterName workName w of
        (w', err) \<Rightarrow>
          (case err of
             Some e \<Rightarrow> if ignore_not_found err \<noteq> None then (w', Some (DeleteWorkFailed workName clusterName e))
                       else (w', None)
           | None \<Rightarrow> (w', None)))"

definition ocm_DeleteNetwork :: "'w kube \<Rightarrow> slice_network \<Rightarrow> string \<Rightarrow> ('w, md_error) action" where
  "ocm_DeleteNetwork k network namespace =
     for_each (delete_work_step k (sanitizeManifestWorkName (k_dns1123 k) (net_name network)))
       (sns_clusters (sn_spec network))"

section \<open>Slices\<close>

definition firstProviderDomain :: "provider_spec option \<Rightarrow> string" where
  "firstProviderDomain provider =
     (case provider of None \<Rightarrow> [] | Some p \<Rightarrow> (case ps_domain p of [] \<Rightarrow> [] | d # ds \<Rightarrow> d))"

definition getSliceClusterNames :: "overlay_cluster list \<Rightarrow> string list" where
  "getSliceClusterNames clusters = map oc_name clusters"

text \<open>The loop that fills \<open>clusterMaps\<close>: the gateway's address, or else the managed cluster's.\<close>

fun resolve_clusters :: "'w kube \<Rightarrow> overlay_cluster list \<Rightarrow> (string \<rightharpoonup> NodeConfig) \<Rightarrow> 'w
    \<Rightarrow> 'w \<times> (md_error + (string \<rightharpoonup> NodeConfig))" where
  "resolve_clusters k [] clusterMaps w = (w, Inr clusterMaps)"
| "resolve_clusters k (cluster # rest) clusterMaps w =
     (let resolvedIP = (case oc_gateway cluster of Some g \<Rightarrow> nc_ipAddress g | None \<Rightarrow> []);
          put = (\<lambda>ip. clusterMaps(oc_name cluster \<mapsto> \<lparr>cfg_nodeName = oc_name cluster, cfg_ipAddress = ip\<rparr>))
      in if resolvedIP \<noteq> [] then resolve_clusters k rest (put resolvedIP) w
         else (case getManagedClusterIPAddress k (oc_name cluster) w of
                 (w', Inl err) \<Rightarrow> (w', Inl (ResolveClusterFailed (oc_name cluster) err))
               | (w', Inr ip) \<Rightarrow> resolve_clusters k rest (put ip) w'))"

definition neighbor_at :: "(string \<rightharpoonup> NodeConfig) \<Rightarrow> string \<Rightarrow> Neighbor" where
  "neighbor_at clusterMaps endpoint =
     (let c = map_get zero_NodeConfig clusterMaps endpoint
      in \<lparr>ngh_node = cfg_nodeName c, ngh_domain = cfg_ipAddress c\<rparr>)"

definition cluster_neighbors :: "(string \<rightharpoonup> NodeConfig) \<Rightarrow> overlay_link list \<Rightarrow> string \<Rightarrow> Neighbor list" where
  "cluster_neighbors clusterMaps links name =
     concat (map (\<lambda>l. if name = ol_endpointA l then [neighbor_at clusterMaps (ol_endpointB l)]
                      else if name = ol_endpointB l then [neighbor_at clusterMaps (ol_endpointA l)]
                      else []) links)"

definition apply_slice_step :: "'w kube \<Rightarrow> NEDGenerator \<Rightarrow> (string \<rightharpoonup> ipnet) \<Rightarrow> (string \<rightharpoonup> NodeConfig)
    \<Rightarrow> overlay_link list \<Rightarrow> string \<Rightarrow> string \<Rightarrow> overlay_cluster \<Rightarrow> ('w, md_error) action" where
  "apply_slice_step k gen monitoredNodes clusterMaps sliceLinks sliceName namespace cluster w =
     (case ConstructNED (k_lib k) gen
             \<lparr>nv_clusterName = oc_name cluster, nv_nodeConfig = None,
              nv_neighbors = cluster_neighbors clusterMaps sliceLinks (oc_name cluster),
              nv_monitoredNodes = monitoredNodes\<rparr> of
        None \<Rightarrow> (w, Some MDPanic)
      | Some ned0 \<Rightarrow>
          let ned = ned0\<lparr>ned_meta := (ned_meta ned0)\<lparr>m_namespace := namespace\<rparr>\<rparr> in
          (case toManifest k (ObjNED ned) of
             Inl err \<Rightarrow> (w, Some (NEDManifestFailed (oc_name cluster) err))
           | Inr nedManifest \<Rightarrow>
               (case applyManifestWork k (newManifestWork k (oc_name cluster) sliceName [nedManifest]) w of
                  (w', Some err) \<Rightarrow> (w', Some (ApplySliceWorkFailed (oc_name cluster) err))
                | (w', None) \<Rightarrow> (w', None))))"

definition slice_links :: "overlay_topology \<Rightarrow> overlay_link list" where
  "slice_links topology =
     (if ot_links topology = [] \<and> length (ot_nodes topology) > 1
      then GenerateTopology (getSliceClusterNames (ot_nodes topology))
      else ot_links topology)"

definition monitoring_cidr :: "monitor_spec \<Rightarrow> string" where
  "monitoring_cidr mon =
     (case mon_networkCIDR mon of
        Some c \<Rightarrow> if c \<noteq> [] then c else ''10.0.0.0/24''
      | None \<Rightarrow> ''10.0.0.0/24'')"

definition provider_controller :: "provider_spec option \<Rightarrow> SDNController" where
  "provider_controller prov =
     (let provider = (case prov of None \<Rightarrow> empty_provider | Some p \<Rightarrow> p)
      in \<lparr>sdn_name = ps_name provider, sdn_domain = firstProviderDomain (Some provider),
          sdn_sdnPort = ps_sdnPort provider, sdn_dnsPort = ps_dnsPort provider,
          sdn_ofPort = ps_ofPort provider, sdn_dnsGrpcPort = ps_dnsGrpcPort provider\<rparr>)"

text \<open>The generator with its monitoring spec, and the monitored nodes. The outer \<open>None\<close> is a panic of
  the allocation.\<close>

definition slice_monitoring :: "'w kube \<Rightarrow> slice_overlay \<Rightarrow> overlay_cluster list
    \<Rightarrow> (alloc_error + NEDGenerator \<times> (string \<rightharpoonup> ipnet)) option" where
  "slice_monitoring k slc clusters =
     (let gen = NewNEDGenerator (k_env k) (provider_controller (sos_provider (so_spec slc))) in
      case sos_monitoring (so_spec slc) of
        None \<Rightarrow> Some (Inr (gen, Map.empty))
      | Some mon \<Rightarrow>
          map_option (map_sum id (\<lambda>nodes. (gen\<lparr>ng_monitoring := Some mon\<rparr>, nodes)))
            (allocateMonitoringNodeIPs (monitoring_cidr mon) clusters))"

definition ocm_ApplySlice :: "'w kube \<Rightarrow> slice_overlay \<Rightarrow> string \<Rightarrow> ('w, md_error) action" where
  "ocm_ApplySlice k slc namespace w =
     (let namespace = DefaultIfEmpty namespace ''he-codeco-netma'' in
      case sos_topology (so_spec slc) of
        None \<Rightarrow> (w, Some (SliceWithoutTopology (overlay_name slc)))
      | Some topology \<Rightarrow>
          (case resolve_clusters k (ot_nodes topology) Map.empty w of
             (w', Inl err) \<Rightarrow> (w', Some err)
           | (w', Inr clusterMaps) \<Rightarrow>
               (case slice_monitoring k slc (ot_nodes topology) of
                  None \<Rightarrow> (w', Some MDPanic)
                | Some (Inl err) \<Rightarrow> (w', Some (MonitoringAllocationFailed (overlay_name slc) err))
                | Some (Inr (gen, monitoredNodes)) \<Rightarrow>
                    for_each (apply_slice_step k gen monitoredNodes clusterMaps (slice_links topology)
                                (overlay_name slc) namespace)
                      (ot_nodes topology) w')))"

definition ocm_DeleteSlice :: "'w kube \<Rightarrow> slice_overlay \<Rightarrow> string \<Rightarrow> ('w, md_error) action" where
  "ocm_DeleteSlice k slc namespace w =
     (case sos_topology (so_spec slc) of
        None \<Rightarrow> (w, None)
      | Some topology \<Rightarrow>
          for_each (delete_work_step k (sanitizeManifestWorkName (k_dns1123 k) (overlay_name slc)))
            (getSliceClusterNames (ot_nodes topology)) w)"

end
