(* ===== verification/OcmCorrect.thy ===== *)
theory OcmCorrect
  imports OcmClient
begin

text \<open>
  What the OCM client does to the stored ManifestWorks, under the laws of \<open>Kube\<close>: a call that returns
  no error has written (or removed) the work of every cluster of the slice, with the content the
  generators give; no call ever touches any other work.
\<close>

section \<open>One ManifestWork\<close>

lemma apply_attempt_effect:
  assumes laws: "work_laws k view" and run: "apply_attempt k d w = (w', r)"
  shows "same_except (work_key d) (view w) (view w')"
    and "r = None \<Longrightarrow> view w' (work_key d) = Some (work_content d)"
proof -
  obtain w1 q where g: "k_get_work k (mw_namespace d) (mw_name d) w = (w1, q)" by fastforce
  have v1: "view w1 = view w" by (rule get_lawD(1) [OF laws g])
  have create: "write_law (k_create_work k) view" and update: "write_law (k_update_work k) view"
    using laws by (simp_all add: work_laws_def)
  have "same_except (work_key d) (view w) (view w')
      \<and> (r = None \<longrightarrow> view w' (work_key d) = Some (work_content d))"
  proof (cases q)
    case (Inl e)
    show ?thesis
    proof (cases "ignore_not_found (Some e) = None")
      case True
      with run g Inl have "k_create_work k d w1 = (w', r)" by (simp add: apply_attempt_def)
      from write_lawD [OF create this] show ?thesis by (simp add: v1)
    next
      case False
      with run g Inl v1 show ?thesis by (auto simp: apply_attempt_def)
    qed
  next
    case (Inr cur)
    let ?u = "cur\<lparr>mw_labels := mw_labels d, mw_manifests := mw_manifests d\<rparr>"
    have "k_update_work k ?u w1 = (w', r)" using run g Inr by (simp add: apply_attempt_def)
    moreover have "work_key ?u = work_key d" "work_content ?u = work_content d"
      using get_lawD(3) [OF laws g Inr] by (simp_all add: work_key_def work_content_def)
    ultimately show ?thesis using write_lawD [OF update] v1 by metis
  qed
  then show "same_except (work_key d) (view w) (view w')"
    "r = None \<Longrightarrow> view w' (work_key d) = Some (work_content d)" by blast+
qed

lemma applyManifestWork_effect:
  assumes laws: "work_laws k view" and run: "applyManifestWork k d w = (w', r)"
  shows "same_except (work_key d) (view w) (view w')
    \<and> (r = None \<longrightarrow> view w' (work_key d) = Some (work_content d))"
  using laws run [unfolded applyManifestWork_def]
proof (rule retry_rule [where P = "\<lambda>v. same_except (work_key d) (view w) (view v)"])
  fix v v' q
  assume "same_except (work_key d) (view w) (view v)" and step: "apply_attempt k d v = (v', q)"
  then show "same_except (work_key d) (view w) (view v')
      \<and> (q = None \<longrightarrow> view v' (work_key d) = Some (work_content d))"
    using apply_attempt_effect [OF laws step] same_except_trans by blast
qed simp

text \<open>C24: applying a ManifestWork that returns no error leaves it stored with the wanted labels and
  manifests, whether it existed before or not and however often a conflict made it start over; an
  apply, failed or not, changes no other ManifestWork.\<close>

theorem applyManifestWork_stores:
  assumes "work_laws k view" "applyManifestWork k desired w = (w', r)"
  shows "(r = None \<longrightarrow> view w' (mw_namespace desired, mw_name desired) = Some (mw_labels desired, mw_manifests desired))
    \<and> (\<forall>key. key \<noteq> (mw_namespace desired, mw_name desired) \<longrightarrow> view w' key = view w key)"
  using applyManifestWork_effect [OF assms] same_exceptD
  unfolding work_key_def work_content_def by metis

definition example_store :: store where
  "example_store = \<lparr>s_works = [(''c1'', ''old'') \<mapsto> (Map.empty, [JNull])], s_urls = Map.empty\<rparr>"

lemma mem_apply: "applyManifestWork mem_kube d s = (mem_put d s, None)"
proof -
  have "mem_put (\<lparr>mw_name = mw_name d, mw_namespace = mw_namespace d, mw_resourceVersion = ''1'',
      mw_labels = mw_labels d, mw_manifests = mw_manifests d\<rparr>) s = mem_put d s"
    by (simp add: mem_put_def work_key_def work_content_def)
  then have "apply_attempt mem_kube d s = (mem_put d s, None)"
    by (auto simp: apply_attempt_def mem_kube_simps mem_get_work_def mem_create_work_def
        mem_update_work_def work_key_def ignore_not_found_def split: option.splits)
  then show ?thesis by (simp add: applyManifestWork_def mem_kube_simps numeral_eq_Suc)
qed

lemma mem_work_name: "list_all is_lower n \<Longrightarrow> n \<noteq> [] \<Longrightarrow> sanitizeManifestWorkName (k_dns1123 mem_kube) n = n"
  by (auto simp: sanitizeManifestWorkName_def mem_kube_def list_all_iff)

lemma applyManifestWork_stores_witness:
  "s_works (fst (applyManifestWork mem_kube (newManifestWork (mem_kube :: store kube) ''c1'' ''old'' [JStr ''m'']) example_store))
     (''c1'', ''old'') = Some ([''app'' \<mapsto> ''l2sm''], [JStr ''m''])"
proof -
  let ?d = "newManifestWork (mem_kube :: store kube) ''c1'' ''old'' [JStr ''m'']"
  have name: "mw_name ?d = ''old''"
    by (simp add: newManifestWork_def mem_work_name is_lower_def code_def)
  show ?thesis
    using applyManifestWork_stores [OF mem_kube_laws mem_apply, of ?d example_store] name
    by (simp add: mem_apply newManifestWork_def)
qed

section \<open>Loops over clusters\<close>

text \<open>A loop whose step for \<open>x\<close> touches only the key of \<open>x\<close> and, without error, leaves it as \<open>c x\<close>.\<close>

lemma for_each_view:
  assumes run: "for_each f xs w = (w', r)"
    and step: "\<And>x v v' q. x \<in> set xs \<Longrightarrow> f x v = (v', q) \<Longrightarrow>
        same_except (key x) (view v) (view v') \<and> (q = None \<longrightarrow> view v' (key x) = c x)"
    and coherent: "\<And>x y. x \<in> set xs \<Longrightarrow> y \<in> set xs \<Longrightarrow> key x = key y \<Longrightarrow> c x = c y"
  shows "\<And>k. k \<notin> key ` set xs \<Longrightarrow> view w' k = view w k"
    and "\<And>x. r = None \<Longrightarrow> x \<in> set xs \<Longrightarrow> view w' (key x) = c x"
proof -
  fix k
  assume k: "k \<notin> key ` set xs"
  show "view w' k = view w k"
    using run
  proof (rule for_each_invariant [where P = "\<lambda>v. view v k = view w k"])
    fix x v v' q
    assume x: "x \<in> set xs" and before: "view v k = view w k" and f: "f x v = (v', q)"
    have "k \<noteq> key x" using k x by blast
    then have "view v' k = view v k" using step [OF x f] by (blast intro: same_exceptD)
    with before show "view v' k = view w k" by simp
  qed simp
next
  fix x
  assume r: "r = None" and x: "x \<in> set xs"
  show "view w' (key x) = c x"
    using run [unfolded r] x
  proof (rule for_each_all [where Inv = "\<lambda>v. True"])
    fix v v'
    assume "f x v = (v', None)"
    then show "view v' (key x) = c x" using step [OF x] by blast
  next
    fix z v v'
    assume z: "z \<in> set xs" and before: "view v (key x) = c x" and f: "f z v = (v', None)"
    show "view v' (key x) = c x"
    proof (cases "key z = key x")
      case True
      then show ?thesis using step [OF z f] coherent [OF z x] by simp
    next
      case False
      then have "view v' (key x) = view v (key x)"
        using step [OF z f] by (intro same_exceptD [of "key z"]) auto
      with before show ?thesis by simp
    qed
  qed simp_all
qed

text \<open>A loop with an error left every earlier element's key as its content, except where the failing
  step worked on the same key.\<close>

lemma for_each_view_error:
  assumes run: "for_each f xs w = (w', Some e)"
    and step: "\<And>x v v' q. x \<in> set xs \<Longrightarrow> f x v = (v', q) \<Longrightarrow>
        same_except (key x) (view v) (view v') \<and> (q = None \<longrightarrow> view v' (key x) = c x)"
    and coherent: "\<And>x y. x \<in> set xs \<Longrightarrow> y \<in> set xs \<Longrightarrow> key x = key y \<Longrightarrow> c x = c y"
  obtains ys x zs w1 where "xs = ys @ x # zs" "f x w1 = (w', Some e)"
    "\<And>y. y \<in> set ys \<Longrightarrow> key y \<noteq> key x \<Longrightarrow> view w' (key y) = c y"
proof -
  obtain ys x zs w1 where xs: "xs = ys @ x # zs" and ys: "for_each f ys w = (w1, None)"
    and x: "f x w1 = (w', Some e)"
    using run by (rule for_each_error_split)
  have fin: "view w1 (key y) = c y" if y: "y \<in> set ys" for y
  proof (rule for_each_view(2) [OF ys _ _ refl y])
    show "same_except (key z) (view v) (view v') \<and> (q = None \<longrightarrow> view v' (key z) = c z)"
      if "z \<in> set ys" "f z v = (v', q)" for z v v' q
      using that xs by (intro step) auto
    show "c z = c u" if "z \<in> set ys" "u \<in> set ys" "key z = key u" for z u
      using that xs by (intro coherent) auto
  qed
  have "view w' (key y) = c y" if y: "y \<in> set ys" "key y \<noteq> key x" for y
  proof -
    have "same_except (key x) (view w1) (view w')" using step [OF _ x] xs by simp
    then have "view w' (key y) = view w1 (key y)" using y(2) by (rule same_exceptD)
    with fin [OF y(1)] show ?thesis by simp
  qed
  with xs x that show thesis by blast
qed

section \<open>Networks\<close>

definition work_name :: "'w kube \<Rightarrow> string \<Rightarrow> string" where
  "work_name k name = sanitizeManifestWorkName (k_dns1123 k) name"

text \<open>What is stored for a manifest: the one label and the one manifest.\<close>

definition deployed :: "json \<Rightarrow> (string \<rightharpoonup> string) \<times> json list" where
  "deployed m = ([''app'' \<mapsto> ''l2sm''], [m])"

text \<open>The L2Network object of a slice network in its namespace.\<close>

definition network_object :: "'w kube \<Rightarrow> slice_network \<Rightarrow> string \<Rightarrow> l2network" where
  "network_object k network namespace =
     \<lparr>l2_typeMeta = \<lparr>tm_kind = ''L2Network'', tm_apiVersion = lib_gv_string (k_lib k) (lib_group_version (k_lib k))\<rparr>,
      l2_meta = empty_meta\<lparr>m_name := net_name network, m_namespace := DefaultIfEmpty namespace ''default''\<rparr>,
      l2_spec = \<lparr>l2s_type = DefaultIfEmpty (sns_type (sn_spec network)) ''vnet'',
                 l2s_provider = sns_provider (sn_spec network),
                 l2s_networkCIDR = [], l2s_podAddressRange = []\<rparr>\<rparr>"

definition result_of :: "string + json \<Rightarrow> json option" where
  "result_of r = (case r of Inl e \<Rightarrow> None | Inr m \<Rightarrow> Some m)"

definition network_content :: "'w kube \<Rightarrow> slice_network \<Rightarrow> string \<Rightarrow> ((string \<rightharpoonup> string) \<times> json list) option" where
  "network_content k network namespace =
     map_option deployed (result_of (toManifest k (ObjL2Network (network_object k network namespace))))"

definition network_key :: "'w kube \<Rightarrow> slice_network \<Rightarrow> string \<Rightarrow> string \<times> string" where
  "network_key k network cluster = (cluster, work_name k (net_name network))"

lemma newManifestWork_key [simp]: "work_key (newManifestWork k c n ms) = (c, work_name k n)"
  by (simp add: newManifestWork_def work_key_def work_name_def)

lemma newManifestWork_content [simp]: "work_content (newManifestWork k c n [m]) = deployed m"
  by (simp add: newManifestWork_def work_content_def deployed_def)

lemma ocm_ApplyNetwork_loop:
  "ocm_ApplyNetwork k network namespace w =
     for_each (apply_network_step k (projr (ConstructL2NetworkFromL2smmd (k_lib k) network))
                 (DefaultIfEmpty namespace ''default''))
       (sns_clusters (sn_spec network)) w"
  by (simp add: ocm_ApplyNetwork_def ConstructL2NetworkFromL2smmd_def)

lemma apply_network_step_effect:
  assumes laws: "work_laws k view"
    and run: "apply_network_step k (projr (ConstructL2NetworkFromL2smmd (k_lib k) network))
        (DefaultIfEmpty namespace ''default'') cluster w = (w', r)"
  shows "same_except (network_key k network cluster) (view w) (view w')
    \<and> (r = None \<longrightarrow> view w' (network_key k network cluster) = network_content k network namespace)"
proof -
  let ?obj = "network_object k network namespace"
  have obj: "(projr (ConstructL2NetworkFromL2smmd (k_lib k) network))\<lparr>l2_meta :=
      (l2_meta (projr (ConstructL2NetworkFromL2smmd (k_lib k) network)))\<lparr>m_namespace := DefaultIfEmpty namespace ''default''\<rparr>\<rparr> = ?obj"
    by (simp add: ConstructL2NetworkFromL2smmd_def network_object_def GetKind_def empty_meta_def)
  have name: "m_name (l2_meta ?obj) = net_name network" by (simp add: network_object_def)
  note run' = run [unfolded apply_network_step_def Let_def obj name]
  show ?thesis
  proof (cases "toManifest k (ObjL2Network ?obj)")
    case (Inl e)
    with run' have "w' = w" "r \<noteq> None" by auto
    then show ?thesis by blast
  next
    case (Inr m)
    obtain w1 q where a: "applyManifestWork k (newManifestWork k cluster (net_name network) [m]) w = (w1, q)"
      by fastforce
    with run' Inr have "w' = w1" "r = None \<longleftrightarrow> q = None" by (auto split: option.splits)
    with applyManifestWork_effect [OF laws a] Inr show ?thesis
      by (simp add: network_key_def network_content_def result_of_def)
  qed
qed

lemma ocm_ApplyNetwork_effect:
  assumes "work_laws k view" "ocm_ApplyNetwork k network namespace w = (w', r)"
  shows "key \<notin> network_key k network ` set (sns_clusters (sn_spec network)) \<Longrightarrow> view w' key = view w key"
    and "r = None \<Longrightarrow> c \<in> set (sns_clusters (sn_spec network)) \<Longrightarrow>
      view w' (network_key k network c) = network_content k network namespace"
  using for_each_view [where view = view and key = "network_key k network"
      and c = "\<lambda>c. network_content k network namespace",
      OF assms(2) [unfolded ocm_ApplyNetwork_loop] apply_network_step_effect [OF assms(1)]]
  by blast+

text \<open>A network that was applied has a manifest: the conversion succeeded.\<close>

lemma ocm_ApplyNetwork_content:
  assumes "ocm_ApplyNetwork k network namespace w = (w', None)" "c \<in> set (sns_clusters (sn_spec network))"
  shows "network_content k network namespace \<noteq> None"
proof (cases "toManifest k (ObjL2Network (network_object k network namespace))")
  case (Inl e)
  have "apply_network_step k (projr (ConstructL2NetworkFromL2smmd (k_lib k) network))
      (DefaultIfEmpty namespace ''default'') x v = (v, Some (L2NetworkManifestFailed x e))" for x v
    using Inl by (simp add: apply_network_step_def Let_def ConstructL2NetworkFromL2smmd_def
        network_object_def GetKind_def empty_meta_def)
  with assms show ?thesis
    unfolding ocm_ApplyNetwork_loop by (cases "sns_clusters (sn_spec network)") auto
next
  case (Inr m)
  then show ?thesis by (simp add: network_content_def result_of_def)
qed

lemma network_content_ok:
  assumes "network_content k network namespace \<noteq> None"
  shows "\<exists>j. toManifest k (ObjL2Network (network_object k network namespace)) = Inr j
    \<and> network_content k network namespace = Some (deployed j)"
  using assms by (cases "toManifest k (ObjL2Network (network_object k network namespace))")
    (simp_all add: network_content_def result_of_def)

section \<open>Deletion\<close>

lemma delete_work_step_effect:
  assumes laws: "work_laws k view" and run: "delete_work_step k name c w = (w', r)"
  shows "same_except (c, name) (view w) (view w') \<and> (r = None \<longrightarrow> view w' (c, name) = None)"
proof -
  obtain w1 q where d: "k_delete_work k c name w = (w1, q)" by fastforce
  with run have "w' = w1" "r = None \<Longrightarrow> ignore_not_found q = None"
    by (auto simp: delete_work_step_def split: option.splits if_splits)
  with delete_lawD [OF laws d] show ?thesis by blast
qed

lemma delete_works_effect:
  assumes "work_laws k view" "for_each (delete_work_step k name) cs w = (w', r)"
  shows "key \<notin> (\<lambda>c. (c, name)) ` set cs \<Longrightarrow> view w' key = view w key"
    and "r = None \<Longrightarrow> c \<in> set cs \<Longrightarrow> view w' (c, name) = None"
  using for_each_view [where view = view and key = "\<lambda>c. (c, name)" and c = "\<lambda>c. None",
      OF assms(2) delete_work_step_effect [OF assms(1)]]
  by blast+

lemma ocm_DeleteNetwork_effect:
  assumes "work_laws k view" "ocm_DeleteNetwork k network namespace w = (w', r)"
  shows "key \<notin> network_key k network ` set (sns_clusters (sn_spec network)) \<Longrightarrow> view w' key = view w key"
    and "r = None \<Longrightarrow> c \<in> set (sns_clusters (sn_spec network)) \<Longrightarrow> view w' (network_key k network c) = None"
  using delete_works_effect [OF assms(1) assms(2) [unfolded ocm_DeleteNetwork_def]]
  unfolding network_key_def work_name_def by blast+

section \<open>Slices\<close>

text \<open>The clusters of a slice: none when it has no topology.\<close>

definition slice_nodes :: "slice_overlay \<Rightarrow> overlay_cluster list" where
  "slice_nodes slc = (case sos_topology (so_spec slc) of None \<Rightarrow> [] | Some t \<Rightarrow> ot_nodes t)"

definition slice_key :: "'w kube \<Rightarrow> slice_overlay \<Rightarrow> string \<Rightarrow> string \<times> string" where
  "slice_key k slc cluster = (cluster, work_name k (overlay_name slc))"

definition slice_keys :: "'w kube \<Rightarrow> slice_overlay \<Rightarrow> (string \<times> string) set" where
  "slice_keys k slc = slice_key k slc ` oc_name ` set (slice_nodes slc)"

lemma ocm_DeleteSlice_effect:
  assumes "work_laws k view" "ocm_DeleteSlice k slc namespace w = (w', r)"
  shows "key \<notin> slice_keys k slc \<Longrightarrow> view w' key = view w key"
    and "r = None \<Longrightarrow> key \<in> slice_keys k slc \<Longrightarrow> view w' key = None"
proof -
  have "(key \<notin> slice_keys k slc \<longrightarrow> view w' key = view w key)
      \<and> (r = None \<longrightarrow> key \<in> slice_keys k slc \<longrightarrow> view w' key = None)"
  proof (cases "sos_topology (so_spec slc)")
    case None
    with assms(2) show ?thesis by (simp add: ocm_DeleteSlice_def slice_keys_def slice_nodes_def)
  next
    case (Some t)
    have keys: "slice_keys k slc
        = (\<lambda>c. (c, sanitizeManifestWorkName (k_dns1123 k) (overlay_name slc))) ` set (getSliceClusterNames (ot_nodes t))"
      using Some by (simp add: slice_keys_def slice_nodes_def slice_key_def getSliceClusterNames_def
          work_name_def image_image)
    from assms(2) Some have run: "for_each
        (delete_work_step k (sanitizeManifestWorkName (k_dns1123 k) (overlay_name slc)))
        (getSliceClusterNames (ot_nodes t)) w = (w', r)" by (simp add: ocm_DeleteSlice_def)
    note eff = delete_works_effect [OF assms(1) run]
    show ?thesis unfolding keys
    proof (intro conjI impI)
      assume "key \<notin> (\<lambda>c. (c, sanitizeManifestWorkName (k_dns1123 k) (overlay_name slc))) ` set (getSliceClusterNames (ot_nodes t))"
      then show "view w' key = view w key" by (rule eff(1))
    next
      assume "r = None"
        "key \<in> (\<lambda>c. (c, sanitizeManifestWorkName (k_dns1123 k) (overlay_name slc))) ` set (getSliceClusterNames (ot_nodes t))"
      then show "view w' key = None" using eff(2) by (elim imageE) simp
    qed
  qed
  then show "key \<notin> slice_keys k slc \<Longrightarrow> view w' key = view w key"
    "r = None \<Longrightarrow> key \<in> slice_keys k slc \<Longrightarrow> view w' key = None" by blast+
qed

definition gateway_address :: "overlay_cluster \<Rightarrow> string" where
  "gateway_address c = (case oc_gateway c of Some g \<Rightarrow> nc_ipAddress g | None \<Rightarrow> [])"

lemma resolve_clusters_Cons:
  assumes "resolve_clusters k (c # cs) maps w = (w', r)"
  obtains (proceed) ip v where
      "resolve_clusters k cs (maps(oc_name c \<mapsto> \<lparr>cfg_nodeName = oc_name c, cfg_ipAddress = ip\<rparr>)) v = (w', r)"
      "gateway_address c \<noteq> [] \<Longrightarrow> ip = gateway_address c"
      "v = w \<or> v = fst (getManagedClusterIPAddress k (oc_name c) w)"
  | (failed) e where "w' = fst (getManagedClusterIPAddress k (oc_name c) w)"
      "r = Inl (ResolveClusterFailed (oc_name c) e)"
proof (cases "gateway_address c = []")
  case True
  obtain w1 q where g: "getManagedClusterIPAddress k (oc_name c) w = (w1, q)" by fastforce
  show thesis
  proof (cases q)
    case (Inl e)
    with assms g True have "w' = w1" "r = Inl (ResolveClusterFailed (oc_name c) e)"
      by (simp_all add: gateway_address_def)
    with g show thesis by (intro failed) simp_all
  next
    case (Inr ip)
    with assms g True
    have "resolve_clusters k cs (maps(oc_name c \<mapsto> \<lparr>cfg_nodeName = oc_name c, cfg_ipAddress = ip\<rparr>)) w1 = (w', r)"
      by (simp add: gateway_address_def)
    then show thesis by (rule proceed) (simp_all add: True g)
  qed
next
  case False
  with assms have "resolve_clusters k cs
      (maps(oc_name c \<mapsto> \<lparr>cfg_nodeName = oc_name c, cfg_ipAddress = gateway_address c\<rparr>)) w = (w', r)"
    by (simp add: gateway_address_def Let_def)
  then show thesis by (rule proceed) simp_all
qed

lemma resolve_clusters_view:
  assumes "work_laws k view"
  shows "resolve_clusters k cs maps w = (w', r) \<Longrightarrow> view w' = view w"
proof (induction cs arbitrary: maps w)
  case Nil
  then show ?case by simp
next
  case (Cons c cs)
  have v: "view (fst (getManagedClusterIPAddress k (oc_name c) w)) = view w"
    by (cases "getManagedClusterIPAddress k (oc_name c) w") (use cluster_ip_view [OF assms] in simp)
  from Cons.prems show ?case
  proof (cases rule: resolve_clusters_Cons)
    case (proceed ip u)
    from Cons.IH [OF proceed(1)] proceed(3) v show ?thesis by auto
  next
    case (failed e)
    with v show ?thesis by simp
  qed
qed

text \<open>The address map has an entry, under its own name, for every cluster and no other.\<close>

lemma resolve_clusters_ok:
  assumes "resolve_clusters k cs maps w = (w', Inr m)"
  shows "dom m = dom maps \<union> oc_name ` set cs"
    and "(\<forall>x c. maps x = Some c \<longrightarrow> cfg_nodeName c = x) \<Longrightarrow> (\<forall>x c. m x = Some c \<longrightarrow> cfg_nodeName c = x)"
    and "x \<notin> oc_name ` set cs \<Longrightarrow> m x = maps x"
proof -
  have "dom m = dom maps \<union> oc_name ` set cs
    \<and> ((\<forall>x c. maps x = Some c \<longrightarrow> cfg_nodeName c = x) \<longrightarrow> (\<forall>x c. m x = Some c \<longrightarrow> cfg_nodeName c = x))
    \<and> (\<forall>x. x \<notin> oc_name ` set cs \<longrightarrow> m x = maps x)"
    using assms
  proof (induction cs arbitrary: maps w)
    case Nil
    then show ?case by simp
  next
    case (Cons c cs)
    let ?put = "\<lambda>ip. maps(oc_name c \<mapsto> \<lparr>cfg_nodeName = oc_name c, cfg_ipAddress = ip\<rparr>)"
    from Cons.prems obtain ip v where "resolve_clusters k cs (?put ip) v = (w', Inr m)"
      by (rule resolve_clusters_Cons) auto
    then have ih: "dom m = dom (?put ip) \<union> oc_name ` set cs"
      "(\<forall>x c. ?put ip x = Some c \<longrightarrow> cfg_nodeName c = x) \<Longrightarrow> (\<forall>x c. m x = Some c \<longrightarrow> cfg_nodeName c = x)"
      "\<And>x. x \<notin> oc_name ` set cs \<Longrightarrow> m x = ?put ip x"
      using Cons.IH by blast+
    have put: "\<forall>x c'. ?put ip x = Some c' \<longrightarrow> cfg_nodeName c' = x"
      if "\<forall>x c. maps x = Some c \<longrightarrow> cfg_nodeName c = x"
      using that by simp
    show ?case
    proof (intro conjI impI)
      show "dom m = dom maps \<union> oc_name ` set (c # cs)" using ih(1) by simp
    next
      assume "\<forall>x c. maps x = Some c \<longrightarrow> cfg_nodeName c = x"
      then show "\<forall>x c. m x = Some c \<longrightarrow> cfg_nodeName c = x" by (intro ih(2) put)
    next
      show "\<forall>x. x \<notin> oc_name ` set (c # cs) \<longrightarrow> m x = maps x" using ih(3) by simp
    qed
  qed
  then show "dom m = dom maps \<union> oc_name ` set cs"
    "(\<forall>x c. maps x = Some c \<longrightarrow> cfg_nodeName c = x) \<Longrightarrow> (\<forall>x c. m x = Some c \<longrightarrow> cfg_nodeName c = x)"
    "x \<notin> oc_name ` set cs \<Longrightarrow> m x = maps x" by blast+
qed

text \<open>With distinct cluster names, a cluster that has a gateway address keeps it.\<close>

lemma resolve_clusters_gateway:
  assumes "resolve_clusters k cs maps w = (w', Inr m)" "distinct (map oc_name cs)"
    and "c \<in> set cs" "gateway_address c \<noteq> []"
  shows "m (oc_name c) = Some \<lparr>cfg_nodeName = oc_name c, cfg_ipAddress = gateway_address c\<rparr>"
  using assms
proof (induction cs arbitrary: maps w)
  case Nil
  then show ?case by simp
next
  case (Cons d cs)
  let ?put = "\<lambda>ip. maps(oc_name d \<mapsto> \<lparr>cfg_nodeName = oc_name d, cfg_ipAddress = ip\<rparr>)"
  from Cons.prems(1) obtain ip v where rest: "resolve_clusters k cs (?put ip) v = (w', Inr m)"
    and ip: "gateway_address d \<noteq> [] \<Longrightarrow> ip = gateway_address d"
    by (rule resolve_clusters_Cons) auto
  show ?case
  proof (cases "c = d")
    case True
    with Cons.prems have "oc_name d \<notin> oc_name ` set cs" "ip = gateway_address c" using ip by auto
    with resolve_clusters_ok(3) [OF rest] True show ?thesis by simp
  next
    case False
    with Cons.prems show ?thesis by (intro Cons.IH [OF rest]) auto
  qed
qed

end
