(* ===== verification/OcmSlice.thy ===== *)
theory OcmSlice
  imports OcmCorrect "HOL-Library.Multiset"
begin

text \<open>
  The slices of the OCM client: what \<open>ApplySlice\<close> stores, that it never panics, and who is whose
  neighbour; then the claims on networks and slices.
\<close>

section \<open>What is stored for a cluster\<close>

definition ned_values :: "(string \<rightharpoonup> NodeConfig) \<Rightarrow> (string \<rightharpoonup> ipnet) \<Rightarrow> overlay_link list \<Rightarrow> string \<Rightarrow> NEDValues" where
  "ned_values maps nodes links name =
     \<lparr>nv_clusterName = name, nv_nodeConfig = None, nv_neighbors = cluster_neighbors maps links name,
      nv_monitoredNodes = nodes\<rparr>"

definition in_namespace :: "string \<Rightarrow> network_edge_device \<Rightarrow> network_edge_device" where
  "in_namespace ns ned = ned\<lparr>ned_meta := (ned_meta ned)\<lparr>m_namespace := ns\<rparr>\<rparr>"

definition slice_content :: "'w kube \<Rightarrow> NEDGenerator \<Rightarrow> (string \<rightharpoonup> ipnet) \<Rightarrow> (string \<rightharpoonup> NodeConfig)
    \<Rightarrow> overlay_link list \<Rightarrow> string \<Rightarrow> string \<Rightarrow> ((string \<rightharpoonup> string) \<times> json list) option" where
  "slice_content k gen nodes maps links ns name =
     (case ConstructNED (k_lib k) gen (ned_values maps nodes links name) of
        None \<Rightarrow> None
      | Some ned \<Rightarrow> map_option deployed (result_of (toManifest k (ObjNED (in_namespace ns ned)))))"

lemma apply_slice_step_effect:
  assumes laws: "work_laws k view"
    and run: "apply_slice_step k gen nodes maps links (overlay_name slc) ns cluster w = (w', r)"
  shows "same_except (slice_key k slc (oc_name cluster)) (view w) (view w')
    \<and> (r = None \<longrightarrow> view w' (slice_key k slc (oc_name cluster))
                      = slice_content k gen nodes maps links ns (oc_name cluster))"
    and "r = None \<Longrightarrow> slice_content k gen nodes maps links ns (oc_name cluster) \<noteq> None"
proof -
  let ?c = "oc_name cluster"
  note run' = run [unfolded apply_slice_step_def ned_values_def [symmetric] in_namespace_def [symmetric] Let_def]
  have "same_except (slice_key k slc ?c) (view w) (view w')
    \<and> (r = None \<longrightarrow> view w' (slice_key k slc ?c) = slice_content k gen nodes maps links ns ?c
         \<and> slice_content k gen nodes maps links ns ?c \<noteq> None)"
  proof (cases "ConstructNED (k_lib k) gen (ned_values maps nodes links ?c)")
    case None
    with run' have "w' = w" "r = Some MDPanic" by simp_all
    then show ?thesis by simp
  next
    case (Some ned)
    note run'' = run' [unfolded Some option.case]
    show ?thesis
    proof (cases "toManifest k (ObjNED (in_namespace ns ned))")
      case (Inl e)
      with run'' have "w' = w" "r = Some (NEDManifestFailed ?c e)" by simp_all
      then show ?thesis by simp
    next
      case (Inr m)
      obtain w1 q where a: "applyManifestWork k (newManifestWork k ?c (overlay_name slc) [m]) w = (w1, q)"
        by fastforce
      with run'' Inr have "w' = w1" "r = None \<longleftrightarrow> q = None" by (auto split: option.splits)
      with applyManifestWork_effect [OF laws a] Inr Some show ?thesis
        by (simp add: slice_key_def slice_content_def result_of_def)
    qed
  qed
  then show "same_except (slice_key k slc ?c) (view w) (view w')
      \<and> (r = None \<longrightarrow> view w' (slice_key k slc ?c) = slice_content k gen nodes maps links ns ?c)"
    "r = None \<Longrightarrow> slice_content k gen nodes maps links ns ?c \<noteq> None" by blast+
qed

text \<open>The stages a call of \<open>ApplySlice\<close> went through.\<close>

lemma ocm_ApplySlice_cases:
  assumes "ocm_ApplySlice k slc namespace w = (w', r)"
  obtains (no_topology) "sos_topology (so_spec slc) = None" "w' = w"
      "r = Some (SliceWithoutTopology (overlay_name slc))"
  | (unresolved) t e where "sos_topology (so_spec slc) = Some t"
      "resolve_clusters k (ot_nodes t) Map.empty w = (w', Inl e)" "r = Some e"
  | (unallocated) t maps e where "sos_topology (so_spec slc) = Some t"
      "resolve_clusters k (ot_nodes t) Map.empty w = (w', Inr maps)"
      "slice_monitoring k slc (ot_nodes t) = Some (Inl e)"
      "r = Some (MonitoringAllocationFailed (overlay_name slc) e)"
  | (applied) t maps gen nodes w1 where "sos_topology (so_spec slc) = Some t"
      "resolve_clusters k (ot_nodes t) Map.empty w = (w1, Inr maps)"
      "slice_monitoring k slc (ot_nodes t) = Some (Inr (gen, nodes))"
      "for_each (apply_slice_step k gen nodes maps (slice_links t) (overlay_name slc)
          (DefaultIfEmpty namespace ''he-codeco-netma'')) (ot_nodes t) w1 = (w', r)"
proof (cases "sos_topology (so_spec slc)")
  case None
  with assms show thesis by (intro no_topology) (simp_all add: ocm_ApplySlice_def)
next
  case (Some t)
  obtain w1 q where res: "resolve_clusters k (ot_nodes t) Map.empty w = (w1, q)" by fastforce
  show thesis
  proof (cases q)
    case (Inl e)
    with assms Some res show thesis by (intro unresolved) (auto simp: ocm_ApplySlice_def)
  next
    case (Inr maps)
    have "slice_monitoring k slc (ot_nodes t) \<noteq> None"
      using allocate_no_panic by (simp add: slice_monitoring_def Let_def split: option.splits)
    then obtain s where s: "slice_monitoring k slc (ot_nodes t) = Some s" by blast
    show thesis
    proof (cases s)
      case (Inl e)
      with assms Some res Inr s show thesis
        by (intro unallocated) (auto simp: ocm_ApplySlice_def)
    next
      case right: (Inr p)
      obtain gen nodes where "p = (gen, nodes)" by (cases p)
      with assms Some res Inr s right show thesis
        by (intro applied) (auto simp: ocm_ApplySlice_def)
    qed
  qed
qed

lemma slice_keys_topology:
  "sos_topology (so_spec slc) = Some t
     \<Longrightarrow> slice_keys k slc = (\<lambda>c. slice_key k slc (oc_name c)) ` set (ot_nodes t)"
  by (simp add: slice_keys_def slice_nodes_def image_image)

lemma ocm_ApplySlice_frame:
  assumes laws: "work_laws k view" and run: "ocm_ApplySlice k slc namespace w = (w', r)"
    and key: "key \<notin> slice_keys k slc"
  shows "view w' key = view w key"
  using run
proof (cases rule: ocm_ApplySlice_cases)
  case no_topology
  then show ?thesis by simp
next
  case (unresolved t e)
  from resolve_clusters_view [OF laws unresolved(2)] show ?thesis by simp
next
  case (unallocated t maps e)
  from resolve_clusters_view [OF laws unallocated(2)] show ?thesis by simp
next
  case (applied t maps gen nodes w1)
  have "view w' key = view w1 key"
  proof (rule for_each_view(1) [where view = view and key = "\<lambda>c. slice_key k slc (oc_name c)"
        and c = "\<lambda>c. slice_content k gen nodes maps (slice_links t) (DefaultIfEmpty namespace ''he-codeco-netma'') (oc_name c)",
        OF applied(4) apply_slice_step_effect(1) [OF laws]])
    show "key \<notin> (\<lambda>c. slice_key k slc (oc_name c)) ` set (ot_nodes t)"
      using key applied(1) by (simp add: slice_keys_topology)
  qed (auto simp: slice_key_def)
  with resolve_clusters_view [OF laws applied(2)] show ?thesis by simp
qed

lemma ocm_ApplySlice_ok:
  assumes laws: "work_laws k view" and run: "ocm_ApplySlice k slc namespace w = (w', None)"
  obtains t maps gen nodes w1 where "sos_topology (so_spec slc) = Some t"
    "resolve_clusters k (ot_nodes t) Map.empty w = (w1, Inr maps)"
    "slice_monitoring k slc (ot_nodes t) = Some (Inr (gen, nodes))"
    "\<And>c. c \<in> set (ot_nodes t) \<Longrightarrow> view w' (slice_key k slc (oc_name c))
        = slice_content k gen nodes maps (slice_links t) (DefaultIfEmpty namespace ''he-codeco-netma'') (oc_name c)
      \<and> slice_content k gen nodes maps (slice_links t) (DefaultIfEmpty namespace ''he-codeco-netma'') (oc_name c) \<noteq> None"
  using run
proof (cases rule: ocm_ApplySlice_cases)
  case (applied t maps gen nodes w1)
  have "view w' (slice_key k slc (oc_name c))
        = slice_content k gen nodes maps (slice_links t) (DefaultIfEmpty namespace ''he-codeco-netma'') (oc_name c)"
    if "c \<in> set (ot_nodes t)" for c
    by (rule for_each_view(2) [where view = view and key = "\<lambda>c. slice_key k slc (oc_name c)"
        and c = "\<lambda>c. slice_content k gen nodes maps (slice_links t) (DefaultIfEmpty namespace ''he-codeco-netma'') (oc_name c)",
        OF applied(4) apply_slice_step_effect(1) [OF laws] _ refl that])
       (auto simp: slice_key_def)
  moreover have "slice_content k gen nodes maps (slice_links t) (DefaultIfEmpty namespace ''he-codeco-netma'') (oc_name c) \<noteq> None"
    if c: "c \<in> set (ot_nodes t)" for c
    by (rule for_each_all [where Inv = "\<lambda>v. True", OF applied(4) c])
       (use apply_slice_step_effect(2) [OF laws] in blast)+
  ultimately show thesis using applied that by blast
qed auto

section \<open>Neighbours\<close>

fun neighbor_names :: "overlay_link list \<Rightarrow> string \<Rightarrow> string list" where
  "neighbor_names [] a = []"
| "neighbor_names (l # ls) a =
     (if a = ol_endpointA l then [ol_endpointB l]
      else if a = ol_endpointB l then [ol_endpointA l] else []) @ neighbor_names ls a"

lemma neighbor_names_append: "neighbor_names (ls @ ms) a = neighbor_names ls a @ neighbor_names ms a"
  by (induction ls) auto

lemma cluster_neighbors_map: "cluster_neighbors maps links a = map (neighbor_at maps) (neighbor_names links a)"
  by (induction links) (auto simp: cluster_neighbors_def)

lemma neighbor_names_iff:
  "b \<in> set (neighbor_names links a) \<longleftrightarrow>
     (\<exists>l. l \<in> set links \<and> (a = ol_endpointA l \<and> b = ol_endpointB l
                        \<or> a \<noteq> ol_endpointA l \<and> a = ol_endpointB l \<and> b = ol_endpointA l))"
  by (induction links) auto

lemma neighbor_names_sym: "b \<in> set (neighbor_names links a) \<longleftrightarrow> a \<in> set (neighbor_names links b)"
  unfolding neighbor_names_iff by (rule iff_exI) auto

lemma neighbor_names_mesh_absent: "a \<notin> set xs \<Longrightarrow> neighbor_names (mesh_pairs xs) a = []"
proof (induction xs)
  case Nil
  then show ?case by simp
next
  case (Cons x xs)
  have "neighbor_names (map (\<lambda>y. \<lparr>ol_endpointA = x, ol_endpointB = y\<rparr>) ys) a = []" if "a \<notin> set (x # ys)" for ys
    using that by (induction ys) auto
  with Cons show ?case by (simp add: neighbor_names_append)
qed

lemma neighbor_names_star_center:
  "neighbor_names (map (\<lambda>y. \<lparr>ol_endpointA = x, ol_endpointB = y\<rparr>) ys) x = ys"
  by (induction ys) auto

lemma neighbor_names_star_leaf:
  "a \<noteq> x \<Longrightarrow> distinct ys \<Longrightarrow>
     neighbor_names (map (\<lambda>y. \<lparr>ol_endpointA = x, ol_endpointB = y\<rparr>) ys) a = (if a \<in> set ys then [x] else [])"
  by (induction ys) auto

text \<open>In the full mesh the neighbours of a cluster are all the other clusters, each once.\<close>

lemma neighbor_names_mesh:
  "distinct xs \<Longrightarrow> a \<in> set xs \<Longrightarrow> mset (neighbor_names (mesh_pairs xs) a) = mset (remove1 a xs)"
proof (induction xs)
  case Nil
  then show ?case by simp
next
  case (Cons x xs)
  show ?case
  proof (cases "a = x")
    case True
    with Cons.prems show ?thesis
      by (simp add: neighbor_names_append neighbor_names_star_center neighbor_names_mesh_absent)
  next
    case False
    with Cons show ?thesis by (simp add: neighbor_names_append neighbor_names_star_leaf)
  qed
qed

lemma neighbor_at_known:
  assumes "\<forall>x c. maps x = Some c \<longrightarrow> cfg_nodeName c = x" "x \<in> dom maps"
  shows "ngh_node (neighbor_at maps x) = x"
    and "maps x = Some \<lparr>cfg_nodeName = x, cfg_ipAddress = ngh_domain (neighbor_at maps x)\<rparr>"
  using assms by (auto simp: neighbor_at_def Let_def)

lemma resolved_maps:
  assumes "resolve_clusters k cs Map.empty w = (w', Inr maps)"
  shows "dom maps = oc_name ` set cs" and "\<forall>x c. maps x = Some c \<longrightarrow> cfg_nodeName c = x"
  using resolve_clusters_ok(1,2) [OF assms] by simp_all

lemma neighbor_nodes:
  assumes res: "resolve_clusters k (ot_nodes t) Map.empty w = (w', Inr maps)"
    and known: "set (neighbor_names links a) \<subseteq> oc_name ` set (ot_nodes t)"
  shows "map ngh_node (cluster_neighbors maps links a) = neighbor_names links a"
  using known neighbor_at_known(1) [OF resolved_maps(2) [OF res]] resolved_maps(1) [OF res]
  unfolding cluster_neighbors_map map_map by (intro map_idI) auto

text \<open>Without links in the topology, the links are the full mesh.\<close>

lemma slice_links_mesh:
  assumes "ot_links t = []"
  shows "slice_links t = mesh_pairs (map oc_name (ot_nodes t))"
proof (cases "length (ot_nodes t) > 1")
  case True
  with assms show ?thesis by (simp add: slice_links_def GenerateTopology_mesh_pairs getSliceClusterNames_def)
next
  case False
  with assms show ?thesis by (cases "ot_nodes t") (auto simp: slice_links_def)
qed

lemma mesh_neighbors:
  assumes "ot_links t = []" "distinct (map oc_name (ot_nodes t))" "a \<in> oc_name ` set (ot_nodes t)"
  shows "mset (neighbor_names (slice_links t) a) = mset (remove1 a (map oc_name (ot_nodes t)))"
    and "set (neighbor_names (slice_links t) a) \<subseteq> oc_name ` set (ot_nodes t)"
proof -
  show m: "mset (neighbor_names (slice_links t) a) = mset (remove1 a (map oc_name (ot_nodes t)))"
    unfolding slice_links_mesh [OF assms(1)] using assms by (intro neighbor_names_mesh) auto
  then show "set (neighbor_names (slice_links t) a) \<subseteq> oc_name ` set (ot_nodes t)"
    using set_remove1_subset [of a "map oc_name (ot_nodes t)"] by (metis set_mset_mset list.set_map)
qed

text \<open>The neighbours of a cluster, link by link.\<close>

lemma cluster_neighbors_filter:
  "cluster_neighbors maps links a =
     map (\<lambda>l. neighbor_at maps (if ol_endpointA l = a then ol_endpointB l else ol_endpointA l))
       (filter (\<lambda>l. ol_endpointA l = a \<or> ol_endpointB l = a) links)"
  by (induction links) (auto simp: cluster_neighbors_def)

lemma neighbor_at_resolved:
  assumes "\<forall>x c. maps x = Some c \<longrightarrow> cfg_nodeName c = x"
  shows "neighbor_at maps x = (case maps x of
      Some c \<Rightarrow> \<lparr>ngh_node = x, ngh_domain = cfg_ipAddress c\<rparr> | None \<Rightarrow> \<lparr>ngh_node = [], ngh_domain = []\<rparr>)"
  using assms by (auto simp: neighbor_at_def zero_NodeConfig_def Let_def split: option.split)

lemma slice_links_given: "ot_links t \<noteq> [] \<Longrightarrow> slice_links t = ot_links t"
  by (simp add: slice_links_def)

text \<open>C14: the neighbours \<open>ApplySlice\<close> gives a cluster, once the addresses of the clusters are resolved. The
  resolved names are those of the slice's clusters. A cluster has exactly one neighbour for each link that
  has it at either end, in the order of the links: the cluster at the other end, by its name and with its
  resolved address, or, when the other end is no cluster of the slice, a neighbour with an empty name and
  an empty address. The resolved address is the gateway address when the cluster names one (cluster names
  being distinct). The links are the given ones when there are any; when every endpoint is a cluster, being
  a neighbour is symmetric; and for a slice without links, whose cluster names are distinct, the neighbours
  of a cluster are all the other clusters, each exactly once.\<close>

theorem slice_neighbors:
  assumes "resolve_clusters k (ot_nodes t) Map.empty w = (w', Inr maps)"
  shows "dom maps = oc_name ` set (ot_nodes t)
    \<and> (\<forall>a. cluster_neighbors maps (slice_links t) a =
          map (\<lambda>l. let other = (if ol_endpointA l = a then ol_endpointB l else ol_endpointA l) in
                 case maps other of
                   Some c \<Rightarrow> \<lparr>ngh_node = other, ngh_domain = cfg_ipAddress c\<rparr>
                 | None \<Rightarrow> \<lparr>ngh_node = [], ngh_domain = []\<rparr>)
            (filter (\<lambda>l. ol_endpointA l = a \<or> ol_endpointB l = a) (slice_links t)))
    \<and> (\<forall>c. distinct (map oc_name (ot_nodes t)) \<longrightarrow> c \<in> set (ot_nodes t) \<longrightarrow> gateway_address c \<noteq> [] \<longrightarrow>
          maps (oc_name c) = Some \<lparr>cfg_nodeName = oc_name c, cfg_ipAddress = gateway_address c\<rparr>)
    \<and> (ot_links t \<noteq> [] \<longrightarrow> slice_links t = ot_links t)
    \<and> ((\<forall>l. l \<in> set (slice_links t) \<longrightarrow> ol_endpointA l \<in> oc_name ` set (ot_nodes t)
              \<and> ol_endpointB l \<in> oc_name ` set (ot_nodes t)) \<longrightarrow>
         (\<forall>a b. b \<in> ngh_node ` set (cluster_neighbors maps (slice_links t) a)
             \<longleftrightarrow> a \<in> ngh_node ` set (cluster_neighbors maps (slice_links t) b)))
    \<and> (\<forall>a. ot_links t = [] \<longrightarrow> distinct (map oc_name (ot_nodes t)) \<longrightarrow> a \<in> oc_name ` set (ot_nodes t) \<longrightarrow>
          mset (map ngh_node (cluster_neighbors maps (slice_links t) a))
            = mset (remove1 a (map oc_name (ot_nodes t))))"
proof (intro conjI allI impI)
  note maps = resolved_maps [OF assms]
  show "dom maps = oc_name ` set (ot_nodes t)" by (rule maps(1))
  show "cluster_neighbors maps (slice_links t) a =
      map (\<lambda>l. let other = (if ol_endpointA l = a then ol_endpointB l else ol_endpointA l) in
             case maps other of
               Some c \<Rightarrow> \<lparr>ngh_node = other, ngh_domain = cfg_ipAddress c\<rparr>
             | None \<Rightarrow> \<lparr>ngh_node = [], ngh_domain = []\<rparr>)
        (filter (\<lambda>l. ol_endpointA l = a \<or> ol_endpointB l = a) (slice_links t))" for a
    unfolding cluster_neighbors_filter neighbor_at_resolved [OF maps(2)] Let_def ..
  show "ot_links t \<noteq> [] \<Longrightarrow> slice_links t = ot_links t" by (rule slice_links_given)
next
  fix c
  assume "distinct (map oc_name (ot_nodes t))" "c \<in> set (ot_nodes t)" "gateway_address c \<noteq> []"
  then show "maps (oc_name c) = Some \<lparr>cfg_nodeName = oc_name c, cfg_ipAddress = gateway_address c\<rparr>"
    by (rule resolve_clusters_gateway [OF assms])
next
  fix a b
  assume ends: "\<forall>l. l \<in> set (slice_links t) \<longrightarrow> ol_endpointA l \<in> oc_name ` set (ot_nodes t)
              \<and> ol_endpointB l \<in> oc_name ` set (ot_nodes t)"
  have "set (neighbor_names (slice_links t) x) \<subseteq> oc_name ` set (ot_nodes t)" for x
    using ends by (auto simp: neighbor_names_iff)
  from arg_cong [OF neighbor_nodes [OF assms this], of set]
  have "ngh_node ` set (cluster_neighbors maps (slice_links t) x) = set (neighbor_names (slice_links t) x)" for x by simp
  then show "b \<in> ngh_node ` set (cluster_neighbors maps (slice_links t) a)
      \<longleftrightarrow> a \<in> ngh_node ` set (cluster_neighbors maps (slice_links t) b)"
    using neighbor_names_sym by simp
next
  fix a
  assume "ot_links t = []" "distinct (map oc_name (ot_nodes t))" "a \<in> oc_name ` set (ot_nodes t)"
  note mesh = mesh_neighbors [OF this]
  show "mset (map ngh_node (cluster_neighbors maps (slice_links t) a)) = mset (remove1 a (map oc_name (ot_nodes t)))"
    unfolding neighbor_nodes [OF assms mesh(2)] by (rule mesh(1))
qed

section \<open>No panic\<close>

lemma slice_monitoring_ok:
  "slice_monitoring k slc cs = Some (Inr (gen, nodes)) \<Longrightarrow> nodes = Map.empty \<or> ng_monitoring gen \<noteq> None"
  by (cases "sos_monitoring (so_spec slc)";
      cases "allocateMonitoringNodeIPs (monitoring_cidr (the (sos_monitoring (so_spec slc)))) cs";
      cases "the (allocateMonitoringNodeIPs (monitoring_cidr (the (sos_monitoring (so_spec slc)))) cs)")
     (auto simp: slice_monitoring_def Let_def)

lemma apply_slice_step_no_panic:
  assumes "nodes = Map.empty \<or> ng_monitoring gen \<noteq> None"
    and "apply_slice_step k gen nodes maps links name ns cluster w = (w', r)"
  shows "r \<noteq> Some MDPanic"
proof -
  have "ConstructNED (k_lib k) gen \<lparr>nv_clusterName = oc_name cluster, nv_nodeConfig = None,
      nv_neighbors = cluster_neighbors maps links (oc_name cluster), nv_monitoredNodes = nodes\<rparr> \<noteq> None"
    using assms(1) by (auto simp: ConstructNED_panics)
  with assms(2) show ?thesis
    by (auto simp: apply_slice_step_def Let_def split: option.splits sum.splits prod.splits)
qed

lemma resolve_clusters_error:
  "resolve_clusters k cs maps w = (w', Inl e) \<Longrightarrow> \<exists>c e'. e = ResolveClusterFailed c e'"
proof (induction cs arbitrary: maps w)
  case Nil
  then show ?case by simp
next
  case (Cons c cs)
  from Cons.prems show ?case
    by (cases rule: resolve_clusters_Cons) (auto dest: Cons.IH)
qed

lemma ocm_ApplySlice_no_panic:
  assumes "ocm_ApplySlice k slc namespace w = (w', r)"
  shows "r \<noteq> Some MDPanic"
  using assms
proof (cases rule: ocm_ApplySlice_cases)
  case (unresolved t e)
  then show ?thesis using resolve_clusters_error by fastforce
next
  case (applied t maps gen nodes w1)
  show ?thesis
  proof
    assume "r = Some MDPanic"
    from applied(4) [unfolded this] obtain x v where
      "apply_slice_step k gen nodes maps (slice_links t) (overlay_name slc)
          (DefaultIfEmpty namespace ''he-codeco-netma'') x v = (w', Some MDPanic)"
      by (rule for_each_error_split) (rule that)
    from apply_slice_step_no_panic [OF slice_monitoring_ok [OF applied(3)] this] show False by simp
  qed
qed simp_all

section \<open>A slice with gateways, for the witnesses\<close>

definition example_topology :: overlay_topology where
  "example_topology = \<lparr>ot_nodes = [\<lparr>oc_name = ''a'', oc_gateway = Some \<lparr>nc_nodeName = ''n'', nc_ipAddress = ''10.9.0.1''\<rparr>\<rparr>,
      \<lparr>oc_name = ''b'', oc_gateway = Some \<lparr>nc_nodeName = ''n'', nc_ipAddress = ''10.9.0.2''\<rparr>\<rparr>], ot_links = []\<rparr>"

definition example_slice :: slice_overlay where
  "example_slice = \<lparr>so_typeMeta = \<lparr>tm_kind = [], tm_apiVersion = []\<rparr>, so_meta = empty_meta\<lparr>m_name := ''slc''\<rparr>,
     so_spec = \<lparr>sos_providerRef = None, sos_provider = None, sos_switchTemplate = None,
        sos_topology = Some example_topology, sos_monitoring = None\<rparr>,
     so_status = empty_overlay_status\<rparr>"

definition example_network :: slice_network where
  "example_network = \<lparr>sn_typeMeta = \<lparr>tm_kind = [], tm_apiVersion = []\<rparr>, sn_meta = empty_meta\<lparr>m_name := ''net''\<rparr>,
     sn_spec = \<lparr>sns_clusters = [''a'', ''b''], sns_type = [], sns_providerRef = None, sns_provider = None\<rparr>,
     sn_status = empty_network_status\<rparr>"

definition example_maps :: "string \<rightharpoonup> NodeConfig" where
  "example_maps = [''a'' \<mapsto> \<lparr>cfg_nodeName = ''a'', cfg_ipAddress = ''10.9.0.1''\<rparr>,
     ''b'' \<mapsto> \<lparr>cfg_nodeName = ''b'', cfg_ipAddress = ''10.9.0.2''\<rparr>]"

lemma example_resolved:
  "resolve_clusters mem_kube (ot_nodes example_topology) Map.empty s = (s, Inr example_maps)"
  by (simp add: example_topology_def example_maps_def)

lemma mem_apply_slice_step:
  "apply_slice_step (mem_kube :: 'a store_scheme kube) (NewNEDGenerator env c) Map.empty maps links name ns cluster s = (s', r) \<Longrightarrow> r = None"
proof -
  assume run: "apply_slice_step (mem_kube :: 'a store_scheme kube) (NewNEDGenerator env c) Map.empty maps links name ns cluster s = (s', r)"
  obtain ned where "ConstructNED (k_lib (mem_kube :: 'a store_scheme kube)) (NewNEDGenerator env c) \<lparr>nv_clusterName = oc_name cluster,
      nv_nodeConfig = None, nv_neighbors = cluster_neighbors maps links (oc_name cluster), nv_monitoredNodes = Map.empty\<rparr> = Some ned"
    by (simp add: ConstructNED_def Let_def)
  moreover have "toManifest (mem_kube :: 'a store_scheme kube) ob \<noteq> Inl e" for ob e by (simp add: toManifest_def mem_kube_def)
  ultimately show ?thesis using run by (auto simp: apply_slice_step_def mem_apply Let_def split: sum.splits)
qed

lemma mem_apply_slice_steps:
  "\<exists>w'. for_each (apply_slice_step (mem_kube :: 'a store_scheme kube) (NewNEDGenerator env c) Map.empty maps links name ns) cs w = (w', None)"
proof -
  have "snd (apply_slice_step (mem_kube :: 'a store_scheme kube) (NewNEDGenerator env c) Map.empty maps links name ns x v) = None" for x v
    using mem_apply_slice_step by (metis prod.collapse)
  then have "snd (for_each (apply_slice_step (mem_kube :: 'a store_scheme kube) (NewNEDGenerator env c) Map.empty maps links name ns) cs w) = None"
    by (rule for_each_total)
  then show ?thesis by (metis prod.collapse)
qed

lemma mem_apply_slice:
  assumes "sos_topology (so_spec s) = Some example_topology" "sos_monitoring (so_spec s) = None"
  shows "\<exists>w'. ocm_ApplySlice mem_kube s ns w = (w', None)"
  using assms mem_apply_slice_steps
  by (simp add: ocm_ApplySlice_def example_resolved slice_monitoring_def Let_def)

lemma mem_apply_network: "\<exists>w'. ocm_ApplyNetwork mem_kube n ns w = (w', None)"
proof -
  have "snd (ocm_ApplyNetwork mem_kube n ns w) = None"
    by (simp add: ocm_ApplyNetwork_def ConstructL2NetworkFromL2smmd_def Let_def)
       (intro for_each_total, simp add: apply_network_step_def mem_apply toManifest_def Let_def
          mem_kube_def [THEN arg_cong, of k_to_unstructured])
  then show ?thesis by (metis prod.collapse)
qed

lemma example_slice_applies: "\<exists>s'. ocm_ApplySlice mem_kube example_slice [] s = (s', None)"
  by (rule mem_apply_slice) (simp_all add: example_slice_def)

lemma example_network_applies: "\<exists>s'. ocm_ApplyNetwork mem_kube example_network [] s = (s', None)"
  by (rule mem_apply_network)

lemma slice_neighbors_witness:
  "mset (map ngh_node (cluster_neighbors example_maps (slice_links example_topology) ''a'')) = {#''b''#}"
  using slice_neighbors [OF example_resolved, THEN conjunct2, THEN conjunct2, THEN conjunct2, THEN conjunct2, THEN conjunct2,
      THEN spec, of "''a''"] by (simp add: example_topology_def)

section \<open>Claims\<close>

text \<open>C15: \<open>ApplyNetwork\<close>, when it reports success, has stored on every cluster of the network one
  ManifestWork, labelled as the program's, whose only manifest is the L2Network of the slice network
  in the given namespace (\<open>default\<close> when empty), of the network's type (\<open>vnet\<close> when empty) and with its
  provider; when it reports an error it has stored the ones of the clusters before the failing one;
  and in either case it changed no other ManifestWork.\<close>

theorem ocm_ApplyNetwork_deploys:
  assumes "work_laws k view" "ocm_ApplyNetwork k network namespace w = (w', r)"
  shows "(r = None \<longrightarrow> (\<forall>c. c \<in> set (sns_clusters (sn_spec network)) \<longrightarrow>
            (\<exists>m. toManifest k (ObjL2Network (network_object k network namespace)) = Inr m
               \<and> view w' (c, work_name k (net_name network)) = Some ([''app'' \<mapsto> ''l2sm''], [m]))))
    \<and> (r \<noteq> None \<longrightarrow> (\<exists>ys x zs. sns_clusters (sn_spec network) = ys @ x # zs
          \<and> (\<forall>c. c \<in> set ys \<longrightarrow> c \<noteq> x \<longrightarrow>
               view w' (c, work_name k (net_name network)) = network_content k network namespace)))
    \<and> (\<forall>c n. c \<notin> set (sns_clusters (sn_spec network)) \<or> n \<noteq> work_name k (net_name network) \<longrightarrow>
          view w' (c, n) = view w (c, n))"
proof (intro conjI allI impI)
  fix c
  assume r: "r = None" and c: "c \<in> set (sns_clusters (sn_spec network))"
  have "network_content k network namespace \<noteq> None"
    using assms(2) c unfolding r by (rule ocm_ApplyNetwork_content)
  then obtain m where m: "toManifest k (ObjL2Network (network_object k network namespace)) = Inr m"
    by (auto simp: network_content_def result_of_def split: sum.splits)
  have "view w' (network_key k network c) = network_content k network namespace"
    using assms r c by (rule ocm_ApplyNetwork_effect(2))
  with m show "\<exists>m. toManifest k (ObjL2Network (network_object k network namespace)) = Inr m
      \<and> view w' (c, work_name k (net_name network)) = Some ([''app'' \<mapsto> ''l2sm''], [m])"
    by (simp add: network_key_def network_content_def result_of_def deployed_def)
next
  assume "r \<noteq> None"
  then obtain e where r: "r = Some e" by blast
  show "\<exists>ys x zs. sns_clusters (sn_spec network) = ys @ x # zs \<and> (\<forall>c. c \<in> set ys \<longrightarrow> c \<noteq> x \<longrightarrow>
      view w' (c, work_name k (net_name network)) = network_content k network namespace)"
    by (rule for_each_view_error [where view = view and key = "network_key k network"
          and c = "\<lambda>c. network_content k network namespace",
          OF assms(2) [unfolded ocm_ApplyNetwork_loop r] apply_network_step_effect [OF assms(1)]])
       (auto simp: network_key_def)
next
  fix c n
  assume "c \<notin> set (sns_clusters (sn_spec network)) \<or> n \<noteq> work_name k (net_name network)"
  then show "view w' (c, n) = view w (c, n)"
    by (intro ocm_ApplyNetwork_effect(1) [OF assms]) (auto simp: network_key_def)
qed

lemma ocm_ApplyNetwork_deploys_witness:
  "s_works (fst (ocm_ApplyNetwork mem_kube example_network [] example_store)) (''b'', ''net'')
     = Some ([''app'' \<mapsto> ''l2sm''], [JStr ''net''])"
proof -
  obtain s' where run: "ocm_ApplyNetwork mem_kube example_network [] example_store = (s', None)"
    using example_network_applies by blast
  have "work_name (mem_kube :: store kube) ''net'' = ''net''"
    by (simp add: work_name_def mem_work_name is_lower_def code_def)
  then show ?thesis
    using ocm_ApplyNetwork_deploys [OF mem_kube_laws run] run
    by (simp add: example_network_def toManifest_def mem_kube_def network_object_def)
qed

lemma ned_values_node:
  "ConstructNED lib gen (ned_values maps nodes links c) = Some ned \<Longrightarrow> neds_nodeConfig (ned_spec ned) = None"
  by (simp add: ConstructNED_node ned_values_def)

text \<open>What every device of a slice has: no node configuration, whatever the gateways say, and of the provider
  its name and its first domain.\<close>

lemma slice_device:
  assumes mon: "slice_monitoring k slc cs = Some (Inr (gen, nodes))"
    and ned: "ConstructNED lib gen (ned_values maps nodes links c) = Some ned"
  shows "neds_nodeConfig (ned_spec ned) = None"
    and "m_name (ned_meta ned) = ps_name (case sos_provider (so_spec slc) of None \<Rightarrow> empty_provider | Some p \<Rightarrow> p) @ ''-ned''"
    and "map_option ps_domain (neds_provider (ned_spec ned)) =
      Some [case ps_domain (case sos_provider (so_spec slc) of None \<Rightarrow> empty_provider | Some p \<Rightarrow> p) of [] \<Rightarrow> [] | d # ds \<Rightarrow> d]"
proof -
  have "\<exists>m. gen = provider_generator (k_env k) (provider_controller (sos_provider (so_spec slc))) m"
  proof (cases "sos_monitoring (so_spec slc)")
    case None
    with mon show ?thesis
      by (auto simp: slice_monitoring_def provider_generator_def Let_def intro: exI [of _ None])
  next
    case (Some m)
    with mon show ?thesis
      by (cases "allocateMonitoringNodeIPs (monitoring_cidr m) cs"; cases "the (allocateMonitoringNodeIPs (monitoring_cidr m) cs)")
         (auto simp: slice_monitoring_def provider_generator_def Let_def)
  qed
  then obtain m where gen: "gen = provider_generator (k_env k) (provider_controller (sos_provider (so_spec slc))) m" by blast
  show "neds_nodeConfig (ned_spec ned) = None" by (rule ned_values_node [OF ned])
  show "m_name (ned_meta ned) = ps_name (case sos_provider (so_spec slc) of None \<Rightarrow> empty_provider | Some p \<Rightarrow> p) @ ''-ned''"
    using ConstructNED_identity [OF ned] by (simp add: gen provider_generator_def provider_controller_def Let_def)
  show "map_option ps_domain (neds_provider (ned_spec ned)) =
      Some [case ps_domain (case sos_provider (so_spec slc) of None \<Rightarrow> empty_provider | Some p \<Rightarrow> p) of [] \<Rightarrow> [] | d # ds \<Rightarrow> d]"
    using ConstructNED_rest [OF ned]
    by (simp add: gen provider_generator_def provider_controller_def firstProviderDomain_def Let_def split: list.split option.split)
qed

text \<open>C13: \<open>ApplySlice\<close>, when it reports success, has resolved an address for every cluster and stored on
  every cluster one ManifestWork whose only manifest is that cluster's network edge device: built with
  the slice's provider (ports defaulted), the links of the topology (the full mesh when it has none),
  the neighbours described above and, when the slice is monitored, the allocated addresses, in the given
  namespace (\<open>he-codeco-netma\<close> when empty). It is named after the provider, and of the provider's domains
  it carries the first only. It carries no node configuration: the comment on \<open>Gateway\<close> in
  \<open>sliceoverlay_types.go\<close> announces the gateway there, but the code only gives it to the neighbours. Whatever it reports, it changed no other ManifestWork; and
  it never panics: a cluster is monitored only when the generator has the monitoring spec.\<close>

theorem ocm_ApplySlice_deploys:
  assumes "work_laws k view" "ocm_ApplySlice k slc namespace w = (w', r)"
  shows "(r = None \<longrightarrow> (\<exists>t maps gen nodes w1. sos_topology (so_spec slc) = Some t
        \<and> resolve_clusters k (ot_nodes t) Map.empty w = (w1, Inr maps)
        \<and> slice_monitoring k slc (ot_nodes t) = Some (Inr (gen, nodes))
        \<and> (\<forall>c. c \<in> set (ot_nodes t) \<longrightarrow> (\<exists>ned m.
              ConstructNED (k_lib k) gen (ned_values maps nodes (slice_links t) (oc_name c)) = Some ned
            \<and> neds_nodeConfig (ned_spec ned) = None
            \<and> m_name (ned_meta ned) = ps_name (case sos_provider (so_spec slc) of None \<Rightarrow> empty_provider | Some p \<Rightarrow> p) @ ''-ned''
            \<and> map_option ps_domain (neds_provider (ned_spec ned)) =
                Some [case ps_domain (case sos_provider (so_spec slc) of None \<Rightarrow> empty_provider | Some p \<Rightarrow> p) of [] \<Rightarrow> [] | d # ds \<Rightarrow> d]
            \<and> toManifest k (ObjNED (in_namespace (DefaultIfEmpty namespace ''he-codeco-netma'') ned)) = Inr m
            \<and> view w' (oc_name c, work_name k (overlay_name slc)) = Some ([''app'' \<mapsto> ''l2sm''], [m])))))
    \<and> (\<forall>key. key \<notin> slice_keys k slc \<longrightarrow> view w' key = view w key)
    \<and> r \<noteq> Some MDPanic"
proof (intro conjI impI allI)
  assume "r = None"
  with assms(2) have run: "ocm_ApplySlice k slc namespace w = (w', None)" by simp
  from assms(1) run obtain t maps gen nodes w1 where t: "sos_topology (so_spec slc) = Some t"
      "resolve_clusters k (ot_nodes t) Map.empty w = (w1, Inr maps)"
      "slice_monitoring k slc (ot_nodes t) = Some (Inr (gen, nodes))"
    and stored: "\<And>c. c \<in> set (ot_nodes t) \<Longrightarrow> view w' (slice_key k slc (oc_name c))
        = slice_content k gen nodes maps (slice_links t) (DefaultIfEmpty namespace ''he-codeco-netma'') (oc_name c)
        \<and> slice_content k gen nodes maps (slice_links t) (DefaultIfEmpty namespace ''he-codeco-netma'') (oc_name c) \<noteq> None"
    by (rule ocm_ApplySlice_ok) (rule that)
  have made: "\<exists>ned m. ConstructNED (k_lib k) gen (ned_values maps nodes (slice_links t) (oc_name c)) = Some ned
      \<and> toManifest k (ObjNED (in_namespace (DefaultIfEmpty namespace ''he-codeco-netma'') ned)) = Inr m
      \<and> view w' (oc_name c, work_name k (overlay_name slc)) = Some ([''app'' \<mapsto> ''l2sm''], [m])"
    if "c \<in> set (ot_nodes t)" for c
    using stored [OF that]
    by (auto simp: slice_key_def slice_content_def deployed_def result_of_def split: option.splits sum.splits)
  note device = slice_device [OF t(3)]
  have "\<exists>ned m. ConstructNED (k_lib k) gen (ned_values maps nodes (slice_links t) (oc_name c)) = Some ned
      \<and> neds_nodeConfig (ned_spec ned) = None
      \<and> m_name (ned_meta ned) = ps_name (case sos_provider (so_spec slc) of None \<Rightarrow> empty_provider | Some p \<Rightarrow> p) @ ''-ned''
      \<and> map_option ps_domain (neds_provider (ned_spec ned)) =
          Some [case ps_domain (case sos_provider (so_spec slc) of None \<Rightarrow> empty_provider | Some p \<Rightarrow> p) of [] \<Rightarrow> [] | d # ds \<Rightarrow> d]
      \<and> toManifest k (ObjNED (in_namespace (DefaultIfEmpty namespace ''he-codeco-netma'') ned)) = Inr m
      \<and> view w' (oc_name c, work_name k (overlay_name slc)) = Some ([''app'' \<mapsto> ''l2sm''], [m])"
    if "c \<in> set (ot_nodes t)" for c
    using made [OF that] by (elim exE conjE) (intro exI conjI, assumption, (rule device, assumption)+, assumption+)
  with t show "\<exists>t maps gen nodes w1. sos_topology (so_spec slc) = Some t
        \<and> resolve_clusters k (ot_nodes t) Map.empty w = (w1, Inr maps)
        \<and> slice_monitoring k slc (ot_nodes t) = Some (Inr (gen, nodes))
        \<and> (\<forall>c. c \<in> set (ot_nodes t) \<longrightarrow> (\<exists>ned m.
              ConstructNED (k_lib k) gen (ned_values maps nodes (slice_links t) (oc_name c)) = Some ned
            \<and> neds_nodeConfig (ned_spec ned) = None
            \<and> m_name (ned_meta ned) = ps_name (case sos_provider (so_spec slc) of None \<Rightarrow> empty_provider | Some p \<Rightarrow> p) @ ''-ned''
            \<and> map_option ps_domain (neds_provider (ned_spec ned)) =
                Some [case ps_domain (case sos_provider (so_spec slc) of None \<Rightarrow> empty_provider | Some p \<Rightarrow> p) of [] \<Rightarrow> [] | d # ds \<Rightarrow> d]
            \<and> toManifest k (ObjNED (in_namespace (DefaultIfEmpty namespace ''he-codeco-netma'') ned)) = Inr m
            \<and> view w' (oc_name c, work_name k (overlay_name slc)) = Some ([''app'' \<mapsto> ''l2sm''], [m])))"
    by blast
next
  fix key
  assume "key \<notin> slice_keys k slc"
  with assms show "view w' key = view w key" by (rule ocm_ApplySlice_frame)
next
  from assms(2) show "r \<noteq> Some MDPanic" by (rule ocm_ApplySlice_no_panic)
qed

lemma ocm_ApplySlice_deploys_witness:
  "\<exists>m. s_works (fst (ocm_ApplySlice mem_kube example_slice [] example_store)) (''b'', ''slc'')
     = Some ([''app'' \<mapsto> ''l2sm''], [m])"
proof -
  obtain s' where run: "ocm_ApplySlice mem_kube example_slice [] example_store = (s', None)"
    using example_slice_applies by blast
  have "work_name (mem_kube :: store kube) ''slc'' = ''slc''"
    by (simp add: work_name_def mem_work_name is_lower_def code_def)
  then show ?thesis
    using ocm_ApplySlice_deploys [OF mem_kube_laws run] run
    by (auto simp: example_slice_def example_topology_def)
qed

text \<open>C16: deleting a network or a slice, when no error is reported, leaves no ManifestWork of its name on
  any of its clusters, whether or not one was there; it changes no other ManifestWork, error or not.
  Hence a delete after an apply of the same object leaves every ManifestWork as the world before had
  it, except the object's own, which are gone.\<close>

theorem ocm_delete_clears:
  assumes "work_laws k view"
  shows "(\<forall>network namespace w w' r key. ocm_DeleteNetwork k network namespace w = (w', r) \<longrightarrow>
       view w' key = (if key \<in> network_key k network ` set (sns_clusters (sn_spec network))
                      then (if r = None then None else view w' key) else view w key))
    \<and> (\<forall>slc namespace w w' r key. ocm_DeleteSlice k slc namespace w = (w', r) \<longrightarrow>
       view w' key = (if key \<in> slice_keys k slc
                      then (if r = None then None else view w' key) else view w key))
    \<and> (\<forall>slc namespace ns' w w1 w' r key. ocm_ApplySlice k slc namespace w = (w1, r) \<longrightarrow>
         ocm_DeleteSlice k slc ns' w1 = (w', None) \<longrightarrow>
         view w' key = (if key \<in> slice_keys k slc then None else view w key))"
proof (intro conjI allI impI)
  fix network namespace w w' r key
  assume "ocm_DeleteNetwork k network namespace w = (w', r)"
  note eff = ocm_DeleteNetwork_effect [OF assms this]
  show "view w' key = (if key \<in> network_key k network ` set (sns_clusters (sn_spec network))
                      then (if r = None then None else view w' key) else view w key)"
    using eff(1) [of key] eff(2) by auto
next
  fix slc namespace w w' r key
  assume "ocm_DeleteSlice k slc namespace w = (w', r)"
  note eff = ocm_DeleteSlice_effect [OF assms this]
  show "view w' key = (if key \<in> slice_keys k slc then (if r = None then None else view w' key) else view w key)"
    using eff(1) [of key] eff(2) [of key] by auto
next
  fix slc namespace ns' w w1 w' r key
  assume app: "ocm_ApplySlice k slc namespace w = (w1, r)" and del: "ocm_DeleteSlice k slc ns' w1 = (w', None)"
  show "view w' key = (if key \<in> slice_keys k slc then None else view w key)"
    using ocm_DeleteSlice_effect [OF assms del, of key] ocm_ApplySlice_frame [OF assms app, of key] by auto
qed

lemma ocm_delete_clears_witness:
  "s_works (fst (ocm_DeleteSlice mem_kube example_slice []
       (fst (ocm_ApplySlice mem_kube example_slice [] example_store)))) (''c1'', ''old'') = Some (Map.empty, [JNull])"
proof -
  obtain s' where app: "ocm_ApplySlice mem_kube example_slice [] example_store = (s', None)"
    using example_slice_applies by blast
  obtain s'' r where del: "ocm_DeleteSlice mem_kube example_slice [] s' = (s'', r)" by fastforce
  have other: "(''c1'', ''old'') \<notin> slice_keys mem_kube example_slice"
    by (auto simp: slice_keys_def slice_key_def slice_nodes_def example_slice_def example_topology_def)
  have "s_works s'' (''c1'', ''old'') = s_works s' (''c1'', ''old'')"
    using ocm_delete_clears [OF mem_kube_laws] del other by (metis (no_types, lifting))
  also have "\<dots> = s_works example_store (''c1'', ''old'')"
    by (rule ocm_ApplySlice_frame [OF mem_kube_laws app other])
  finally show ?thesis unfolding app fst_conv del by (simp add: example_store_def)
qed

end
