(* ===== verification/MdClient.thy ===== *)
theory MdClient
  imports OcmSlice
begin

text \<open>
  \<open>pkg/mdclient/mdclient.go\<close> and \<open>restclient.go\<close>: the interface \<open>MDClient\<close> as a record of operations,
  its two implementations, and the factory \<open>NewClient\<close>. The locale \<open>md_client\<close> is the contract the
  reconcilers use; it is interpreted on the OCM client (under the laws of its Kubernetes client) and
  on the REST client.
\<close>

section \<open>The interface and its implementations\<close>

record 'w mdclient =
  md_ApplyNetwork :: "slice_network \<Rightarrow> string \<Rightarrow> ('w, md_error) action"
  md_DeleteNetwork :: "slice_network \<Rightarrow> string \<Rightarrow> ('w, md_error) action"
  md_ApplySlice :: "slice_overlay \<Rightarrow> string \<Rightarrow> ('w, md_error) action"
  md_DeleteSlice :: "slice_overlay \<Rightarrow> string \<Rightarrow> ('w, md_error) action"

definition rest_ApplyNetwork :: "slice_network \<Rightarrow> string \<Rightarrow> ('w, md_error) action" where
  "rest_ApplyNetwork network namespace w =
     (w, Some (RestMigrationPending ''ApplyNetwork'' (net_name network) namespace))"

definition rest_DeleteNetwork :: "slice_network \<Rightarrow> string \<Rightarrow> ('w, md_error) action" where
  "rest_DeleteNetwork network namespace w =
     (w, Some (RestMigrationPending ''DeleteNetwork'' (net_name network) namespace))"

definition rest_ApplySlice :: "slice_overlay \<Rightarrow> string \<Rightarrow> ('w, md_error) action" where
  "rest_ApplySlice slc namespace w =
     (w, Some (RestMigrationPending ''ApplySlice'' (overlay_name slc) namespace))"

definition rest_DeleteSlice :: "slice_overlay \<Rightarrow> string \<Rightarrow> ('w, md_error) action" where
  "rest_DeleteSlice slc namespace w =
     (w, Some (RestMigrationPending ''DeleteSlice'' (overlay_name slc) namespace))"

text \<open>\<open>'c\<close> is \<open>rest.Config\<close>, which the program only hands on.\<close>

datatype ('c, 'w) client =
    RestClient "'c option"
  | OCMClient "'w kube"

fun client_ops :: "('c, 'w) client \<Rightarrow> 'w mdclient" where
  "client_ops (RestClient managerClusterConfig) =
     \<lparr>md_ApplyNetwork = rest_ApplyNetwork, md_DeleteNetwork = rest_DeleteNetwork,
      md_ApplySlice = rest_ApplySlice, md_DeleteSlice = rest_DeleteSlice\<rparr>"
| "client_ops (OCMClient k) =
     \<lparr>md_ApplyNetwork = ocm_ApplyNetwork k, md_DeleteNetwork = ocm_DeleteNetwork k,
      md_ApplySlice = ocm_ApplySlice k, md_DeleteSlice = ocm_DeleteSlice k\<rparr>"

section \<open>The factory\<close>

type_synonym ClientType = string

definition RestType :: ClientType where "RestType = ''rest''"
definition OCMType :: ClientType where "OCMType = ''ocm''"

text \<open>A value of the variadic \<open>config ...interface{}\<close>: a \<open>*rest.Config\<close> that is not nil, the nil
  \<open>*rest.Config\<close>, or a value of another type.\<close>

datatype 'c config_arg = ConfigArg 'c | NilConfigArg | OtherArg

record ('c, 'w) client_lib =
  cl_install_cluster :: "string option"
  cl_install_work :: "string option"
  cl_new :: "'c \<Rightarrow> string + 'w kube"

datatype new_client_error =
    OCMWithoutConfig
  | InstallFailed string
  | KubeClientFailed string
  | UnsupportedClientType

text \<open>The loop of the REST case keeps the last config; the zero \<open>rest.Config\<close> is \<open>None\<close>. Dereferencing
  the nil config panics (the outer \<open>None\<close>).\<close>

fun rest_config_loop :: "'c config_arg list \<Rightarrow> 'c option \<Rightarrow> 'c option option" where
  "rest_config_loop [] acc = Some acc"
| "rest_config_loop (ConfigArg c # cfgs) acc = rest_config_loop cfgs (Some c)"
| "rest_config_loop (NilConfigArg # cfgs) acc = None"
| "rest_config_loop (OtherArg # cfgs) acc = rest_config_loop cfgs acc"

text \<open>The loop of the OCM case takes the first \<open>*rest.Config\<close>, which may be nil.\<close>

fun ocm_config_loop :: "'c config_arg list \<Rightarrow> 'c option" where
  "ocm_config_loop [] = None"
| "ocm_config_loop (ConfigArg c # cfgs) = Some c"
| "ocm_config_loop (NilConfigArg # cfgs) = None"
| "ocm_config_loop (OtherArg # cfgs) = ocm_config_loop cfgs"

definition NewClient :: "('c, 'w) client_lib \<Rightarrow> ClientType \<Rightarrow> 'c config_arg list
    \<Rightarrow> (new_client_error + ('c, 'w) client) option" where
  "NewClient lib clientType config =
     (if clientType = RestType then
        map_option (\<lambda>c. Inr (RestClient c)) (rest_config_loop config None)
      else if clientType = OCMType then Some
        (case ocm_config_loop config of
           None \<Rightarrow> Inl OCMWithoutConfig
         | Some clusterConfig \<Rightarrow>
             (case cl_install_cluster lib of
                Some e \<Rightarrow> Inl (InstallFailed e)
              | None \<Rightarrow>
                  (case cl_install_work lib of
                     Some e \<Rightarrow> Inl (InstallFailed e)
                   | None \<Rightarrow>
                       (case cl_new lib clusterConfig of
                          Inl e \<Rightarrow> Inl (KubeClientFailed e)
                        | Inr kclient \<Rightarrow> Inr (OCMClient kclient)))))
      else Some (Inl UnsupportedClientType))"

section \<open>What the OCM client does not touch\<close>

text \<open>\<open>P\<close> is kept by every call of the Kubernetes client, so by every operation made of them.\<close>

definition kube_keeps :: "'w kube \<Rightarrow> ('w \<Rightarrow> bool) \<Rightarrow> bool" where
  "kube_keeps k P \<longleftrightarrow> retry_law k \<and> (\<forall>w. P w \<longrightarrow>
       (\<forall>ns n. P (fst (k_get_work k ns n w)) \<and> P (fst (k_delete_work k ns n w)))
     \<and> (\<forall>mw. P (fst (k_create_work k mw w)) \<and> P (fst (k_update_work k mw w)))
     \<and> (\<forall>n. P (fst (k_get_cluster_urls k n w)) \<and> P (fst (k_lookup_ip k n w))))"

lemma kube_keepsD:
  assumes "kube_keeps k P" "P w"
  shows "k_get_work k ns n w = (w', r) \<Longrightarrow> P w'" and "k_delete_work k ns n w = (w', q) \<Longrightarrow> P w'"
    and "k_create_work k mw w = (w', q) \<Longrightarrow> P w'" and "k_update_work k mw w = (w', q) \<Longrightarrow> P w'"
    and "k_get_cluster_urls k n w = (w', u) \<Longrightarrow> P w'" and "k_lookup_ip k n w = (w', a) \<Longrightarrow> P w'"
  using assms unfolding kube_keeps_def by (metis fst_conv)+

lemma applyManifestWork_keeps:
  assumes keeps: "kube_keeps k P" and "applyManifestWork k d w = (w', r)" "P w"
  shows "P w'"
proof -
  obtain n where n: "applyManifestWork k d w = retry_steps n (apply_attempt k d) w"
    using keeps unfolding kube_keeps_def retry_law_def applyManifestWork_def by meson
  have step: "P v' \<and> (q = None \<longrightarrow> True)" if v: "P v" and run: "apply_attempt k d v = (v', q)" for v v' q
  proof -
    obtain v1 s where g: "k_get_work k (mw_namespace d) (mw_name d) v = (v1, s)" by fastforce
    have v1: "P v1" by (rule kube_keepsD(1) [OF keeps v g])
    show ?thesis
    proof (cases s)
      case (Inl e)
      with run g v1 show ?thesis
        by (auto simp: apply_attempt_def split: if_splits dest: kube_keepsD(3) [OF keeps v1])
    next
      case (Inr cur)
      with run g show ?thesis
        by (auto simp: apply_attempt_def dest: kube_keepsD(4) [OF keeps v1])
    qed
  qed
  have "P w' \<and> (r = None \<longrightarrow> True)"
    by (rule retry_steps_rule [where P = P and Q = "\<lambda>_. True", OF _ assms(3) step, of n])
       (use assms(2) n in auto)
  then show ?thesis ..
qed

lemma delete_work_step_keeps:
  "kube_keeps k P \<Longrightarrow> P w \<Longrightarrow> delete_work_step k n c w = (w', r) \<Longrightarrow> P w'"
  by (auto simp: delete_work_step_def dest: kube_keepsD(2) split: prod.splits option.splits if_splits)

lemma resolve_endpoint_keeps:
  "kube_keeps k P \<Longrightarrow> P w \<Longrightarrow> resolveEndpointToIP k e w = (w', r) \<Longrightarrow> P w'"
  by (auto simp: resolveEndpointToIP_def Let_def dest: kube_keepsD(6)
      split: if_splits prod.splits sum.splits option.splits list.splits)

lemma first_resolvable_keeps:
  "kube_keeps k P \<Longrightarrow> P w \<Longrightarrow> first_resolvable k urls w = (w', r) \<Longrightarrow> P w'"
proof (induction urls arbitrary: w)
  case Nil
  then show ?case by simp
next
  case (Cons u us)
  obtain w1 q where u: "resolveEndpointToIP k u w = (w1, q)" by fastforce
  have "P w1" by (rule resolve_endpoint_keeps [OF Cons.prems(1,2) u])
  with Cons u show ?case by (auto split: if_splits sum.splits)
qed

lemma cluster_ip_keeps:
  assumes "kube_keeps k P" "P w"
  shows "P (fst (getManagedClusterIPAddress k c w))"
proof -
  obtain w1 q where g: "k_get_cluster_urls k c w = (w1, q)" by fastforce
  have w1: "P w1" by (rule kube_keepsD(5) [OF assms g])
  obtain w2 s where f: "first_resolvable k (case q of Inr urls \<Rightarrow> urls | Inl e \<Rightarrow> []) w1 = (w2, s)"
    by fastforce
  have "P w2" by (rule first_resolvable_keeps [OF assms(1) w1 f])
  with g w1 f show ?thesis
    by (cases q; cases s) (auto simp: getManagedClusterIPAddress_def)
qed

lemma resolve_clusters_keeps:
  "kube_keeps k P \<Longrightarrow> P w \<Longrightarrow> resolve_clusters k cs maps w = (w', r) \<Longrightarrow> P w'"
proof (induction cs arbitrary: maps w)
  case Nil
  then show ?case by simp
next
  case (Cons c cs)
  have "P (fst (getManagedClusterIPAddress k (oc_name c) w))"
    by (rule cluster_ip_keeps [OF Cons.prems(1,2)])
  with Cons.prems show ?case
    by (elim resolve_clusters_Cons) (auto intro: Cons.IH)
qed

lemma apply_network_step_keeps:
  assumes "kube_keeps k P" "P w" "apply_network_step k net ns c w = (w', r)"
  shows "P w'"
proof -
  let ?cur = "net\<lparr>l2_meta := (l2_meta net)\<lparr>m_namespace := ns\<rparr>\<rparr>"
  show ?thesis
  proof (cases "toManifest k (ObjL2Network ?cur)")
    case (Inl e)
    with assms show ?thesis by (auto simp: apply_network_step_def Let_def)
  next
    case (Inr m)
    obtain w1 q where a: "applyManifestWork k (newManifestWork k c (m_name (l2_meta ?cur)) [m]) w = (w1, q)"
      by fastforce
    with assms(3) Inr have "w' = w1" by (auto simp: apply_network_step_def Let_def split: option.splits)
    with applyManifestWork_keeps [OF assms(1) a assms(2)] show ?thesis by simp
  qed
qed

lemma apply_slice_step_keeps:
  assumes "kube_keeps k P" "P w" "apply_slice_step k gen nodes maps links name ns c w = (w', r)"
  shows "P w'"
proof (cases "ConstructNED (k_lib k) gen \<lparr>nv_clusterName = oc_name c, nv_nodeConfig = None,
      nv_neighbors = cluster_neighbors maps links (oc_name c), nv_monitoredNodes = nodes\<rparr>")
  case None
  with assms show ?thesis by (simp add: apply_slice_step_def)
next
  case (Some ned)
  let ?ned = "ned\<lparr>ned_meta := (ned_meta ned)\<lparr>m_namespace := ns\<rparr>\<rparr>"
  show ?thesis
  proof (cases "toManifest k (ObjNED ?ned)")
    case (Inl e)
    with assms Some show ?thesis by (simp add: apply_slice_step_def Let_def)
  next
    case (Inr m)
    obtain w1 q where a: "applyManifestWork k (newManifestWork k (oc_name c) name [m]) w = (w1, q)"
      by fastforce
    with assms(3) Some Inr have "w' = w1"
      by (auto simp: apply_slice_step_def Let_def split: option.splits)
    with applyManifestWork_keeps [OF assms(1) a assms(2)] show ?thesis by simp
  qed
qed

lemma ocm_keeps:
  assumes keeps: "kube_keeps k P" and P: "P w"
  shows "ocm_ApplyNetwork k n ns w = (w', r) \<Longrightarrow> P w'"
    and "ocm_DeleteNetwork k n ns w = (w', r) \<Longrightarrow> P w'"
    and "ocm_ApplySlice k slc ns w = (w', r) \<Longrightarrow> P w'"
    and "ocm_DeleteSlice k slc ns w = (w', r) \<Longrightarrow> P w'"
proof -
  assume "ocm_ApplyNetwork k n ns w = (w', r)"
  then show "P w'" unfolding ocm_ApplyNetwork_loop
    using P by (rule for_each_invariant) (rule apply_network_step_keeps [OF keeps])
next
  assume "ocm_DeleteNetwork k n ns w = (w', r)"
  then show "P w'" unfolding ocm_DeleteNetwork_def
    using P by (rule for_each_invariant) (rule delete_work_step_keeps [OF keeps])
next
  assume "ocm_ApplySlice k slc ns w = (w', r)"
  then show "P w'"
  proof (cases rule: ocm_ApplySlice_cases)
    case no_topology
    then show ?thesis using P by simp
  next
    case (unresolved t e)
    from keeps P unresolved(2) show ?thesis by (rule resolve_clusters_keeps)
  next
    case (unallocated t maps e)
    from keeps P unallocated(2) show ?thesis by (rule resolve_clusters_keeps)
  next
    case (applied t maps gen nodes w1)
    from keeps P applied(2) have "P w1" by (rule resolve_clusters_keeps)
    with applied(4) show ?thesis
      by (rule for_each_invariant) (rule apply_slice_step_keeps [OF keeps])
  qed
next
  assume run: "ocm_DeleteSlice k slc ns w = (w', r)"
  show "P w'"
  proof (cases "sos_topology (so_spec slc)")
    case None
    with run P show ?thesis by (simp add: ocm_DeleteSlice_def)
  next
    case (Some t)
    with run have "for_each (delete_work_step k (sanitizeManifestWorkName (k_dns1123 k) (overlay_name slc)))
            (getSliceClusterNames (ot_nodes t)) w = (w', r)" by (simp add: ocm_DeleteSlice_def)
    then show ?thesis using P by (rule for_each_invariant) (rule delete_work_step_keeps [OF keeps])
  qed
qed

section \<open>The contract of a multi-domain client\<close>

text \<open>\<open>works\<close> reads the ManifestWorks and \<open>hub\<close> the rest of the world; \<open>net_keys\<close> and \<open>ov_keys\<close> say where
  the works of a network and of a slice are. The laws hold when \<open>ok\<close> does.\<close>

locale md_client =
  fixes md :: "'w mdclient"
    and ok :: bool
    and works :: "'w \<Rightarrow> work_view"
    and hub :: "'w \<Rightarrow> 'h"
    and net_keys :: "slice_network \<Rightarrow> (string \<times> string) set"
    and ov_keys :: "slice_overlay \<Rightarrow> (string \<times> string) set"
  assumes apply_network:
      "ok \<Longrightarrow> md_ApplyNetwork md n ns w = (w', r) \<Longrightarrow> hub w' = hub w
         \<and> (\<forall>key. key \<notin> net_keys n \<longrightarrow> works w' key = works w key)
         \<and> (r = None \<longrightarrow> (\<forall>key. key \<in> net_keys n \<longrightarrow> works w' key \<noteq> None))"
    and delete_network:
      "ok \<Longrightarrow> md_DeleteNetwork md n ns w = (w', r) \<Longrightarrow> hub w' = hub w
         \<and> (\<forall>key. key \<notin> net_keys n \<longrightarrow> works w' key = works w key)
         \<and> (r = None \<longrightarrow> (\<forall>key. key \<in> net_keys n \<longrightarrow> works w' key = None))"
    and apply_slice:
      "ok \<Longrightarrow> md_ApplySlice md slc ns w = (w', r) \<Longrightarrow> hub w' = hub w
         \<and> (\<forall>key. key \<notin> ov_keys slc \<longrightarrow> works w' key = works w key)
         \<and> (r = None \<longrightarrow> (\<forall>key. key \<in> ov_keys slc \<longrightarrow> works w' key \<noteq> None))"
    and delete_slice:
      "ok \<Longrightarrow> md_DeleteSlice md slc ns w = (w', r) \<Longrightarrow> hub w' = hub w
         \<and> (\<forall>key. key \<notin> ov_keys slc \<longrightarrow> works w' key = works w key)
         \<and> (r = None \<longrightarrow> (\<forall>key. key \<in> ov_keys slc \<longrightarrow> works w' key = None))"
begin

lemma apply_networkD:
  assumes "ok" "md_ApplyNetwork md n ns w = (w', r)"
  shows "hub w' = hub w" and "key \<notin> net_keys n \<Longrightarrow> works w' key = works w key"
    and "r = None \<Longrightarrow> key \<in> net_keys n \<Longrightarrow> works w' key \<noteq> None"
  using apply_network [OF assms] by blast+

lemma delete_networkD:
  assumes "ok" "md_DeleteNetwork md n ns w = (w', r)"
  shows "hub w' = hub w" and "key \<notin> net_keys n \<Longrightarrow> works w' key = works w key"
    and "r = None \<Longrightarrow> key \<in> net_keys n \<Longrightarrow> works w' key = None"
  using delete_network [OF assms] by blast+

lemma apply_sliceD:
  assumes "ok" "md_ApplySlice md slc ns w = (w', r)"
  shows "hub w' = hub w" and "key \<notin> ov_keys slc \<Longrightarrow> works w' key = works w key"
    and "r = None \<Longrightarrow> key \<in> ov_keys slc \<Longrightarrow> works w' key \<noteq> None"
  using apply_slice [OF assms] by blast+

lemma delete_sliceD:
  assumes "ok" "md_DeleteSlice md slc ns w = (w', r)"
  shows "hub w' = hub w" and "key \<notin> ov_keys slc \<Longrightarrow> works w' key = works w key"
    and "r = None \<Longrightarrow> key \<in> ov_keys slc \<Longrightarrow> works w' key = None"
  using delete_slice [OF assms] by blast+

text \<open>Objects with different keys do not disturb each other: what is deployed for one survives any
  operation on the other.\<close>

lemma network_survives:
  assumes "ok" "net_keys n \<inter> net_keys m = {}" "key \<in> net_keys n"
  shows "md_ApplyNetwork md m ns w = (w', r) \<Longrightarrow> works w' key = works w key"
    and "md_DeleteNetwork md m ns w = (w', r) \<Longrightarrow> works w' key = works w key"
proof -
  have out: "key \<notin> net_keys m" using assms(2,3) by blast
  show "md_ApplyNetwork md m ns w = (w', r) \<Longrightarrow> works w' key = works w key"
    using assms(1) out by (intro apply_networkD(2)) simp_all
  show "md_DeleteNetwork md m ns w = (w', r) \<Longrightarrow> works w' key = works w key"
    using assms(1) out by (intro delete_networkD(2)) simp_all
qed

lemma network_survives_slice:
  assumes "ok" "net_keys n \<inter> ov_keys slc = {}" "key \<in> net_keys n"
  shows "md_ApplySlice md slc ns w = (w', r) \<Longrightarrow> works w' key = works w key"
    and "md_DeleteSlice md slc ns w = (w', r) \<Longrightarrow> works w' key = works w key"
proof -
  have out: "key \<notin> ov_keys slc" using assms(2,3) by blast
  show "md_ApplySlice md slc ns w = (w', r) \<Longrightarrow> works w' key = works w key"
    using assms(1) out by (intro apply_sliceD(2)) simp_all
  show "md_DeleteSlice md slc ns w = (w', r) \<Longrightarrow> works w' key = works w key"
    using assms(1) out by (intro delete_sliceD(2)) simp_all
qed

end

definition hub_untouched :: "'w kube \<Rightarrow> ('w \<Rightarrow> 'h) \<Rightarrow> bool" where
  "hub_untouched k hub \<longleftrightarrow> (\<forall>h. kube_keeps k (\<lambda>w. hub w = h))"

lemma ocm_slice_stored:
  assumes "work_laws k view" "ocm_ApplySlice k slc ns w = (w', None)" "key \<in> slice_keys k slc"
  shows "view w' key \<noteq> None"
proof -
  from assms(1,2) obtain t maps gen nodes w1 where t: "sos_topology (so_spec slc) = Some t"
    and st: "\<And>c. c \<in> set (ot_nodes t) \<Longrightarrow> view w' (slice_key k slc (oc_name c))
        = slice_content k gen nodes maps (slice_links t) (DefaultIfEmpty ns ''he-codeco-netma'') (oc_name c)
      \<and> slice_content k gen nodes maps (slice_links t) (DefaultIfEmpty ns ''he-codeco-netma'') (oc_name c) \<noteq> None"
    by (rule ocm_ApplySlice_ok) (rule that)
  obtain c where "c \<in> set (ot_nodes t)" "key = slice_key k slc (oc_name c)"
    using assms(3) by (auto simp: slice_keys_topology [OF t])
  with st show ?thesis by simp
qed

interpretation ocm: md_client "client_ops (OCMClient k)" "work_laws k works \<and> hub_untouched k hub"
    works hub "\<lambda>n. network_key k n ` set (sns_clusters (sn_spec n))" "slice_keys k"
  for k :: "'w kube" and works and hub :: "'w \<Rightarrow> 'h"
proof
  fix n ns w w' r
  assume ok: "work_laws k works \<and> hub_untouched k hub"
    and run: "md_ApplyNetwork (client_ops (OCMClient k)) n ns w = (w', r)"
  from ok have keeps: "kube_keeps k (\<lambda>v. hub v = hub w)" by (simp add: hub_untouched_def)
  have run': "ocm_ApplyNetwork k n ns w = (w', r)" using run by simp
  note eff = ocm_ApplyNetwork_effect [OF conjunct1 [OF ok] run']
  show "hub w' = hub w
      \<and> (\<forall>key. key \<notin> network_key k n ` set (sns_clusters (sn_spec n)) \<longrightarrow> works w' key = works w key)
      \<and> (r = None \<longrightarrow> (\<forall>key. key \<in> network_key k n ` set (sns_clusters (sn_spec n)) \<longrightarrow> works w' key \<noteq> None))"
  proof (intro conjI allI impI)
    show "hub w' = hub w" by (rule ocm_keeps(1) [OF keeps refl run'])
  next
    fix key
    assume "key \<notin> network_key k n ` set (sns_clusters (sn_spec n))"
    then show "works w' key = works w key" by (rule eff(1))
  next
    fix key
    assume r: "r = None" and "key \<in> network_key k n ` set (sns_clusters (sn_spec n))"
    then obtain c where c: "c \<in> set (sns_clusters (sn_spec n))" "key = network_key k n c" by blast
    show "works w' key \<noteq> None"
      using eff(2) [OF r c(1)] ocm_ApplyNetwork_content [OF run' [unfolded r] c(1)] c(2) by simp
  qed
next
  fix n ns w w' r
  assume ok: "work_laws k works \<and> hub_untouched k hub"
    and run: "md_DeleteNetwork (client_ops (OCMClient k)) n ns w = (w', r)"
  from ok have keeps: "kube_keeps k (\<lambda>v. hub v = hub w)" by (simp add: hub_untouched_def)
  have run': "ocm_DeleteNetwork k n ns w = (w', r)" using run by simp
  note eff = ocm_DeleteNetwork_effect [OF conjunct1 [OF ok] run']
  show "hub w' = hub w
      \<and> (\<forall>key. key \<notin> network_key k n ` set (sns_clusters (sn_spec n)) \<longrightarrow> works w' key = works w key)
      \<and> (r = None \<longrightarrow> (\<forall>key. key \<in> network_key k n ` set (sns_clusters (sn_spec n)) \<longrightarrow> works w' key = None))"
  proof (intro conjI allI impI)
    show "hub w' = hub w" by (rule ocm_keeps(2) [OF keeps refl run'])
  next
    fix key
    assume "key \<notin> network_key k n ` set (sns_clusters (sn_spec n))"
    then show "works w' key = works w key" by (rule eff(1))
  next
    fix key
    assume r: "r = None" and "key \<in> network_key k n ` set (sns_clusters (sn_spec n))"
    then show "works w' key = None" using eff(2) [OF r] by (elim imageE) simp
  qed
next
  fix slc ns w w' r
  assume ok: "work_laws k works \<and> hub_untouched k hub"
    and run: "md_ApplySlice (client_ops (OCMClient k)) slc ns w = (w', r)"
  from ok have keeps: "kube_keeps k (\<lambda>v. hub v = hub w)" by (simp add: hub_untouched_def)
  have run': "ocm_ApplySlice k slc ns w = (w', r)" using run by simp
  show "hub w' = hub w \<and> (\<forall>key. key \<notin> slice_keys k slc \<longrightarrow> works w' key = works w key)
      \<and> (r = None \<longrightarrow> (\<forall>key. key \<in> slice_keys k slc \<longrightarrow> works w' key \<noteq> None))"
  proof (intro conjI allI impI)
    show "hub w' = hub w" by (rule ocm_keeps(3) [OF keeps refl run'])
  next
    fix key
    assume "key \<notin> slice_keys k slc"
    then show "works w' key = works w key" by (rule ocm_ApplySlice_frame [OF conjunct1 [OF ok] run'])
  next
    fix key
    assume r: "r = None" and "key \<in> slice_keys k slc"
    then show "works w' key \<noteq> None" using ocm_slice_stored [OF conjunct1 [OF ok]] run' by blast
  qed
next
  fix slc ns w w' r
  assume ok: "work_laws k works \<and> hub_untouched k hub"
    and run: "md_DeleteSlice (client_ops (OCMClient k)) slc ns w = (w', r)"
  from ok have keeps: "kube_keeps k (\<lambda>v. hub v = hub w)" by (simp add: hub_untouched_def)
  have run': "ocm_DeleteSlice k slc ns w = (w', r)" using run by simp
  show "hub w' = hub w \<and> (\<forall>key. key \<notin> slice_keys k slc \<longrightarrow> works w' key = works w key)
      \<and> (r = None \<longrightarrow> (\<forall>key. key \<in> slice_keys k slc \<longrightarrow> works w' key = None))"
  proof (intro conjI allI impI)
    show "hub w' = hub w" by (rule ocm_keeps(4) [OF keeps refl run'])
  next
    fix key
    assume "key \<notin> slice_keys k slc"
    then show "works w' key = works w key" by (rule ocm_DeleteSlice_effect(1) [OF conjunct1 [OF ok] run'])
  next
    fix key
    assume "r = None" "key \<in> slice_keys k slc"
    then show "works w' key = None" by (rule ocm_DeleteSlice_effect(2) [OF conjunct1 [OF ok] run'])
  qed
qed

text \<open>The REST client is a placeholder: it reports an error from every operation and does nothing, so
  the contract holds whatever the keys are.\<close>

interpretation rest_client: md_client "client_ops (RestClient c)" True works hub net_keys ov_keys
  for c :: "'c option" and works :: "'w \<Rightarrow> work_view" and hub :: "'w \<Rightarrow> 'h" and net_keys ov_keys
  by standard
     (auto simp: rest_ApplyNetwork_def rest_DeleteNetwork_def rest_ApplySlice_def rest_DeleteSlice_def)

section \<open>Claims\<close>

lemma work_keys_meet:
  "network_key k n ` set (sns_clusters (sn_spec n)) \<inter> slice_keys k slc \<noteq> {}
     \<longleftrightarrow> work_name k (net_name n) = work_name k (overlay_name slc)
       \<and> (\<exists>c. c \<in> set (sns_clusters (sn_spec n)) \<and> c \<in> oc_name ` set (slice_nodes slc))"
  by (auto simp: slice_keys_def slice_key_def network_key_def)

text \<open>C25: which deployments disturb each other. A network's ManifestWork on a cluster survives any apply or
  delete of a slice, and of another network, that has another ManifestWork name or is not on that cluster. But the
  name does not say which kind of object, or which hub namespace, the work is for: a slice of the same
  name on a shared cluster overwrites the network's work with its own device when it is applied, and
  removes it when it is deleted.\<close>

theorem ocm_deployments_share_names:
  assumes "work_laws k works" "hub_untouched k hub" "c \<in> set (sns_clusters (sn_spec n))"
  shows "(work_name k (net_name n) \<noteq> work_name k (overlay_name slc) \<or> c \<notin> oc_name ` set (slice_nodes slc) \<longrightarrow>
            (\<forall>ns w w' r. ocm_ApplySlice k slc ns w = (w', r) \<or> ocm_DeleteSlice k slc ns w = (w', r) \<longrightarrow>
               works w' (network_key k n c) = works w (network_key k n c)))
    \<and> (work_name k (net_name n) = work_name k (overlay_name slc) \<and> c \<in> oc_name ` set (slice_nodes slc) \<longrightarrow>
            (\<forall>ns w w'. ocm_ApplySlice k slc ns w = (w', None) \<longrightarrow>
               (\<exists>ned m. toManifest k (ObjNED ned) = Inr m
                  \<and> works w' (network_key k n c) = Some ([''app'' \<mapsto> ''l2sm''], [m])))
          \<and> (\<forall>ns w w'. ocm_DeleteSlice k slc ns w = (w', None) \<longrightarrow> works w' (network_key k n c) = None))
    \<and> (\<forall>m ns w w' r. work_name k (net_name n) \<noteq> work_name k (net_name m) \<or> c \<notin> set (sns_clusters (sn_spec m)) \<longrightarrow>
          ocm_ApplyNetwork k m ns w = (w', r) \<or> ocm_DeleteNetwork k m ns w = (w', r) \<longrightarrow>
          works w' (network_key k n c) = works w (network_key k n c))"
proof (intro conjI impI allI)
  note ok = conjI [OF assms(1,2)]
  fix ns w w' r
  assume apart: "work_name k (net_name n) \<noteq> work_name k (overlay_name slc) \<or> c \<notin> oc_name ` set (slice_nodes slc)"
    and run: "ocm_ApplySlice k slc ns w = (w', r) \<or> ocm_DeleteSlice k slc ns w = (w', r)"
  have "network_key k n c \<notin> slice_keys k slc"
    using apart by (auto simp: slice_keys_def slice_key_def network_key_def)
  with run show "works w' (network_key k n c) = works w (network_key k n c)"
    using ocm.apply_sliceD(2) [OF ok] ocm.delete_sliceD(2) [OF ok] by (elim disjE) simp_all
next
  fix ns w w'
  assume same: "work_name k (net_name n) = work_name k (overlay_name slc) \<and> c \<in> oc_name ` set (slice_nodes slc)"
    and run: "ocm_ApplySlice k slc ns w = (w', None)"
  from assms(1) run obtain t maps gen nodes w1 where t: "sos_topology (so_spec slc) = Some t"
    and st: "\<And>c. c \<in> set (ot_nodes t) \<Longrightarrow> works w' (slice_key k slc (oc_name c))
        = slice_content k gen nodes maps (slice_links t) (DefaultIfEmpty ns ''he-codeco-netma'') (oc_name c)
      \<and> slice_content k gen nodes maps (slice_links t) (DefaultIfEmpty ns ''he-codeco-netma'') (oc_name c) \<noteq> None"
    by (rule ocm_ApplySlice_ok) (rule that, simp_all)
  obtain d where d: "d \<in> set (ot_nodes t)" "oc_name d = c" using same t by (auto simp: slice_nodes_def)
  moreover have "slice_key k slc c = network_key k n c" using same by (simp add: slice_key_def network_key_def)
  ultimately show "\<exists>ned m. toManifest k (ObjNED ned) = Inr m
      \<and> works w' (network_key k n c) = Some ([''app'' \<mapsto> ''l2sm''], [m])"
    using st [OF d(1)]
    by (auto simp: slice_content_def deployed_def result_of_def split: option.splits sum.splits)
next
  fix ns w w'
  assume same: "work_name k (net_name n) = work_name k (overlay_name slc) \<and> c \<in> oc_name ` set (slice_nodes slc)"
    and run: "ocm_DeleteSlice k slc ns w = (w', None)"
  have "network_key k n c \<in> slice_keys k slc"
    using same by (auto simp: slice_keys_def slice_key_def network_key_def)
  with assms(1) run show "works w' (network_key k n c) = None" by (intro ocm_DeleteSlice_effect(2)) simp_all
next
  note ok = conjI [OF assms(1,2)]
  fix m ns w w' r
  assume apart: "work_name k (net_name n) \<noteq> work_name k (net_name m) \<or> c \<notin> set (sns_clusters (sn_spec m))"
    and run: "ocm_ApplyNetwork k m ns w = (w', r) \<or> ocm_DeleteNetwork k m ns w = (w', r)"
  have "network_key k n c \<notin> network_key k m ` set (sns_clusters (sn_spec m))"
    using apart by (auto simp: network_key_def)
  with run show "works w' (network_key k n c) = works w (network_key k n c)"
    using ocm.apply_networkD(2) [OF ok] ocm.delete_networkD(2) [OF ok] by (elim disjE) simp_all
qed

lemma mem_hub_untouched: "hub_untouched (mem_kube :: store kube) s_urls"
  by (auto simp: hub_untouched_def kube_keeps_def retry_law_def mem_kube_def mem_get_work_def
      mem_delete_work_def mem_create_work_def mem_update_work_def mem_put_def split: option.splits)

lemma ocm_deployments_share_names_witness:
  "s_works (fst (ocm_ApplySlice mem_kube example_slice [] example_store)) (''a'', ''net'') = s_works example_store (''a'', ''net'')"
proof -
  obtain s' r where run: "ocm_ApplySlice mem_kube example_slice [] example_store = (s', r)" by fastforce
  have names: "work_name (mem_kube :: store kube) ''net'' = ''net''" "work_name (mem_kube :: store kube) ''slc'' = ''slc''"
    by (simp_all add: work_name_def mem_work_name is_lower_def code_def)
  have "''a'' \<in> set (sns_clusters (sn_spec example_network))" by (simp add: example_network_def)
  from ocm_deployments_share_names [OF mem_kube_laws mem_hub_untouched this, of example_slice]
  have "s_works s' (network_key (mem_kube :: store kube) example_network ''a'')
      = s_works example_store (network_key (mem_kube :: store kube) example_network ''a'')"
    using run names by (simp add: example_network_def example_slice_def)
  then show ?thesis using run names by (simp add: network_key_def example_network_def)
qed

text \<open>The factory. A type other than \<open>rest\<close> and \<open>ocm\<close> is refused. The OCM client is made exactly of
  the Kubernetes client for the first \<open>*rest.Config\<close> argument, when that is not nil and the installs
  and the constructor succeed; without one it is an error. The REST client takes the last config, and
  every one of its operations returns an error and leaves the world as it was. Only a nil
  \<open>*rest.Config\<close> for the REST client panics.\<close>

theorem NewClient_outcome:
  "(t \<noteq> RestType \<longrightarrow> t \<noteq> OCMType \<longrightarrow> NewClient lib t cfgs = Some (Inl UnsupportedClientType))
   \<and> (NewClient lib t cfgs = None \<longleftrightarrow> t = RestType \<and> NilConfigArg \<in> set cfgs)
   \<and> (\<forall>k. NewClient lib t cfgs = Some (Inr (OCMClient k)) \<longleftrightarrow>
         t = OCMType \<and> (\<exists>c. ocm_config_loop cfgs = Some c \<and> cl_install_cluster lib = None
            \<and> cl_install_work lib = None \<and> cl_new lib c = Inr k))
   \<and> (\<forall>c. NewClient lib t cfgs = Some (Inr (RestClient c)) \<longrightarrow> t = RestType
         \<and> (\<forall>x. ConfigArg x \<notin> set cfgs) = (c = None)
         \<and> (\<forall>n ns w. md_ApplyNetwork (client_ops (RestClient c)) n ns w
               = (w, Some (RestMigrationPending ''ApplyNetwork'' (net_name n) ns))
             \<and> snd (md_DeleteNetwork (client_ops (RestClient c)) n ns w) \<noteq> None)
         \<and> (\<forall>slc ns w. fst (md_ApplySlice (client_ops (RestClient c)) slc ns w) = w
             \<and> snd (md_ApplySlice (client_ops (RestClient c)) slc ns w) \<noteq> None
             \<and> snd (md_DeleteSlice (client_ops (RestClient c)) slc ns w) \<noteq> None))"
proof -
  have types: "RestType \<noteq> OCMType" by (simp add: RestType_def OCMType_def)
  have loop_none: "rest_config_loop cfgs a = None \<longleftrightarrow> NilConfigArg \<in> set cfgs" for a
    by (induction cfgs a rule: rest_config_loop.induct) auto
  have loop_some: "rest_config_loop cfgs a = Some c \<Longrightarrow> c = None \<longleftrightarrow> a = None \<and> (\<forall>x. ConfigArg x \<notin> set cfgs)"
    for a c
    by (induction cfgs a rule: rest_config_loop.induct) auto
  have unsupported: "t \<noteq> RestType \<longrightarrow> t \<noteq> OCMType \<longrightarrow> NewClient lib t cfgs = Some (Inl UnsupportedClientType)"
    by (simp add: NewClient_def)
  have panics: "NewClient lib t cfgs = None \<longleftrightarrow> t = RestType \<and> NilConfigArg \<in> set cfgs"
    using types loop_none [of None] by (auto simp: NewClient_def)
  have ocm: "NewClient lib t cfgs = Some (Inr (OCMClient k)) \<longleftrightarrow>
      t = OCMType \<and> (\<exists>c. ocm_config_loop cfgs = Some c \<and> cl_install_cluster lib = None
         \<and> cl_install_work lib = None \<and> cl_new lib c = Inr k)" for k
    using types by (auto simp: NewClient_def split: option.splits sum.splits)
  have rest: "t = RestType \<and> (\<forall>x. ConfigArg x \<notin> set cfgs) = (c = None)"
    if "NewClient lib t cfgs = Some (Inr (RestClient c))" for c
    using that types loop_some [of None c]
    by (auto simp: NewClient_def split: option.splits sum.splits if_splits)
  show ?thesis
    using unsupported panics ocm rest
    by (simp add: rest_ApplyNetwork_def rest_DeleteNetwork_def rest_ApplySlice_def rest_DeleteSlice_def)
qed

definition example_client_lib :: "(string, store) client_lib" where
  "example_client_lib = \<lparr>cl_install_cluster = None, cl_install_work = None, cl_new = \<lambda>c. Inr mem_kube\<rparr>"

lemma NewClient_outcome_witness:
  "NewClient example_client_lib ''ocm'' [OtherArg, ConfigArg ''hub''] = Some (Inr (OCMClient mem_kube))"
  using NewClient_outcome [of "''ocm''" example_client_lib "[OtherArg, ConfigArg ''hub'']"]
  by (auto simp: OCMType_def example_client_lib_def)

end
