(* ===== verification/Hub.thy ===== *)
theory Hub
  imports MdClient
begin

text \<open>
  The hub cluster as the reconcilers and the server see it: the Kubernetes client on the program's own
  resources and the finalizer helpers of \<open>controllerutil\<close>, both outside the repository and so a
  parameter. \<open>hub_laws\<close> states what the code relies on; \<open>networks\<close> and \<open>overlays\<close> read the stored
  objects under a namespace and a name.
\<close>

record 'w hub =
  h_get_network :: "string \<Rightarrow> string \<Rightarrow> 'w \<Rightarrow> 'w \<times> (kerr + slice_network)"
  h_update_network :: "slice_network \<Rightarrow> 'w \<Rightarrow> 'w \<times> (kerr + slice_network)"
  h_create_network :: "slice_network \<Rightarrow> ('w, kerr) action"
  h_delete_network :: "string \<Rightarrow> string \<Rightarrow> ('w, kerr) action"
  h_list_networks :: "'w \<Rightarrow> 'w \<times> (kerr + slice_network list)"
  h_get_overlay :: "string \<Rightarrow> string \<Rightarrow> 'w \<Rightarrow> 'w \<times> (kerr + slice_overlay)"
  h_update_overlay :: "slice_overlay \<Rightarrow> 'w \<Rightarrow> 'w \<times> (kerr + slice_overlay)"
  h_create_overlay :: "slice_overlay \<Rightarrow> ('w, kerr) action"
  h_delete_overlay :: "string \<Rightarrow> string \<Rightarrow> ('w, kerr) action"
  h_list_overlays :: "'w \<Rightarrow> 'w \<times> (kerr + slice_overlay list)"
  h_get_profile :: "string \<Rightarrow> string \<Rightarrow> 'w \<Rightarrow> 'w \<times> (kerr + provider_profile)"
  h_contains_finalizer :: "string list \<Rightarrow> string \<Rightarrow> bool"
  h_add_finalizer :: "string list \<Rightarrow> string \<Rightarrow> string list"
  h_remove_finalizer :: "string list \<Rightarrow> string \<Rightarrow> string list"

section \<open>What the reconcilers rely on\<close>

definition finalizer_laws :: "'w hub \<Rightarrow> bool" where
  "finalizer_laws h \<longleftrightarrow>
     (\<forall>l f. h_contains_finalizer h l f \<longleftrightarrow> f \<in> set l)
     \<and> (\<forall>l f. set (h_add_finalizer h l f) = insert f (set l))
     \<and> (\<forall>l f. set (h_remove_finalizer h l f) = set l - {f})"

text \<open>The laws of reading and updating one kind of object, for the reader \<open>stored\<close> of the object at its
  key. Reading changes nothing. An update that succeeds stores the object under its metadata and
  returns what it stored; an object that is being deleted and has no finalizer left is removed by it.
  The server owns the status and some metadata, so of the returned object it is only known that the
  finalizers, the deletion mark, the name and the spec are those sent. An update that fails was stored
  so, or changed nothing.\<close>

definition update_stores :: "('o \<Rightarrow> object_meta) \<Rightarrow> ('o \<Rightarrow> 's) \<Rightarrow> 'o \<Rightarrow> 'o option \<Rightarrow> 'o \<Rightarrow> bool" where
  "update_stores meta spec x after y \<longleftrightarrow>
     set (m_finalizers (meta y)) = set (m_finalizers (meta x))
     \<and> deletion_is_zero (meta y) = deletion_is_zero (meta x)
     \<and> m_name (meta y) = m_name (meta x) \<and> m_namespace (meta y) = m_namespace (meta x)
     \<and> spec y = spec x
     \<and> (after = Some y
        \<or> after = None \<and> \<not> deletion_is_zero (meta x) \<and> m_finalizers (meta x) = [])"

definition object_laws :: "('w \<Rightarrow> 'w \<times> (kerr + 'o)) \<Rightarrow> ('o \<Rightarrow> 'w \<Rightarrow> 'w \<times> (kerr + 'o))
    \<Rightarrow> ('o \<Rightarrow> object_meta) \<Rightarrow> ('o \<Rightarrow> 's) \<Rightarrow> ('w \<Rightarrow> 'o option) \<Rightarrow> ('w \<Rightarrow> work_view) \<Rightarrow> string \<Rightarrow> string \<Rightarrow> bool" where
  "object_laws get update meta spec stored works ns name \<longleftrightarrow>
     (\<forall>w w' r. get w = (w', r) \<longrightarrow> stored w' = stored w \<and> works w' = works w
        \<and> (case r of
              Inr x \<Rightarrow> stored w = Some x \<and> m_namespace (meta x) = ns \<and> m_name (meta x) = name
            | Inl e \<Rightarrow> e = KNotFound \<longrightarrow> stored w = None))
     \<and> (\<forall>x w w' r. m_namespace (meta x) = ns \<longrightarrow> m_name (meta x) = name \<longrightarrow> update x w = (w', r) \<longrightarrow>
          works w' = works w
        \<and> (case r of
              Inr y \<Rightarrow> update_stores meta spec x (stored w') y
            | Inl e \<Rightarrow> stored w' = stored w \<or> (\<exists>y. update_stores meta spec x (stored w') y)))"

text \<open>Reading, and updating one object, leaves the other objects as they were.\<close>

definition frame_laws :: "'w hub \<Rightarrow> ('w \<Rightarrow> work_view) \<Rightarrow> ('w \<Rightarrow> string \<times> string \<rightharpoonup> slice_network)
    \<Rightarrow> ('w \<Rightarrow> string \<times> string \<rightharpoonup> slice_overlay) \<Rightarrow> bool" where
  "frame_laws h works networks overlays \<longleftrightarrow>
     (\<forall>ns name w w' r. h_get_network h ns name w = (w', r) \<longrightarrow> networks w' = networks w \<and> overlays w' = overlays w)
     \<and> (\<forall>ns name w w' r. h_get_overlay h ns name w = (w', r) \<longrightarrow> networks w' = networks w \<and> overlays w' = overlays w)
     \<and> (\<forall>x w w' r. h_update_network h x w = (w', r) \<longrightarrow> overlays w' = overlays w
            \<and> (networks w')((net_namespace x, net_name x) := None) = (networks w)((net_namespace x, net_name x) := None))
     \<and> (\<forall>x w w' r. h_update_overlay h x w = (w', r) \<longrightarrow> networks w' = networks w
            \<and> (overlays w')((overlay_namespace x, overlay_name x) := None)
                = (overlays w)((overlay_namespace x, overlay_name x) := None))
     \<and> (\<forall>ns name w w' r. h_get_profile h ns name w = (w', r) \<longrightarrow>
            works w' = works w \<and> networks w' = networks w \<and> overlays w' = overlays w)"

definition hub_laws :: "'w hub \<Rightarrow> ('w \<Rightarrow> work_view) \<Rightarrow> ('w \<Rightarrow> string \<times> string \<rightharpoonup> slice_network)
    \<Rightarrow> ('w \<Rightarrow> string \<times> string \<rightharpoonup> slice_overlay) \<Rightarrow> bool" where
  "hub_laws h works networks overlays \<longleftrightarrow> finalizer_laws h
     \<and> (\<forall>ns name. object_laws (h_get_network h ns name) (h_update_network h) sn_meta sn_spec
            (\<lambda>w. networks w (ns, name)) works ns name)
     \<and> (\<forall>ns name. object_laws (h_get_overlay h ns name) (h_update_overlay h) so_meta so_spec
            (\<lambda>w. overlays w (ns, name)) works ns name)
     \<and> frame_laws h works networks overlays"

section \<open>Requests\<close>

record request =
  rq_namespace :: string
  rq_name :: string

section \<open>A hub in memory\<close>

text \<open>An instance that meets the laws, on the world of \<open>mem_kube\<close> extended with the hub's objects. An
  object is found by its key; deleting one that has finalizers marks it as deleted.\<close>

record hub_store = store +
  hs_networks :: "slice_network list"
  hs_overlays :: "slice_overlay list"
  hs_profiles :: "provider_profile list"

definition key_of :: "('o \<Rightarrow> object_meta) \<Rightarrow> 'o \<Rightarrow> string \<times> string" where
  "key_of meta x = (m_namespace (meta x), m_name (meta x))"

definition obj_find :: "('o \<Rightarrow> object_meta) \<Rightarrow> 'o list \<Rightarrow> string \<times> string \<rightharpoonup> 'o" where
  "obj_find meta l key = find (\<lambda>x. key_of meta x = key) l"

definition obj_remove :: "('o \<Rightarrow> object_meta) \<Rightarrow> string \<times> string \<Rightarrow> 'o list \<Rightarrow> 'o list" where
  "obj_remove meta key l = filter (\<lambda>x. key_of meta x \<noteq> key) l"

definition obj_put :: "('o \<Rightarrow> object_meta) \<Rightarrow> 'o \<Rightarrow> 'o list \<Rightarrow> 'o list" where
  "obj_put meta x l = x # obj_remove meta (key_of meta x) l"

definition obj_update :: "('o \<Rightarrow> object_meta) \<Rightarrow> 'o \<Rightarrow> 'o list \<Rightarrow> 'o list \<times> (kerr + 'o)" where
  "obj_update meta x l =
     (if obj_find meta l (key_of meta x) = None then (l, Inl KNotFound)
      else if \<not> deletion_is_zero (meta x) \<and> m_finalizers (meta x) = [] then (obj_remove meta (key_of meta x) l, Inr x)
      else (obj_put meta x l, Inr x))"

definition obj_create :: "('o \<Rightarrow> object_meta) \<Rightarrow> 'o \<Rightarrow> 'o list \<Rightarrow> 'o list \<times> kerr option" where
  "obj_create meta x l =
     (if obj_find meta l (key_of meta x) = None then (x # l, None) else (l, Some KAlreadyExists))"

definition obj_delete :: "('o \<Rightarrow> object_meta) \<Rightarrow> ('o \<Rightarrow> 'o) \<Rightarrow> string \<times> string \<Rightarrow> 'o list \<Rightarrow> 'o list \<times> kerr option" where
  "obj_delete meta mark key l =
     (case obj_find meta l key of
        None \<Rightarrow> (l, Some KNotFound)
      | Some x \<Rightarrow> if m_finalizers (meta x) = [] then (obj_remove meta key l, None)
                  else (obj_put meta (mark x) l, None))"

lemma obj_find_key: "obj_find meta l key = Some x \<Longrightarrow> key_of meta x = key"
  unfolding obj_find_def by (induction l) (auto split: if_splits)

lemma obj_find_remove: "obj_find meta (obj_remove meta key l) = (obj_find meta l)(key := None)"
  unfolding obj_find_def obj_remove_def fun_eq_iff by (induction l) auto

lemma obj_find_put: "obj_find meta (obj_put meta x l) = (obj_find meta l)(key_of meta x \<mapsto> x)"
proof -
  have "obj_find meta (x # m) = (obj_find meta m)(key_of meta x \<mapsto> x)" for m
    by (simp add: obj_find_def fun_eq_iff)
  then show ?thesis by (simp add: obj_put_def obj_find_remove)
qed

lemma obj_update_find:
  assumes "obj_update meta x l = (l', r)"
  shows "(obj_find meta l')(key_of meta x := None) = (obj_find meta l)(key_of meta x := None)"
    and "r = Inr y \<Longrightarrow> update_stores meta spec x (obj_find meta l' (key_of meta x)) y"
    and "r = Inl e \<Longrightarrow> l' = l"
  using assms
  by (auto simp: obj_update_def obj_find_remove obj_find_put update_stores_def split: if_splits)

definition mark_network :: "slice_network \<Rightarrow> slice_network" where
  "mark_network n = n\<lparr>sn_meta := (sn_meta n)\<lparr>m_deletion := Some 1\<rparr>\<rparr>"

definition mark_overlay :: "slice_overlay \<Rightarrow> slice_overlay" where
  "mark_overlay s = s\<lparr>so_meta := (so_meta s)\<lparr>m_deletion := Some 1\<rparr>\<rparr>"

definition mem_get :: "('w \<Rightarrow> string \<times> string \<rightharpoonup> 'o) \<Rightarrow> string \<Rightarrow> string \<Rightarrow> 'w \<Rightarrow> 'w \<times> (kerr + 'o)" where
  "mem_get objects ns name w =
     (w, case objects w (ns, name) of None \<Rightarrow> Inl KNotFound | Some x \<Rightarrow> Inr x)"

abbreviation mem_networks :: "'a hub_store_scheme \<Rightarrow> string \<times> string \<rightharpoonup> slice_network" where
  "mem_networks w \<equiv> obj_find sn_meta (hs_networks w)"

abbreviation mem_overlays :: "'a hub_store_scheme \<Rightarrow> string \<times> string \<rightharpoonup> slice_overlay" where
  "mem_overlays w \<equiv> obj_find so_meta (hs_overlays w)"

definition on_networks :: "(slice_network list \<Rightarrow> slice_network list \<times> 'r) \<Rightarrow> 'a hub_store_scheme \<Rightarrow> 'a hub_store_scheme \<times> 'r" where
  "on_networks f w = (case f (hs_networks w) of (l, r) \<Rightarrow> (w\<lparr>hs_networks := l\<rparr>, r))"

definition on_overlays :: "(slice_overlay list \<Rightarrow> slice_overlay list \<times> 'r) \<Rightarrow> 'a hub_store_scheme \<Rightarrow> 'a hub_store_scheme \<times> 'r" where
  "on_overlays f w = (case f (hs_overlays w) of (l, r) \<Rightarrow> (w\<lparr>hs_overlays := l\<rparr>, r))"

definition memory_hub :: "'a hub_store_scheme hub" where
  "memory_hub =
     \<lparr>h_get_network = mem_get mem_networks,
      h_update_network = (\<lambda>n. on_networks (obj_update sn_meta n)),
      h_create_network = (\<lambda>n. on_networks (obj_create sn_meta n)),
      h_delete_network = (\<lambda>ns name. on_networks (obj_delete sn_meta mark_network (ns, name))),
      h_list_networks = (\<lambda>w. (w, Inr (hs_networks w))),
      h_get_overlay = mem_get mem_overlays,
      h_update_overlay = (\<lambda>s. on_overlays (obj_update so_meta s)),
      h_create_overlay = (\<lambda>s. on_overlays (obj_create so_meta s)),
      h_delete_overlay = (\<lambda>ns name. on_overlays (obj_delete so_meta mark_overlay (ns, name))),
      h_list_overlays = (\<lambda>w. (w, Inr (hs_overlays w))),
      h_get_profile = mem_get (\<lambda>w. obj_find pp_meta (hs_profiles w)),
      h_contains_finalizer = (\<lambda>l f. f \<in> set l),
      h_add_finalizer = (\<lambda>l f. if f \<in> set l then l else l @ [f]),
      h_remove_finalizer = (\<lambda>l f. filter (\<lambda>g. g \<noteq> f) l)\<rparr>"

abbreviation mem_hub :: "hub_store hub" where
  "mem_hub \<equiv> memory_hub"

lemmas mem_hub_def = memory_hub_def

lemma mem_object_laws:
  assumes upd: "\<And>x w. update x w = (case obj_update meta x (objs w) of (l, r) \<Rightarrow> (set_objs l w, r))"
    and set: "\<And>l w. works (set_objs l w) = works w" "\<And>l w. objs (set_objs l w) = l"
  shows "object_laws (mem_get (\<lambda>w. obj_find meta (objs w)) ns name) update meta spec
    (\<lambda>w. obj_find meta (objs w) (ns, name)) works ns name"
proof -
  have get: "key_of meta x = (ns, name)" if "obj_find meta l (ns, name) = Some x" for l x
    using obj_find_key [OF that] .
  have step: "works w' = works w \<and> (case r of
        Inr y \<Rightarrow> update_stores meta spec x (obj_find meta (objs w') (ns, name)) y
      | Inl e \<Rightarrow> obj_find meta (objs w') (ns, name) = obj_find meta (objs w) (ns, name)
          \<or> (\<exists>y. update_stores meta spec x (obj_find meta (objs w') (ns, name)) y))"
    if key: "m_namespace (meta x) = ns" "m_name (meta x) = name" and run: "update x w = (w', r)" for x w w' r
  proof -
    obtain l q where u: "obj_update meta x (objs w) = (l, q)" by fastforce
    have w': "w' = set_objs l w" "r = q" using run u by (simp_all add: upd)
    have k: "key_of meta x = (ns, name)" using key by (simp add: key_of_def)
    note eff = obj_update_find [OF u, unfolded k]
    show ?thesis using eff(2) [where spec = spec] eff(3) by (cases q) (simp_all add: w' set)
  qed
  show ?thesis
    unfolding object_laws_def mem_get_def
    using get step by (auto simp: key_of_def split: option.splits)
qed

lemma memory_hub_laws: "hub_laws (memory_hub :: 'a hub_store_scheme hub) s_works mem_networks mem_overlays"
proof -
  let ?h = "memory_hub :: 'a hub_store_scheme hub"
  have "finalizer_laws ?h" by (auto simp: finalizer_laws_def mem_hub_def)
  moreover have "object_laws (h_get_network ?h ns name) (h_update_network ?h) sn_meta sn_spec
      (\<lambda>w. mem_networks w (ns, name)) s_works ns name" for ns name
    by (simp add: mem_hub_def)
       (rule mem_object_laws [where set_objs = "\<lambda>l w. w\<lparr>hs_networks := l\<rparr>"]; simp add: on_networks_def)
  moreover have "object_laws (h_get_overlay ?h ns name) (h_update_overlay ?h) so_meta so_spec
      (\<lambda>w. mem_overlays w (ns, name)) s_works ns name" for ns name
    by (simp add: mem_hub_def)
       (rule mem_object_laws [where set_objs = "\<lambda>l w. w\<lparr>hs_overlays := l\<rparr>"]; simp add: on_overlays_def)
  moreover have "frame_laws ?h s_works mem_networks mem_overlays"
    using obj_update_find(1) [where meta = sn_meta] obj_update_find(1) [where meta = so_meta]
    by (auto simp: frame_laws_def mem_hub_def mem_get_def on_networks_def on_overlays_def key_of_def
        split: prod.splits)
  ultimately show ?thesis by (simp add: hub_laws_def)
qed

lemmas mem_hub_laws = memory_hub_laws [where 'a = unit]

lemma mem_kube_untouched: "hub_untouched mem_kube (\<lambda>w. (mem_networks w, mem_overlays w))"
  by (auto simp: hub_untouched_def kube_keeps_def retry_law_def mem_kube_def mem_get_work_def
      mem_delete_work_def mem_create_work_def mem_update_work_def mem_put_def split: option.splits)

end
