(* ===== verification/Resolver.thy ===== *)
theory Resolver
  imports Hub
begin

text \<open>
  \<open>internal/controller/provider_resolver.go\<close>: the provider of a network or a slice is its own, or that of
  the ProviderProfile it refers to. \<open>requestsForProviderProfile\<close> of both controllers, which says what to
  reconcile when a profile changes, is here too: the claim relates the two.
\<close>

definition defaultProviderProfileName :: string where
  "defaultProviderProfileName = ''default''"

datatype resolve_error =
    ProviderNotSet string string kerr
  | ProviderRefUnresolved string string kerr

definition resolveProviderReference :: "'w hub \<Rightarrow> string \<Rightarrow> provider_reference option \<Rightarrow> 'w
    \<Rightarrow> 'w \<times> (resolve_error + provider_spec)" where
  "resolveProviderReference h defaultNamespace ref w =
     (let namespace = (case ref of
                         Some r \<Rightarrow> if ref_namespace r \<noteq> [] then ref_namespace r else defaultNamespace
                       | None \<Rightarrow> defaultNamespace);
          name = (case ref of
                    Some r \<Rightarrow> if ref_name r \<noteq> [] then ref_name r else defaultProviderProfileName
                  | None \<Rightarrow> defaultProviderProfileName)
      in case h_get_profile h namespace name w of
           (w', Inl err) \<Rightarrow>
             if ref = None then (w', Inl (ProviderNotSet namespace name err))
             else (w', Inl (ProviderRefUnresolved namespace name err))
         | (w', Inr profile) \<Rightarrow> (w', Inr (pps_provider (pp_spec profile))))"

definition resolveNetworkProvider :: "'w hub \<Rightarrow> slice_network \<Rightarrow> 'w \<Rightarrow> 'w \<times> (resolve_error + provider_spec)" where
  "resolveNetworkProvider h network w =
     (case sns_provider (sn_spec network) of
        Some p \<Rightarrow> (w, Inr p)
      | None \<Rightarrow> resolveProviderReference h (net_namespace network) (sns_providerRef (sn_spec network)) w)"

definition resolveOverlayProvider :: "'w hub \<Rightarrow> slice_overlay \<Rightarrow> 'w \<Rightarrow> 'w \<times> (resolve_error + provider_spec)" where
  "resolveOverlayProvider h overlay w =
     (case sos_provider (so_spec overlay) of
        Some p \<Rightarrow> (w, Inr p)
      | None \<Rightarrow> resolveProviderReference h (overlay_namespace overlay) (sos_providerRef (so_spec overlay)) w)"

section \<open>Requests for a profile\<close>

text \<open>The checks of the loop body that do not \<open>continue\<close>.\<close>

definition profile_concerns :: "provider_profile \<Rightarrow> string \<Rightarrow> provider_reference option \<Rightarrow> bool" where
  "profile_concerns profile objNamespace ref =
     (let pname = m_name (pp_meta profile); pns = m_namespace (pp_meta profile) in
      case ref of
        None \<Rightarrow> \<not> (pname \<noteq> defaultProviderProfileName \<or> pns \<noteq> objNamespace)
      | Some r \<Rightarrow>
          (let refNamespace = (if ref_namespace r \<noteq> [] then ref_namespace r else objNamespace);
               refName = (if ref_name r = [] then defaultProviderProfileName else ref_name r)
           in \<not> (refNamespace \<noteq> pns \<or> refName \<noteq> pname)))"

text \<open>An object of another type gives no request; \<open>None\<close> stands for one.\<close>

definition requestsForProviderProfile_network ::
  "'w hub \<Rightarrow> provider_profile option \<Rightarrow> 'w \<Rightarrow> 'w \<times> request list" where
  "requestsForProviderProfile_network h obj w =
     (case obj of
        None \<Rightarrow> (w, [])
      | Some profile \<Rightarrow>
          (case h_list_networks h w of
             (w', Inl err) \<Rightarrow> (w', [])
           | (w', Inr items) \<Rightarrow>
               (w', map (\<lambda>n. \<lparr>rq_namespace = net_namespace n, rq_name = net_name n\<rparr>)
                      (filter (\<lambda>n. sns_provider (sn_spec n) = None
                                 \<and> profile_concerns profile (net_namespace n) (sns_providerRef (sn_spec n)))
                         items))))"

definition requestsForProviderProfile_overlay ::
  "'w hub \<Rightarrow> provider_profile option \<Rightarrow> 'w \<Rightarrow> 'w \<times> request list" where
  "requestsForProviderProfile_overlay h obj w =
     (case obj of
        None \<Rightarrow> (w, [])
      | Some profile \<Rightarrow>
          (case h_list_overlays h w of
             (w', Inl err) \<Rightarrow> (w', [])
           | (w', Inr items) \<Rightarrow>
               (w', map (\<lambda>s. \<lparr>rq_namespace = overlay_namespace s, rq_name = overlay_name s\<rparr>)
                      (filter (\<lambda>s. sos_provider (so_spec s) = None
                                 \<and> profile_concerns profile (overlay_namespace s) (sos_providerRef (so_spec s)))
                         items))))"

section \<open>The profile an object reads\<close>

text \<open>The namespace and name of the profile the resolution reads, \<open>None\<close> when it reads none.\<close>

definition profile_read :: "provider_spec option \<Rightarrow> string \<Rightarrow> provider_reference option \<Rightarrow> (string \<times> string) option" where
  "profile_read inline ns ref =
     (if inline \<noteq> None then None
      else Some (DefaultIfEmpty (case ref of Some r \<Rightarrow> ref_namespace r | None \<Rightarrow> []) ns,
                 DefaultIfEmpty (case ref of Some r \<Rightarrow> ref_name r | None \<Rightarrow> []) defaultProviderProfileName))"

lemma profile_concerns_read:
  "profile_concerns profile ns ref
     \<longleftrightarrow> profile_read None ns ref = Some (m_namespace (pp_meta profile), m_name (pp_meta profile))"
  by (auto simp: profile_concerns_def profile_read_def DefaultIfEmpty_def Let_def split: option.splits)

lemma resolveProviderReference_read:
  assumes "profile_read None ns ref = Some (pns, pname)"
  shows "resolveProviderReference h ns ref w =
    (case h_get_profile h pns pname w of
       (w', Inl e) \<Rightarrow> (w', Inl (if ref = None then ProviderNotSet pns pname e else ProviderRefUnresolved pns pname e))
     | (w', Inr profile) \<Rightarrow> (w', Inr (pps_provider (pp_spec profile))))"
proof -
  have "(case ref of Some r \<Rightarrow> if ref_namespace r \<noteq> [] then ref_namespace r else ns | None \<Rightarrow> ns) = pns"
    "(case ref of Some r \<Rightarrow> if ref_name r \<noteq> [] then ref_name r else defaultProviderProfileName
        | None \<Rightarrow> defaultProviderProfileName) = pname"
    using assms by (auto simp: profile_read_def DefaultIfEmpty_def split: option.splits)
  then show ?thesis
    unfolding resolveProviderReference_def by (auto simp: Let_def split: prod.splits sum.splits)
qed

section \<open>A hub with a default profile, for the witnesses\<close>

definition example_profile :: provider_profile where
  "example_profile = \<lparr>pp_typeMeta = \<lparr>tm_kind = [], tm_apiVersion = []\<rparr>,
     pp_meta = empty_meta\<lparr>m_name := ''default'', m_namespace := ''ns''\<rparr>,
     pp_spec = \<lparr>pps_provider = empty_provider\<lparr>ps_name := ''sdn''\<rparr>\<rparr>,
     pp_status = \<lparr>ppst_conditions = []\<rparr>\<rparr>"

definition hub_network :: slice_network where
  "hub_network = example_network\<lparr>sn_meta := empty_meta\<lparr>m_name := ''net'', m_namespace := ''ns''\<rparr>\<rparr>"

definition hub_slice :: slice_overlay where
  "hub_slice = example_slice\<lparr>so_meta := empty_meta\<lparr>m_name := ''slc'', m_namespace := ''other''\<rparr>,
     so_spec := (so_spec example_slice)\<lparr>sos_provider := Some empty_provider\<rparr>\<rparr>"

definition example_hub :: hub_store where
  "example_hub = \<lparr>s_works = Map.empty, s_urls = Map.empty, hs_networks = [hub_network],
     hs_overlays = [hub_slice], hs_profiles = [example_profile]\<rparr>"

lemmas example_hub_simps = example_hub_def hub_network_def hub_slice_def example_profile_def
  example_network_def example_slice_def empty_meta_def

text \<open>C29: the provider of a network (and likewise of a slice). Its own provider is used without reading
  any profile; otherwise the one profile \<open>profile_read\<close> names decides: in the reference's namespace or
  else the object's own, with the reference's name or else \<open>default\<close>. A failed read is reported with
  that namespace and name, as a missing provider when the object has no reference.\<close>

theorem resolve_provider_outcome:
  "(\<forall>p. sns_provider (sn_spec n) = Some p \<longrightarrow> resolveNetworkProvider h n w = (w, Inr p))
   \<and> (\<forall>p. sos_provider (so_spec s) = Some p \<longrightarrow> resolveOverlayProvider h s w = (w, Inr p))
   \<and> (\<forall>ns name. profile_read (sns_provider (sn_spec n)) (net_namespace n) (sns_providerRef (sn_spec n)) = Some (ns, name) \<longrightarrow>
        resolveNetworkProvider h n w =
          (case h_get_profile h ns name w of
             (w', Inl e) \<Rightarrow> (w', Inl (if sns_providerRef (sn_spec n) = None then ProviderNotSet ns name e
                                    else ProviderRefUnresolved ns name e))
           | (w', Inr profile) \<Rightarrow> (w', Inr (pps_provider (pp_spec profile)))))
   \<and> (\<forall>ns name. profile_read (sos_provider (so_spec s)) (overlay_namespace s) (sos_providerRef (so_spec s)) = Some (ns, name) \<longrightarrow>
        resolveOverlayProvider h s w =
          (case h_get_profile h ns name w of
             (w', Inl e) \<Rightarrow> (w', Inl (if sos_providerRef (so_spec s) = None then ProviderNotSet ns name e
                                    else ProviderRefUnresolved ns name e))
           | (w', Inr profile) \<Rightarrow> (w', Inr (pps_provider (pp_spec profile)))))"
proof (intro conjI allI impI)
  fix ns name
  assume r: "profile_read (sns_provider (sn_spec n)) (net_namespace n) (sns_providerRef (sn_spec n)) = Some (ns, name)"
  then have "sns_provider (sn_spec n) = None" by (auto simp: profile_read_def split: if_splits)
  with r resolveProviderReference_read show "resolveNetworkProvider h n w =
      (case h_get_profile h ns name w of
         (w', Inl e) \<Rightarrow> (w', Inl (if sns_providerRef (sn_spec n) = None then ProviderNotSet ns name e
                                else ProviderRefUnresolved ns name e))
       | (w', Inr profile) \<Rightarrow> (w', Inr (pps_provider (pp_spec profile))))"
    by (simp add: resolveNetworkProvider_def)
next
  fix ns name
  assume r: "profile_read (sos_provider (so_spec s)) (overlay_namespace s) (sos_providerRef (so_spec s)) = Some (ns, name)"
  then have "sos_provider (so_spec s) = None" by (auto simp: profile_read_def split: if_splits)
  with r resolveProviderReference_read show "resolveOverlayProvider h s w =
      (case h_get_profile h ns name w of
         (w', Inl e) \<Rightarrow> (w', Inl (if sos_providerRef (so_spec s) = None then ProviderNotSet ns name e
                                else ProviderRefUnresolved ns name e))
       | (w', Inr profile) \<Rightarrow> (w', Inr (pps_provider (pp_spec profile))))"
    by (simp add: resolveOverlayProvider_def)
qed (simp_all add: resolveNetworkProvider_def resolveOverlayProvider_def)

lemma resolve_provider_outcome_witness:
  "resolveNetworkProvider mem_hub hub_network example_hub = (example_hub, Inr (empty_provider\<lparr>ps_name := ''sdn''\<rparr>))"
proof -
  have "profile_read (sns_provider (sn_spec hub_network)) (net_namespace hub_network) (sns_providerRef (sn_spec hub_network))
      = Some (''ns'', ''default'')"
    by (simp add: example_hub_simps profile_read_def DefaultIfEmpty_def defaultProviderProfileName_def)
  then have "resolveNetworkProvider mem_hub hub_network example_hub =
      (case h_get_profile mem_hub ''ns'' ''default'' example_hub of
         (w', Inl e) \<Rightarrow> (w', Inl (if sns_providerRef (sn_spec hub_network) = None then ProviderNotSet ''ns'' ''default'' e
                                else ProviderRefUnresolved ''ns'' ''default'' e))
       | (w', Inr profile) \<Rightarrow> (w', Inr (pps_provider (pp_spec profile))))"
    using resolve_provider_outcome [of hub_network mem_hub example_hub hub_slice] by blast
  also have "\<dots> = (example_hub, Inr (empty_provider\<lparr>ps_name := ''sdn''\<rparr>))"
    by (simp add: mem_hub_def mem_get_def obj_find_def key_of_def example_hub_simps)
  finally show ?thesis .
qed

text \<open>When a profile changes, exactly the objects whose provider is read from it are requested: of
  the listed networks (slices) those for which \<open>profile_read\<close> names the profile, each under its own
  namespace and name, in list order.\<close>

theorem requestsForProviderProfile_exact:
  "(\<forall>items w'. h_list_networks h w = (w', Inr items) \<longrightarrow>
      requestsForProviderProfile_network h (Some profile) w =
        (w', map (\<lambda>n. \<lparr>rq_namespace = net_namespace n, rq_name = net_name n\<rparr>)
           (filter (\<lambda>n. profile_read (sns_provider (sn_spec n)) (net_namespace n) (sns_providerRef (sn_spec n))
                         = Some (m_namespace (pp_meta profile), m_name (pp_meta profile))) items)))
   \<and> (\<forall>items w'. h_list_overlays h w = (w', Inr items) \<longrightarrow>
      requestsForProviderProfile_overlay h (Some profile) w =
        (w', map (\<lambda>s. \<lparr>rq_namespace = overlay_namespace s, rq_name = overlay_name s\<rparr>)
           (filter (\<lambda>s. profile_read (sos_provider (so_spec s)) (overlay_namespace s) (sos_providerRef (so_spec s))
                         = Some (m_namespace (pp_meta profile), m_name (pp_meta profile))) items)))"
proof -
  have iff: "(inline = None \<and> profile_concerns profile ns ref)
      \<longleftrightarrow> profile_read inline ns ref = Some (m_namespace (pp_meta profile), m_name (pp_meta profile))"
    for inline ns ref
    by (cases inline) (auto simp: profile_concerns_read, simp add: profile_read_def)
  show ?thesis
    by (simp add: requestsForProviderProfile_network_def requestsForProviderProfile_overlay_def iff)
qed

lemma requestsForProviderProfile_exact_witness:
  "requestsForProviderProfile_network mem_hub (Some example_profile) example_hub
     = (example_hub, [\<lparr>rq_namespace = ''ns'', rq_name = ''net''\<rparr>])
   \<and> requestsForProviderProfile_overlay mem_hub (Some example_profile) example_hub = (example_hub, [])"
proof -
  have "h_list_networks mem_hub example_hub = (example_hub, Inr [hub_network])"
    "h_list_overlays mem_hub example_hub = (example_hub, Inr [hub_slice])"
    by (simp_all add: mem_hub_def example_hub_def)
  with requestsForProviderProfile_exact [of mem_hub example_hub example_profile]
  show ?thesis
    by (auto simp: example_hub_simps profile_read_def DefaultIfEmpty_def defaultProviderProfileName_def)
qed

end
