(* ===== verification/Reconciler.thy ===== *)
theory Reconciler
  imports Resolver
begin

text \<open>
  The two reconcilers of \<open>internal/controller\<close> (\<open>slicenetwork_controller.go\<close>,
  \<open>sliceoverlay_controller.go\<close>), each written out as its Go code, and the locale \<open>reconciler\<close> of what
  they have in common: an object with a finalizer, deployed through the multi-domain client. The locale
  proves that what is deployed is never left behind without the finalizer; it is interpreted on both.
\<close>

section \<open>The reconcilers\<close>

definition sliceNetworkFinalizer :: string where
  "sliceNetworkFinalizer = ''l2sces.l2sm.io/slicenetwork-cleanup''"

definition sliceOverlayFinalizer :: string where
  "sliceOverlayFinalizer = ''l2sces.l2sm.io/sliceoverlay-cleanup''"

datatype rec_error =
    GetFailed kerr
  | ClientNotInitialized
  | MDFailed md_error
  | UpdateFailed kerr
  | ResolveFailed resolve_error

definition network_AddFinalizer :: "'w hub \<Rightarrow> slice_network \<Rightarrow> slice_network" where
  "network_AddFinalizer h n = n\<lparr>sn_meta := (sn_meta n)
     \<lparr>m_finalizers := h_add_finalizer h (m_finalizers (sn_meta n)) sliceNetworkFinalizer\<rparr>\<rparr>"

definition network_RemoveFinalizer :: "'w hub \<Rightarrow> slice_network \<Rightarrow> slice_network" where
  "network_RemoveFinalizer h n = n\<lparr>sn_meta := (sn_meta n)
     \<lparr>m_finalizers := h_remove_finalizer h (m_finalizers (sn_meta n)) sliceNetworkFinalizer\<rparr>\<rparr>"

definition network_ContainsFinalizer :: "'w hub \<Rightarrow> slice_network \<Rightarrow> bool" where
  "network_ContainsFinalizer h n = h_contains_finalizer h (m_finalizers (sn_meta n)) sliceNetworkFinalizer"

definition network_with_provider :: "provider_spec \<Rightarrow> slice_network \<Rightarrow> slice_network" where
  "network_with_provider p n = n\<lparr>sn_spec := (sn_spec n)\<lparr>sns_provider := Some p\<rparr>\<rparr>"

text \<open>\<open>SliceNetworkReconciler.Reconcile\<close>; \<open>mdc\<close> is the field \<open>MDClient\<close>, \<open>None\<close> for nil.\<close>

definition network_Reconcile :: "'w hub \<Rightarrow> 'w mdclient option \<Rightarrow> request \<Rightarrow> ('w, rec_error) action" where
  "network_Reconcile h mdc req w =
     (case h_get_network h (rq_namespace req) (rq_name req) w of
        (w1, Inl err) \<Rightarrow> if err = KNotFound then (w1, None) else (w1, Some (GetFailed err))
      | (w1, Inr sliceNetwork) \<Rightarrow>
          (case mdc of
             None \<Rightarrow> (w1, Some ClientNotInitialized)
           | Some md \<Rightarrow>
               if \<not> deletion_is_zero (sn_meta sliceNetwork) then
                 (if network_ContainsFinalizer h sliceNetwork then
                    (case md_DeleteNetwork md sliceNetwork (net_namespace sliceNetwork) w1 of
                       (w2, Some err) \<Rightarrow> (w2, Some (MDFailed err))
                     | (w2, None) \<Rightarrow>
                         (case h_update_network h (network_RemoveFinalizer h sliceNetwork) w2 of
                            (w3, Inl err) \<Rightarrow> (w3, Some (UpdateFailed err))
                          | (w3, Inr updated) \<Rightarrow> (w3, None)))
                  else (w1, None))
               else
                 (case (if \<not> network_ContainsFinalizer h sliceNetwork
                        then h_update_network h (network_AddFinalizer h sliceNetwork) w1
                        else (w1, Inr sliceNetwork)) of
                    (w2, Inl err) \<Rightarrow> (w2, Some (UpdateFailed err))
                  | (w2, Inr current) \<Rightarrow>
                      (case resolveNetworkProvider h current w2 of
                         (w3, Inl err) \<Rightarrow> (w3, Some (ResolveFailed err))
                       | (w3, Inr provider) \<Rightarrow>
                           (case md_ApplyNetwork md (network_with_provider provider current)
                                   (net_namespace current) w3 of
                              (w4, Some err) \<Rightarrow> (w4, Some (MDFailed err))
                            | (w4, None) \<Rightarrow> (w4, None))))))"

definition overlay_AddFinalizer :: "'w hub \<Rightarrow> slice_overlay \<Rightarrow> slice_overlay" where
  "overlay_AddFinalizer h s = s\<lparr>so_meta := (so_meta s)
     \<lparr>m_finalizers := h_add_finalizer h (m_finalizers (so_meta s)) sliceOverlayFinalizer\<rparr>\<rparr>"

definition overlay_RemoveFinalizer :: "'w hub \<Rightarrow> slice_overlay \<Rightarrow> slice_overlay" where
  "overlay_RemoveFinalizer h s = s\<lparr>so_meta := (so_meta s)
     \<lparr>m_finalizers := h_remove_finalizer h (m_finalizers (so_meta s)) sliceOverlayFinalizer\<rparr>\<rparr>"

definition overlay_ContainsFinalizer :: "'w hub \<Rightarrow> slice_overlay \<Rightarrow> bool" where
  "overlay_ContainsFinalizer h s = h_contains_finalizer h (m_finalizers (so_meta s)) sliceOverlayFinalizer"

definition overlay_with_provider :: "provider_spec \<Rightarrow> slice_overlay \<Rightarrow> slice_overlay" where
  "overlay_with_provider p s = s\<lparr>so_spec := (so_spec s)\<lparr>sos_provider := Some p\<rparr>\<rparr>"

definition overlay_Reconcile :: "'w hub \<Rightarrow> 'w mdclient option \<Rightarrow> request \<Rightarrow> ('w, rec_error) action" where
  "overlay_Reconcile h mdc req w =
     (case h_get_overlay h (rq_namespace req) (rq_name req) w of
        (w1, Inl err) \<Rightarrow> if err = KNotFound then (w1, None) else (w1, Some (GetFailed err))
      | (w1, Inr sliceOverlay) \<Rightarrow>
          (case mdc of
             None \<Rightarrow> (w1, Some ClientNotInitialized)
           | Some md \<Rightarrow>
               if \<not> deletion_is_zero (so_meta sliceOverlay) then
                 (if overlay_ContainsFinalizer h sliceOverlay then
                    (case md_DeleteSlice md sliceOverlay (overlay_namespace sliceOverlay) w1 of
                       (w2, Some err) \<Rightarrow> (w2, Some (MDFailed err))
                     | (w2, None) \<Rightarrow>
                         (case h_update_overlay h (overlay_RemoveFinalizer h sliceOverlay) w2 of
                            (w3, Inl err) \<Rightarrow> (w3, Some (UpdateFailed err))
                          | (w3, Inr updated) \<Rightarrow> (w3, None)))
                  else (w1, None))
               else
                 (case (if \<not> overlay_ContainsFinalizer h sliceOverlay
                        then h_update_overlay h (overlay_AddFinalizer h sliceOverlay) w1
                        else (w1, Inr sliceOverlay)) of
                    (w2, Inl err) \<Rightarrow> (w2, Some (UpdateFailed err))
                  | (w2, Inr current) \<Rightarrow>
                      (case resolveOverlayProvider h current w2 of
                         (w3, Inl err) \<Rightarrow> (w3, Some (ResolveFailed err))
                       | (w3, Inr provider) \<Rightarrow>
                           (case md_ApplySlice md (overlay_with_provider provider current)
                                   (overlay_namespace current) w3 of
                              (w4, Some err) \<Rightarrow> (w4, Some (MDFailed err))
                            | (w4, None) \<Rightarrow> (w4, None))))))"

section \<open>What they have in common\<close>

text \<open>\<open>upd x after y\<close>: an update of \<open>x\<close> returned \<open>y\<close> and left \<open>after\<close> at the key.\<close>

definition upd :: "('o \<Rightarrow> bool) \<Rightarrow> ('o \<Rightarrow> bool) \<Rightarrow> ('o \<Rightarrow> 'i) \<Rightarrow> 'o \<Rightarrow> 'o option \<Rightarrow> 'o \<Rightarrow> bool" where
  "upd deleting has_fin ident x after y \<longleftrightarrow>
     has_fin y = has_fin x \<and> deleting y = deleting x \<and> ident y = ident x
     \<and> (after = Some y \<or> after = None \<and> deleting x \<and> \<not> has_fin x)"

locale reconciler =
  fixes ok :: bool
    and get :: "'w \<Rightarrow> 'w \<times> (kerr + 'o)"
    and update :: "'o \<Rightarrow> 'w \<Rightarrow> 'w \<times> (kerr + 'o)"
    and deleting :: "'o \<Rightarrow> bool"
    and has_fin :: "'o \<Rightarrow> bool"
    and add_fin :: "'o \<Rightarrow> 'o"
    and rem_fin :: "'o \<Rightarrow> 'o"
    and resolve :: "'o \<Rightarrow> 'w \<Rightarrow> 'w \<times> (resolve_error + provider_spec)"
    and with_provider :: "provider_spec \<Rightarrow> 'o \<Rightarrow> 'o"
    and apply_obj :: "'o \<Rightarrow> ('w, md_error) action"
    and delete_obj :: "'o \<Rightarrow> ('w, md_error) action"
    and reconcile :: "('w, rec_error) action"
    and mine :: "'o \<Rightarrow> bool"
    and stored :: "'w \<Rightarrow> 'o option"
    and works :: "'w \<Rightarrow> work_view"
    and keys :: "'o \<Rightarrow> (string \<times> string) set"
    and ident :: "'o \<Rightarrow> 'i"
    and others :: "'w \<Rightarrow> 'r"
  assumes reconcile_flow: "reconcile w =
      (case get w of
         (w1, Inl err) \<Rightarrow> if err = KNotFound then (w1, None) else (w1, Some (GetFailed err))
       | (w1, Inr x) \<Rightarrow>
           if deleting x then
             (if has_fin x then
                (case delete_obj x w1 of
                   (w2, Some err) \<Rightarrow> (w2, Some (MDFailed err))
                 | (w2, None) \<Rightarrow>
                     (case update (rem_fin x) w2 of
                        (w3, Inl err) \<Rightarrow> (w3, Some (UpdateFailed err))
                      | (w3, Inr y) \<Rightarrow> (w3, None)))
              else (w1, None))
           else
             (case (if \<not> has_fin x then update (add_fin x) w1 else (w1, Inr x)) of
                (w2, Inl err) \<Rightarrow> (w2, Some (UpdateFailed err))
              | (w2, Inr y) \<Rightarrow>
                  (case resolve y w2 of
                     (w3, Inl err) \<Rightarrow> (w3, Some (ResolveFailed err))
                   | (w3, Inr p) \<Rightarrow>
                       (case apply_obj (with_provider p y) w3 of
                          (w4, Some err) \<Rightarrow> (w4, Some (MDFailed err))
                        | (w4, None) \<Rightarrow> (w4, None)))))"
    and get_reads: "ok \<Longrightarrow> get w = (w', r) \<Longrightarrow> stored w' = stored w \<and> works w' = works w
      \<and> others w' = others w
      \<and> (\<forall>x. r = Inr x \<longrightarrow> stored w = Some x \<and> mine x) \<and> (r = Inl KNotFound \<longrightarrow> stored w = None)"
    and update_writes: "ok \<Longrightarrow> mine x \<Longrightarrow> update x w = (w', r) \<Longrightarrow> works w' = works w \<and> others w' = others w
      \<and> (case r of Inr y \<Rightarrow> upd deleting has_fin ident x (stored w') y
         | Inl e \<Rightarrow> stored w' = stored w \<or> (\<exists>y. upd deleting has_fin ident x (stored w') y))"
    and add_fin: "ok \<Longrightarrow> has_fin (add_fin x) \<and> deleting (add_fin x) = deleting x \<and> mine (add_fin x) = mine x
      \<and> ident (add_fin x) = ident x"
    and ident_keys: "ident y = ident x \<Longrightarrow> keys y = keys x"
    and rem_fin: "ok \<Longrightarrow> \<not> has_fin (rem_fin x) \<and> deleting (rem_fin x) = deleting x \<and> mine (rem_fin x) = mine x"
    and resolve_reads: "ok \<Longrightarrow> resolve x w = (w', q) \<Longrightarrow> stored w' = stored w \<and> works w' = works w \<and> others w' = others w"
    and provider_keys: "keys (with_provider p x) = keys x"
    and apply_writes: "ok \<Longrightarrow> apply_obj x w = (w', s) \<Longrightarrow> stored w' = stored w \<and> others w' = others w
      \<and> (\<forall>key. key \<notin> keys x \<longrightarrow> works w' key = works w key)
      \<and> (s = None \<longrightarrow> (\<forall>key. key \<in> keys x \<longrightarrow> works w' key \<noteq> None))"
    and delete_writes: "ok \<Longrightarrow> delete_obj x w = (w', s) \<Longrightarrow> stored w' = stored w \<and> others w' = others w
      \<and> (\<forall>key. key \<notin> keys x \<longrightarrow> works w' key = works w key)
      \<and> (s = None \<longrightarrow> (\<forall>key. key \<in> keys x \<longrightarrow> works w' key = None))"
begin

text \<open>The stages of a run.\<close>

lemma stages:
  assumes "ok" "reconcile w = (w', r)"
  obtains (unread) "stored w' = stored w" "works w' = works w" "r = None \<Longrightarrow> \<exists>e. get w = (w', Inl e) \<and> e = KNotFound"
  | (released) x where "stored w = Some x" "deleting x" "\<not> has_fin x" "stored w' = stored w" "works w' = works w"
  | (delete_failed) x w1 e where "stored w = Some x" "deleting x" "has_fin x"
      "stored w1 = stored w" "works w1 = works w" "delete_obj x w1 = (w', Some e)" "r = Some (MDFailed e)"
  | (deleted) x w1 w2 q where "stored w = Some x" "mine x" "deleting x" "has_fin x"
      "stored w1 = stored w" "works w1 = works w" "delete_obj x w1 = (w2, None)"
      "update (rem_fin x) w2 = (w', q)" "r = None \<Longrightarrow> \<exists>y. q = Inr y"
  | (add_failed) x w1 e where "stored w = Some x" "mine x" "\<not> deleting x" "\<not> has_fin x"
      "stored w1 = stored w" "works w1 = works w" "update (add_fin x) w1 = (w', Inl e)" "r = Some (UpdateFailed e)"
  | (guarded) x y w2 w3 q where "stored w = Some x" "\<not> deleting x" "\<not> deleting y" "has_fin y" "keys y = keys x" "ident y = ident x"
      "stored w2 = Some y" "works w2 = works w" "resolve y w2 = (w3, q)"
      "(\<exists>e. q = Inl e \<and> w' = w3 \<and> r = Some (ResolveFailed e))
       \<or> (\<exists>p s. q = Inr p \<and> apply_obj (with_provider p y) w3 = (w', s) \<and> r = map_option MDFailed s)"
      "others w2 = others w"
proof -
  obtain w1 g where get: "get w = (w1, g)" by fastforce
  note reads = get_reads [OF assms(1) get]
  show thesis
  proof (cases g)
    case (Inl e)
    with assms(2) get reads show thesis
      by (intro unread) (auto simp: reconcile_flow split: if_splits)
  next
    case (Inr x)
    then have x: "stored w = Some x" "mine x" and same: "stored w1 = stored w" "works w1 = works w"
      using reads by auto
    show thesis
    proof (cases "deleting x")
      case True
      show thesis
      proof (cases "has_fin x")
        case False
        with True assms(2) get Inr x same show thesis
          by (intro released) (auto simp: reconcile_flow)
      next
        case fin: True
        obtain w2 s where d: "delete_obj x w1 = (w2, s)" by fastforce
        show thesis
        proof (cases s)
          case (Some e)
          with True fin assms(2) get Inr x same d show thesis
            by (intro delete_failed [of x w1 e]) (auto simp: reconcile_flow)
        next
          case None
          obtain w3 q where u: "update (rem_fin x) w2 = (w3, q)" by fastforce
          have run: "w' = w3" "r = (case q of Inl e \<Rightarrow> Some (UpdateFailed e) | Inr y \<Rightarrow> None)"
            using True fin assms(2) get Inr d None u by (auto simp: reconcile_flow split: sum.splits)
          show thesis
            by (rule deleted [of x w1 w2 q])
               (use True fin x same d None u run in \<open>auto split: sum.splits\<close>)
        qed
      qed
    next
      case False
      obtain w2 g2 where a: "(if \<not> has_fin x then update (add_fin x) w1 else (w1, Inr x)) = (w2, g2)"
        by fastforce
      show thesis
      proof (cases g2)
        case (Inl e)
        then have "\<not> has_fin x" "update (add_fin x) w1 = (w2, Inl e)" using a by (auto split: if_splits)
        with False assms(2) get Inr x same show thesis
          by (intro add_failed [of x w1 e]) (auto simp: reconcile_flow)
      next
        case y: (Inr y)
        have facts: "stored w2 = Some y \<and> works w2 = works w \<and> has_fin y \<and> \<not> deleting y \<and> ident y = ident x
            \<and> others w2 = others w"
        proof (cases "has_fin x")
          case True
          with a y x same reads False show ?thesis by simp
        next
          case nofin: False
          with a y have u: "update (add_fin x) w1 = (w2, Inr y)" by simp
          note add = add_fin [OF assms(1), of x]
          from add x have "mine (add_fin x)" by simp
          from update_writes [OF assms(1) this u] add False same reads show ?thesis by (auto simp: upd_def)
        qed
        obtain w3 q where res: "resolve y w2 = (w3, q)" by fastforce
        have flow: "reconcile w = (case q of Inl e \<Rightarrow> (w3, Some (ResolveFailed e))
            | Inr p \<Rightarrow> (case apply_obj (with_provider p y) w3 of (w4, Some err) \<Rightarrow> (w4, Some (MDFailed err)) | (w4, None) \<Rightarrow> (w4, None)))"
          unfolding reconcile_flow get Inr prod.case sum.case using False a y res by simp
        show thesis
        proof (rule guarded [of x y w2 w3 q])
          show "(\<exists>e. q = Inl e \<and> w' = w3 \<and> r = Some (ResolveFailed e))
             \<or> (\<exists>p s. q = Inr p \<and> apply_obj (with_provider p y) w3 = (w', s) \<and> r = map_option MDFailed s)"
            using flow assms(2) by (auto split: sum.splits prod.splits option.splits)
        qed (use facts x False res ident_keys [of y x] in auto)
      qed
    qed
  qed
qed

lemma apply_writesD:
  assumes "ok" "apply_obj x w = (w', s)"
  shows "stored w' = stored w" and "key \<notin> keys x \<Longrightarrow> works w' key = works w key"
    and "s = None \<Longrightarrow> key \<in> keys x \<Longrightarrow> works w' key \<noteq> None"
  using apply_writes [OF assms] by blast+

lemma delete_writesD:
  assumes "ok" "delete_obj x w = (w', s)"
  shows "stored w' = stored w" and "key \<notin> keys x \<Longrightarrow> works w' key = works w key"
    and "s = None \<Longrightarrow> key \<in> keys x \<Longrightarrow> works w' key = None"
  using delete_writes [OF assms] by blast+

text \<open>What the last two stages leave.\<close>

lemma guarded_end:
  assumes ok: "ok" and r: "resolve y w2 = (w3, q)" "stored w2 = Some y"
    and run: "(\<exists>e. q = Inl e \<and> w' = w3 \<and> r = Some (ResolveFailed e))
       \<or> (\<exists>p s. q = Inr p \<and> apply_obj (with_provider p y) w3 = (w', s) \<and> r = map_option MDFailed s)"
  shows "stored w' = Some y"
    and "key \<notin> keys y \<Longrightarrow> works w' key = works w2 key"
    and "r = None \<Longrightarrow> key \<in> keys y \<Longrightarrow> works w' key \<noteq> None"
proof -
  have same: "stored w3 = Some y" "works w3 = works w2" using resolve_reads [OF ok r(1)] r(2) by simp_all
  have "stored w' = Some y \<and> (key \<notin> keys y \<longrightarrow> works w' key = works w2 key)
      \<and> (r = None \<longrightarrow> key \<in> keys y \<longrightarrow> works w' key \<noteq> None)"
    using run
  proof
    assume "\<exists>e. q = Inl e \<and> w' = w3 \<and> r = Some (ResolveFailed e)"
    with same show ?thesis by auto
  next
    assume "\<exists>p s. q = Inr p \<and> apply_obj (with_provider p y) w3 = (w', s) \<and> r = map_option MDFailed s"
    then obtain p s where a: "apply_obj (with_provider p y) w3 = (w', s)" "r = map_option MDFailed s" by blast
    note eff = apply_writesD [OF ok a(1), unfolded provider_keys]
    show ?thesis
    proof (intro conjI impI)
      show "stored w' = Some y" using eff(1) same(1) by simp
      show "key \<notin> keys y \<Longrightarrow> works w' key = works w2 key" using eff(2) same(2) by simp
      show "r = None \<Longrightarrow> key \<in> keys y \<Longrightarrow> works w' key \<noteq> None" using eff(3) a(2) by simp
    qed
  qed
  then show "stored w' = Some y" "key \<notin> keys y \<Longrightarrow> works w' key = works w2 key"
    "r = None \<Longrightarrow> key \<in> keys y \<Longrightarrow> works w' key \<noteq> None" by blast+
qed

lemma deleted_end:
  assumes "ok" "mine x" "delete_obj x w1 = (w2, None)" "update (rem_fin x) w2 = (w', q)"
  shows "key \<in> keys x \<Longrightarrow> works w' key = None" and "key \<notin> keys x \<Longrightarrow> works w' key = works w1 key"
    and "q = Inr y \<Longrightarrow> stored w' = None
      \<or> (\<exists>z. stored w' = Some z \<and> \<not> has_fin z \<and> deleting z = deleting x)"
proof -
  from assms(1,2) rem_fin have "mine (rem_fin x)" "\<not> has_fin (rem_fin x)" "deleting (rem_fin x) = deleting x"
    by simp_all
  note u = update_writes [OF assms(1) this(1) assms(4)]
  note d = delete_writesD [OF assms(1,3)]
  show "key \<in> keys x \<Longrightarrow> works w' key = None" "key \<notin> keys x \<Longrightarrow> works w' key = works w1 key"
    using u d by simp_all
  show "q = Inr y \<Longrightarrow> stored w' = None
      \<or> (\<exists>z. stored w' = Some z \<and> \<not> has_fin z \<and> deleting z = deleting x)"
    using u \<open>\<not> has_fin (rem_fin x)\<close> \<open>deleting (rem_fin x) = deleting x\<close> by (auto simp: upd_def)
qed

text \<open>What a successful run did.\<close>

lemma outcome:
  assumes ok: "ok" and run: "reconcile w = (w', None)"
  obtains (absent) "stored w = None" "stored w' = None" "works w' = works w"
  | (released) x where "stored w = Some x" "deleting x" "\<not> has_fin x" "stored w' = Some x" "works w' = works w"
  | (cleaned) x where "stored w = Some x" "deleting x" "has_fin x"
      "\<And>key. key \<in> keys x \<Longrightarrow> works w' key = None" "\<And>key. key \<notin> keys x \<Longrightarrow> works w' key = works w key"
      "stored w' = None \<or> (\<exists>z. stored w' = Some z \<and> deleting z \<and> \<not> has_fin z)"
  | (deployed) x y p w2 w3 where "stored w = Some x" "\<not> deleting x" "stored w' = Some y" "\<not> deleting y"
      "has_fin y" "ident y = ident x" "keys y = keys x" "others w2 = others w" "works w3 = works w"
      "resolve y w2 = (w3, Inr p)" "apply_obj (with_provider p y) w3 = (w', None)"
  using ok run
proof (cases rule: stages)
  case unread
  then have "stored w = None" using get_reads [OF ok] by blast
  with unread show thesis by (intro absent) simp_all
next
  case (released x)
  then show thesis by (intro that(2)) simp_all
next
  case (deleted x w1 w2 q)
  then obtain y where y: "q = Inr y" by auto
  note e = deleted_end [OF ok deleted(2,7,8)]
  show thesis
  proof (rule cleaned [OF deleted(1,3,4)])
    show "\<And>key. key \<in> keys x \<Longrightarrow> works w' key = None" by (rule e(1))
    show "\<And>key. key \<notin> keys x \<Longrightarrow> works w' key = works w key" using e(2) deleted(6) by simp
    show "stored w' = None \<or> (\<exists>z. stored w' = Some z \<and> deleting z \<and> \<not> has_fin z)"
      using e(3) [OF y] deleted(3) by blast
  qed
next
  case (guarded x y w2 w3 q)
  then obtain p where p: "q = Inr p" "apply_obj (with_provider p y) w3 = (w', None)" by auto
  have "stored w' = Some y" by (rule guarded_end(1) [OF ok guarded(9,7,10)])
  moreover have "works w3 = works w" using resolve_reads [OF ok guarded(9)] guarded(8) by simp
  ultimately show thesis using guarded p by (intro deployed [of x y w2 w3 p]) simp_all
qed simp_all

text \<open>A run leaves every other object as it was.\<close>

lemma others_kept:
  assumes ok: "ok" and run: "reconcile w = (w', r)"
  shows "others w' = others w"
proof -
  obtain w1 g where get: "get w = (w1, g)" by fastforce
  have o1: "others w1 = others w" using get_reads [OF ok get] by simp
  show ?thesis
  proof (cases g)
    case (Inl e)
    with run get o1 show ?thesis by (auto simp: reconcile_flow split: if_splits)
  next
    case (Inr x)
    with get_reads [OF ok get] have mine: "mine x" by simp
    show ?thesis
    proof (cases "deleting x")
      case True
      obtain w2 s where d: "delete_obj x w1 = (w2, s)" by fastforce
      have o2: "others w2 = others w1" using delete_writes [OF ok d] by simp
      obtain w3 q where u: "update (rem_fin x) w2 = (w3, q)" by fastforce
      have "mine (rem_fin x)" using rem_fin [OF ok] mine by simp
      then have o3: "others w3 = others w2" using update_writes [OF ok _ u] by simp
      from run get Inr True d u have "w' = w1 \<or> w' = w2 \<or> w' = w3"
        by (auto simp: reconcile_flow split: if_splits option.splits sum.splits)
      with o1 o2 o3 show ?thesis by auto
    next
      case False
      obtain w2 g2 where a: "(if \<not> has_fin x then update (add_fin x) w1 else (w1, Inr x)) = (w2, g2)"
        by fastforce
      have "mine (add_fin x)" using add_fin [OF ok] mine by simp
      then have o2: "others w2 = others w1"
        using update_writes [OF ok, of "add_fin x" w1] a by (auto split: if_splits)
      show ?thesis
      proof (cases g2)
        case (Inl e)
        with run get Inr False a o1 o2 show ?thesis by (auto simp: reconcile_flow)
      next
        case y: (Inr y)
        obtain w3 q where res: "resolve y w2 = (w3, q)" by fastforce
        have o3: "others w3 = others w2" using resolve_reads [OF ok res] by simp
        have flow: "reconcile w = (case q of Inl e \<Rightarrow> (w3, Some (ResolveFailed e))
            | Inr p \<Rightarrow> (case apply_obj (with_provider p y) w3 of (w4, Some err) \<Rightarrow> (w4, Some (MDFailed err)) | (w4, None) \<Rightarrow> (w4, None)))"
          unfolding reconcile_flow get Inr prod.case sum.case using False a y res by simp
        show ?thesis
        proof (cases q)
          case e: (Inl e)
          with run flow o1 o2 o3 show ?thesis by simp
        next
          case p: (Inr p)
          obtain w4 s where ap: "apply_obj (with_provider p y) w3 = (w4, s)" by fastforce
          have "others w4 = others w3" using apply_writes [OF ok ap] by simp
          with run flow p ap o1 o2 o3 show ?thesis by (auto split: option.splits)
        qed
      qed
    qed
  qed
qed

text \<open>An object with the finalizer keeps it, in whatever way the run ends, until its works are gone.\<close>

lemma finalizer_until_clean:
  assumes "ok" "reconcile w = (w', r)" "stored w = Some x" "has_fin x"
  shows "(\<forall>key. key \<in> keys x \<longrightarrow> works w' key = None)
    \<or> (\<exists>y. stored w' = Some y \<and> has_fin y \<and> keys y = keys x)"
  using assms(1,2)
proof (cases rule: stages)
  case unread
  with assms show ?thesis by auto
next
  case (released x')
  with assms show ?thesis by auto
next
  case (delete_failed x' w1 e)
  with assms show ?thesis using delete_writesD(1) [OF assms(1) delete_failed(6)] by auto
next
  case (deleted x' w1 w2 q)
  with assms have "x' = x" by simp
  then show ?thesis using deleted_end(1) [OF assms(1) deleted(2,7,8)] by blast
next
  case (add_failed x' w1 e)
  with assms show ?thesis by auto
next
  case (guarded x' y w2 w3 q)
  have "stored w' = Some y" by (rule guarded_end(1) [OF assms(1) guarded(9,7,10)])
  with guarded assms show ?thesis by auto
qed

text \<open>A run changes no work but those of its object, and deploys only with the finalizer stored.\<close>

lemma deploys_guarded:
  assumes "ok" "reconcile w = (w', r)" "works w' key \<noteq> works w key"
  shows "\<exists>x. stored w = Some x \<and> key \<in> keys x
    \<and> (if deleting x then has_fin x else \<exists>y. stored w' = Some y \<and> has_fin y \<and> keys y = keys x)"
  using assms(1,2)
proof (cases rule: stages)
  case (delete_failed x w1 e)
  have "key \<in> keys x"
    using delete_writesD(2) [OF assms(1) delete_failed(6), of key] delete_failed(5) assms(3) by auto
  with delete_failed show ?thesis by auto
next
  case (deleted x w1 w2 q)
  have "key \<in> keys x"
    using deleted_end(2) [OF assms(1) deleted(2,7,8), of key] deleted(6) assms(3) by auto
  with deleted show ?thesis by auto
next
  case (add_failed x w1 e)
  have "mine (add_fin x)" using add_fin [OF assms(1)] add_failed(2) by simp
  from update_writes [OF assms(1) this add_failed(7)] add_failed(6) assms(3) show ?thesis by simp
next
  case (guarded x y w2 w3 q)
  have "stored w' = Some y" by (rule guarded_end(1) [OF assms(1) guarded(9,7,10)])
  moreover have "key \<in> keys y"
    using guarded_end(2) [OF assms(1) guarded(9,7,10), of key] guarded(8) assms(3) by auto
  ultimately show ?thesis using guarded by auto
qed (use assms in auto)

text \<open>A work there is after a run was there before and is not the object's, or its object is stored with
  the finalizer.\<close>

lemma works_owned:
  assumes "ok" "reconcile w = (w', r)" "works w' key \<noteq> None"
  shows "(\<exists>y. stored w' = Some y \<and> has_fin y \<and> key \<in> keys y)
    \<or> (works w key \<noteq> None \<and> (\<forall>x. stored w = Some x \<longrightarrow> has_fin x \<longrightarrow> key \<notin> keys x))"
proof (cases "works w' key = works w key")
  case True
  with assms finalizer_until_clean [OF assms(1,2)] show ?thesis by metis
next
  case False
  from deploys_guarded [OF assms(1,2) this] obtain x where "stored w = Some x" "key \<in> keys x"
      "if deleting x then has_fin x else \<exists>y. stored w' = Some y \<and> has_fin y \<and> keys y = keys x" by blast
  with assms finalizer_until_clean [OF assms(1,2)] show ?thesis by (metis (no_types, lifting))
qed

lemma deploys:
  assumes "ok" "reconcile w = (w', None)" "stored w = Some x" "\<not> deleting x"
  shows "(\<exists>y. stored w' = Some y \<and> has_fin y \<and> keys y = keys x) \<and> (key \<in> keys x \<longrightarrow> works w' key \<noteq> None)"
  using assms(1,2)
proof (cases rule: outcome)
  case (deployed x' y p w2 w3)
  with assms apply_writesD(3) [OF assms(1) deployed(11) refl, unfolded provider_keys] show ?thesis by auto
qed (use assms in auto)

text \<open>What a successful run of a live object applied.\<close>

lemma deploys_by:
  assumes "ok" "reconcile w = (w', None)" "stored w = Some x" "\<not> deleting x"
  shows "\<exists>y p w2 w3. stored w' = Some y \<and> has_fin y \<and> ident y = ident x \<and> works w3 = works w
    \<and> resolve y w2 = (w3, Inr p) \<and> apply_obj (with_provider p y) w3 = (w', None)"
  using assms(1,2) by (cases rule: outcome) (use assms in auto)

lemma cleans:
  assumes "ok" "reconcile w = (w', None)" "stored w = Some x" "deleting x" "has_fin x"
  shows "(key \<in> keys x \<longrightarrow> works w' key = None)
    \<and> (stored w' = None \<or> (\<exists>z. stored w' = Some z \<and> \<not> has_fin z))"
  using assms(1,2) by (cases rule: outcome) (use assms in auto)

text \<open>When the hub and the clusters answer, one run finishes a deletion.\<close>

lemma completes:
  assumes ok: "ok" and x: "stored w = Some x" "deleting x" "has_fin x"
    and get: "\<And>e. snd (get w) \<noteq> Inl e" and del: "\<And>v. snd (delete_obj x v) = None"
    and upd: "\<And>v. mine x \<Longrightarrow> stored v = Some x \<Longrightarrow>
        (\<forall>e. snd (update (rem_fin x) v) \<noteq> Inl e) \<and> stored (fst (update (rem_fin x) v)) = None"
  shows "\<exists>w'. reconcile w = (w', None) \<and> stored w' = None \<and> (\<forall>key. key \<in> keys x \<longrightarrow> works w' key = None)"
proof -
  obtain w1 g where g: "get w = (w1, g)" by fastforce
  then obtain z where z: "g = Inr z" using get by (cases g) auto
  with get_reads [OF ok g] x have same: "z = x" "stored w1 = Some x" "mine x" by auto
  obtain w2 s where d: "delete_obj x w1 = (w2, s)" by fastforce
  with del [of w1] have s: "s = None" by simp
  have w2: "stored w2 = Some x" using delete_writesD(1) [OF ok d] same(2) by simp
  obtain w3 q where u: "update (rem_fin x) w2 = (w3, q)" by fastforce
  with upd [OF same(3) w2] obtain y where q: "q = Inr y" and gone: "stored w3 = None" by (cases q) auto
  have "reconcile w = (w3, None)" using g z same d s u q x by (simp add: reconcile_flow)
  with gone deleted_end(1) [OF ok same(3) d [unfolded s] u] show ?thesis by blast
qed

text \<open>Whatever else no operation touches is left alone as well.\<close>

lemma extend:
  fixes rest :: "'w \<Rightarrow> 'z"
  assumes weak: "ok' \<Longrightarrow> ok"
    and "\<And>w w' r. ok' \<Longrightarrow> get w = (w', r) \<Longrightarrow> rest w' = rest w"
    and "\<And>x w w' r. ok' \<Longrightarrow> update x w = (w', r) \<Longrightarrow> rest w' = rest w"
    and "\<And>x w w' q. ok' \<Longrightarrow> resolve x w = (w', q) \<Longrightarrow> rest w' = rest w"
    and "\<And>x w w' s. ok' \<Longrightarrow> apply_obj x w = (w', s) \<Longrightarrow> rest w' = rest w"
    and "\<And>x w w' s. ok' \<Longrightarrow> delete_obj x w = (w', s) \<Longrightarrow> rest w' = rest w"
  shows "reconciler ok' get update deleting has_fin add_fin rem_fin resolve with_provider apply_obj delete_obj
    reconcile mine stored works keys ident (\<lambda>w. (others w, rest w))"
proof
  show "stored w' = stored w \<and> works w' = works w \<and> (others w', rest w') = (others w, rest w)
      \<and> (\<forall>x. r = Inr x \<longrightarrow> stored w = Some x \<and> mine x) \<and> (r = Inl KNotFound \<longrightarrow> stored w = None)"
    if "ok'" "get w = (w', r)" for w w' r
    using get_reads [OF weak [OF that(1)] that(2)] assms(2) [OF that] by simp
  show "works w' = works w \<and> (others w', rest w') = (others w, rest w)
      \<and> (case r of Inr y \<Rightarrow> upd deleting has_fin ident x (stored w') y
         | Inl e \<Rightarrow> stored w' = stored w \<or> (\<exists>y. upd deleting has_fin ident x (stored w') y))"
    if "ok'" "mine x" "update x w = (w', r)" for x w w' r
    using update_writes [OF weak [OF that(1)] that(2,3)] assms(3) [OF that(1,3)] by simp
  show "stored w' = stored w \<and> works w' = works w \<and> (others w', rest w') = (others w, rest w)"
    if "ok'" "resolve x w = (w', q)" for x w w' q
    using resolve_reads [OF weak [OF that(1)] that(2)] assms(4) [OF that] by simp
  show "stored w' = stored w \<and> (others w', rest w') = (others w, rest w)
      \<and> (\<forall>key. key \<notin> keys x \<longrightarrow> works w' key = works w key)
      \<and> (s = None \<longrightarrow> (\<forall>key. key \<in> keys x \<longrightarrow> works w' key \<noteq> None))"
    if "ok'" "apply_obj x w = (w', s)" for x w w' s
    using apply_writes [OF weak [OF that(1)] that(2)] assms(5) [OF that]
    by (simp del: split_paired_All)
  show "stored w' = stored w \<and> (others w', rest w') = (others w, rest w)
      \<and> (\<forall>key. key \<notin> keys x \<longrightarrow> works w' key = works w key)
      \<and> (s = None \<longrightarrow> (\<forall>key. key \<in> keys x \<longrightarrow> works w' key = None))"
    if "ok'" "delete_obj x w = (w', s)" for x w w' s
    using delete_writes [OF weak [OF that(1)] that(2)] assms(6) [OF that]
    by (simp del: split_paired_All)
qed (rule reconcile_flow add_fin [OF weak] rem_fin [OF weak] provider_keys ident_keys; assumption)+

end

section \<open>Both reconcilers with the OCM client\<close>

definition system_laws :: "'w hub \<Rightarrow> 'w kube \<Rightarrow> ('w \<Rightarrow> work_view) \<Rightarrow> ('w \<Rightarrow> string \<times> string \<rightharpoonup> slice_network)
    \<Rightarrow> ('w \<Rightarrow> string \<times> string \<rightharpoonup> slice_overlay) \<Rightarrow> bool" where
  "system_laws h k works networks overlays \<longleftrightarrow> hub_laws h works networks overlays
     \<and> work_laws k works \<and> hub_untouched k (\<lambda>w. (networks w, overlays w))"

definition network_keys :: "'w kube \<Rightarrow> slice_network \<Rightarrow> (string \<times> string) set" where
  "network_keys k n = network_key k n ` set (sns_clusters (sn_spec n))"

definition network_ident :: "slice_network \<Rightarrow> string \<times> string \<times> slice_network_spec" where
  "network_ident n = (net_namespace n, net_name n, sn_spec n)"

definition slice_ident :: "slice_overlay \<Rightarrow> string \<times> string \<times> slice_overlay_spec" where
  "slice_ident s = (overlay_namespace s, overlay_name s, so_spec s)"

definition ocm_client :: "'w kube \<Rightarrow> 'w mdclient" where
  "ocm_client k = client_ops (OCMClient k :: (unit, 'w) client)"

lemma ocm_client_simps [simp]:
  "md_ApplyNetwork (ocm_client k) = ocm_ApplyNetwork k" "md_DeleteNetwork (ocm_client k) = ocm_DeleteNetwork k"
  "md_ApplySlice (ocm_client k) = ocm_ApplySlice k" "md_DeleteSlice (ocm_client k) = ocm_DeleteSlice k"
  by (simp_all add: ocm_client_def)

lemma object_lawsD:
  assumes "object_laws get update meta spec stored works ns name"
  shows "get w = (w', r) \<Longrightarrow> stored w' = stored w \<and> works w' = works w
      \<and> (\<forall>x. r = Inr x \<longrightarrow> stored w = Some x \<and> m_namespace (meta x) = ns \<and> m_name (meta x) = name)
      \<and> (r = Inl KNotFound \<longrightarrow> stored w = None)"
    and "m_namespace (meta x) = ns \<Longrightarrow> m_name (meta x) = name \<Longrightarrow> update x w = (w', q) \<Longrightarrow> works w' = works w
      \<and> (case q of Inr y \<Rightarrow> update_stores meta spec x (stored w') y
         | Inl e \<Rightarrow> stored w' = stored w \<or> (\<exists>y. update_stores meta spec x (stored w') y))"
proof -
  assume "get w = (w', r)"
  then have "stored w' = stored w \<and> works w' = works w \<and> (case r of
       Inr x \<Rightarrow> stored w = Some x \<and> m_namespace (meta x) = ns \<and> m_name (meta x) = name
     | Inl e \<Rightarrow> e = KNotFound \<longrightarrow> stored w = None)"
    using assms unfolding object_laws_def by blast
  then show "stored w' = stored w \<and> works w' = works w
      \<and> (\<forall>x. r = Inr x \<longrightarrow> stored w = Some x \<and> m_namespace (meta x) = ns \<and> m_name (meta x) = name)
      \<and> (r = Inl KNotFound \<longrightarrow> stored w = None)"
    by (cases r) auto
next
  assume "m_namespace (meta x) = ns" "m_name (meta x) = name" "update x w = (w', q)"
  then show "works w' = works w
      \<and> (case q of Inr y \<Rightarrow> update_stores meta spec x (stored w') y
         | Inl e \<Rightarrow> stored w' = stored w \<or> (\<exists>y. update_stores meta spec x (stored w') y))"
    using assms unfolding object_laws_def by blast
qed

lemma system_lawsD:
  assumes "system_laws h k works networks overlays"
  shows "work_laws k works \<and> hub_untouched k (\<lambda>w. (networks w, overlays w))"
    and "h_contains_finalizer h l f \<longleftrightarrow> f \<in> set l" and "set (h_add_finalizer h l f) = insert f (set l)"
    and "set (h_remove_finalizer h l f) = set l - {f}"
    and "object_laws (h_get_network h ns name) (h_update_network h) sn_meta sn_spec (\<lambda>w. networks w (ns, name)) works ns name"
    and "object_laws (h_get_overlay h ns name) (h_update_overlay h) so_meta so_spec (\<lambda>w. overlays w (ns, name)) works ns name"
  using assms unfolding system_laws_def hub_laws_def finalizer_laws_def by blast+

lemma system_frames:
  assumes "system_laws h k works networks overlays"
  shows "h_get_profile h ns name w = (w', r) \<Longrightarrow> works w' = works w \<and> networks w' = networks w \<and> overlays w' = overlays w"
    and "h_get_network h ns name w = (w', gn) \<Longrightarrow> networks w' = networks w \<and> overlays w' = overlays w"
    and "h_get_overlay h ns name w = (w', go) \<Longrightarrow> networks w' = networks w \<and> overlays w' = overlays w"
    and "h_update_network h n w = (w', un) \<Longrightarrow> overlays w' = overlays w
      \<and> (networks w')((net_namespace n, net_name n) := None) = (networks w)((net_namespace n, net_name n) := None)"
    and "h_update_overlay h s w = (w', uo) \<Longrightarrow> networks w' = networks w
      \<and> (overlays w')((overlay_namespace s, overlay_name s) := None) = (overlays w)((overlay_namespace s, overlay_name s) := None)"
proof -
  have "frame_laws h works networks overlays" using assms by (simp add: system_laws_def hub_laws_def)
  note f = this [unfolded frame_laws_def]
  show "h_get_profile h ns name w = (w', r) \<Longrightarrow> works w' = works w \<and> networks w' = networks w \<and> overlays w' = overlays w"
    using f by blast
  show "networks w' = networks w \<and> overlays w' = overlays w" if "h_get_network h ns name w = (w', gn)"
    using conjunct1 [OF f] that by metis
  show "networks w' = networks w \<and> overlays w' = overlays w" if "h_get_overlay h ns name w = (w', go)"
    using conjunct1 [OF conjunct2 [OF f]] that by metis
  show "h_update_network h n w = (w', un) \<Longrightarrow> overlays w' = overlays w
      \<and> (networks w')((net_namespace n, net_name n) := None) = (networks w)((net_namespace n, net_name n) := None)"
    using f by blast
  show "h_update_overlay h s w = (w', uo) \<Longrightarrow> networks w' = networks w
      \<and> (overlays w')((overlay_namespace s, overlay_name s) := None) = (overlays w)((overlay_namespace s, overlay_name s) := None)"
    using f by blast
qed

lemma resolve_reference_reads:
  assumes "system_laws h k works networks overlays" "resolveProviderReference h ns ref w = (w', r)"
  shows "works w' = works w \<and> networks w' = networks w \<and> overlays w' = overlays w"
proof -
  obtain pns pname where read: "profile_read None ns ref = Some (pns, pname)" by (simp add: profile_read_def)
  obtain w1 q where g: "h_get_profile h pns pname w = (w1, q)" by fastforce
  have "w' = w1" using assms(2) g unfolding resolveProviderReference_read [OF read] by (auto split: sum.splits)
  with system_frames(1) [OF assms(1) g] show ?thesis by simp
qed

text \<open>From what an update stores to what the locale asks of it.\<close>

lemma update_stores_upd:
  assumes laws: "system_laws h k works networks overlays"
    and keys: "\<And>x y. m_name (meta y) = m_name (meta x) \<Longrightarrow> m_namespace (meta y) = m_namespace (meta x)
        \<Longrightarrow> spec y = spec x \<Longrightarrow> keys y = keys x"
    and "update_stores meta spec x after y"
  shows "upd (\<lambda>x. \<not> deletion_is_zero (meta x)) (\<lambda>x. h_contains_finalizer h (m_finalizers (meta x)) f) keys x after y"
proof -
  note u = assms(3) [unfolded update_stores_def]
  have k: "keys y = keys x" by (rule keys) (use u in simp_all)
  have d: "deletion_is_zero (meta y) = deletion_is_zero (meta x)"
    and f: "set (m_finalizers (meta y)) = set (m_finalizers (meta x))"
    and a: "after = Some y \<or> after = None \<and> \<not> deletion_is_zero (meta x) \<and> m_finalizers (meta x) = []"
    using u by simp_all
  from a show ?thesis unfolding upd_def system_lawsD(2) [OF laws] k d f by auto
qed

interpretation net_rec: reconciler "system_laws h k works networks overlays"
    "h_get_network h (rq_namespace req) (rq_name req)" "h_update_network h"
    "\<lambda>n. \<not> deletion_is_zero (sn_meta n)" "network_ContainsFinalizer h" "network_AddFinalizer h"
    "network_RemoveFinalizer h" "resolveNetworkProvider h" network_with_provider
    "\<lambda>n. ocm_ApplyNetwork k n (net_namespace n)" "\<lambda>n. ocm_DeleteNetwork k n (net_namespace n)"
    "network_Reconcile h (Some (ocm_client k)) req"
    "\<lambda>n. net_namespace n = rq_namespace req \<and> net_name n = rq_name req"
    "\<lambda>w. networks w (rq_namespace req, rq_name req)" works "network_keys k" network_ident
    "\<lambda>w. ((networks w)((rq_namespace req, rq_name req) := None), overlays w)"
  for h :: "'w hub" and k :: "'w kube" and works networks overlays req
proof
  fix w
  have ns: "net_namespace (network_with_provider p y) = net_namespace y" for p y
    by (simp add: network_with_provider_def)
  show "network_Reconcile h (Some (ocm_client k)) req w =
      (case h_get_network h (rq_namespace req) (rq_name req) w of
         (w1, Inl err) \<Rightarrow> if err = KNotFound then (w1, None) else (w1, Some (GetFailed err))
       | (w1, Inr x) \<Rightarrow>
           if \<not> deletion_is_zero (sn_meta x) then
             (if network_ContainsFinalizer h x then
                (case ocm_DeleteNetwork k x (net_namespace x) w1 of
                   (w2, Some err) \<Rightarrow> (w2, Some (MDFailed err))
                 | (w2, None) \<Rightarrow>
                     (case h_update_network h (network_RemoveFinalizer h x) w2 of
                        (w3, Inl err) \<Rightarrow> (w3, Some (UpdateFailed err))
                      | (w3, Inr y) \<Rightarrow> (w3, None)))
              else (w1, None))
           else
             (case (if \<not> network_ContainsFinalizer h x then h_update_network h (network_AddFinalizer h x) w1 else (w1, Inr x)) of
                (w2, Inl err) \<Rightarrow> (w2, Some (UpdateFailed err))
              | (w2, Inr y) \<Rightarrow>
                  (case resolveNetworkProvider h y w2 of
                     (w3, Inl err) \<Rightarrow> (w3, Some (ResolveFailed err))
                   | (w3, Inr p) \<Rightarrow>
                       (case ocm_ApplyNetwork k (network_with_provider p y) (net_namespace (network_with_provider p y)) w3 of
                          (w4, Some err) \<Rightarrow> (w4, Some (MDFailed err))
                        | (w4, None) \<Rightarrow> (w4, None)))))"
    unfolding network_Reconcile_def option.case ocm_client_simps ns by (rule refl)
next
  fix w w' r
  assume laws: "system_laws h k works networks overlays"
    and get: "h_get_network h (rq_namespace req) (rq_name req) w = (w', r)"
  from object_lawsD(1) [OF system_lawsD(5) [OF laws] get] system_frames(2) [OF laws get]
  show "networks w' (rq_namespace req, rq_name req) = networks w (rq_namespace req, rq_name req) \<and> works w' = works w
      \<and> ((networks w')((rq_namespace req, rq_name req) := None), overlays w') = ((networks w)((rq_namespace req, rq_name req) := None), overlays w)
      \<and> (\<forall>x. r = Inr x \<longrightarrow> networks w (rq_namespace req, rq_name req) = Some x
            \<and> net_namespace x = rq_namespace req \<and> net_name x = rq_name req)
      \<and> (r = Inl KNotFound \<longrightarrow> networks w (rq_namespace req, rq_name req) = None)" by simp
next
  fix x w w' r
  assume laws: "system_laws h k works networks overlays"
    and mine: "net_namespace x = rq_namespace req \<and> net_name x = rq_name req"
    and run: "h_update_network h x w = (w', r)"
  have u: "upd (\<lambda>n. \<not> deletion_is_zero (sn_meta n)) (network_ContainsFinalizer h) network_ident x after y"
    if "update_stores sn_meta sn_spec x after y" for after y
    using update_stores_upd [OF laws _ that, of network_ident sliceNetworkFinalizer]
    by (simp add: network_ContainsFinalizer_def [abs_def] network_ident_def)
  have oth: "((networks w')((rq_namespace req, rq_name req) := None), overlays w') = ((networks w)((rq_namespace req, rq_name req) := None), overlays w)"
    using system_frames(4) [OF laws run] mine by simp
  show "works w' = works w \<and> ((networks w')((rq_namespace req, rq_name req) := None), overlays w') = ((networks w)((rq_namespace req, rq_name req) := None), overlays w) \<and> (case r of
      Inl e \<Rightarrow> networks w' (rq_namespace req, rq_name req) = networks w (rq_namespace req, rq_name req)
         \<or> (\<exists>y. upd (\<lambda>n. \<not> deletion_is_zero (sn_meta n)) (network_ContainsFinalizer h) network_ident x
                (networks w' (rq_namespace req, rq_name req)) y)
    | Inr y \<Rightarrow> upd (\<lambda>n. \<not> deletion_is_zero (sn_meta n)) (network_ContainsFinalizer h) network_ident x
                (networks w' (rq_namespace req, rq_name req)) y)"
    using object_lawsD(2) [OF system_lawsD(5) [OF laws] conjunct1 [OF mine] conjunct2 [OF mine] run] u oth
    by (cases r) (simp, blast, simp)
next
  fix x
  assume laws: "system_laws h k works networks overlays"
  show "network_ContainsFinalizer h (network_AddFinalizer h x)
      \<and> (\<not> deletion_is_zero (sn_meta (network_AddFinalizer h x))) = (\<not> deletion_is_zero (sn_meta x))
      \<and> (net_namespace (network_AddFinalizer h x) = rq_namespace req \<and> net_name (network_AddFinalizer h x) = rq_name req)
          = (net_namespace x = rq_namespace req \<and> net_name x = rq_name req)
      \<and> network_ident (network_AddFinalizer h x) = network_ident x"
    by (simp add: network_ContainsFinalizer_def network_AddFinalizer_def system_lawsD(2,3) [OF laws]
        deletion_is_zero_def network_ident_def)
  show "\<not> network_ContainsFinalizer h (network_RemoveFinalizer h x)
      \<and> (\<not> deletion_is_zero (sn_meta (network_RemoveFinalizer h x))) = (\<not> deletion_is_zero (sn_meta x))
      \<and> (net_namespace (network_RemoveFinalizer h x) = rq_namespace req \<and> net_name (network_RemoveFinalizer h x) = rq_name req)
          = (net_namespace x = rq_namespace req \<and> net_name x = rq_name req)"
    by (simp add: network_ContainsFinalizer_def network_RemoveFinalizer_def system_lawsD(2,4) [OF laws]
        deletion_is_zero_def)
next
  fix x w w' q
  assume laws: "system_laws h k works networks overlays" and run: "resolveNetworkProvider h x w = (w', q)"
  show "networks w' (rq_namespace req, rq_name req) = networks w (rq_namespace req, rq_name req) \<and> works w' = works w
      \<and> ((networks w')((rq_namespace req, rq_name req) := None), overlays w') = ((networks w)((rq_namespace req, rq_name req) := None), overlays w)"
  proof (cases "sns_provider (sn_spec x)")
    case None
    with run resolve_reference_reads [OF laws] show ?thesis by (simp add: resolveNetworkProvider_def)
  next
    case (Some p)
    with run show ?thesis by (simp add: resolveNetworkProvider_def)
  qed
next
  fix x y
  assume "network_ident y = network_ident x"
  then show "network_keys k y = network_keys k x"
    by (simp add: network_keys_def network_key_def network_ident_def)
next
  fix p x
  show "network_keys k (network_with_provider p x) = network_keys k x"
    by (simp add: network_keys_def network_key_def network_with_provider_def)
next
  fix x w w' s
  assume laws: "system_laws h k works networks overlays" and run: "ocm_ApplyNetwork k x (net_namespace x) w = (w', s)"
  from run have "md_ApplyNetwork (client_ops (OCMClient k :: (unit, 'w) client)) x (net_namespace x) w = (w', s)" by simp
  from ocm.apply_network [OF system_lawsD(1) [OF laws] this]
  show "networks w' (rq_namespace req, rq_name req) = networks w (rq_namespace req, rq_name req)
      \<and> ((networks w')((rq_namespace req, rq_name req) := None), overlays w') = ((networks w)((rq_namespace req, rq_name req) := None), overlays w)
      \<and> (\<forall>key. key \<notin> network_keys k x \<longrightarrow> works w' key = works w key)
      \<and> (s = None \<longrightarrow> (\<forall>key. key \<in> network_keys k x \<longrightarrow> works w' key \<noteq> None))"
    unfolding network_keys_def by simp
next
  fix x w w' s
  assume laws: "system_laws h k works networks overlays" and run: "ocm_DeleteNetwork k x (net_namespace x) w = (w', s)"
  from run have "md_DeleteNetwork (client_ops (OCMClient k :: (unit, 'w) client)) x (net_namespace x) w = (w', s)" by simp
  from ocm.delete_network [OF system_lawsD(1) [OF laws] this]
  show "networks w' (rq_namespace req, rq_name req) = networks w (rq_namespace req, rq_name req)
      \<and> ((networks w')((rq_namespace req, rq_name req) := None), overlays w') = ((networks w)((rq_namespace req, rq_name req) := None), overlays w)
      \<and> (\<forall>key. key \<notin> network_keys k x \<longrightarrow> works w' key = works w key)
      \<and> (s = None \<longrightarrow> (\<forall>key. key \<in> network_keys k x \<longrightarrow> works w' key = None))"
    unfolding network_keys_def by simp
qed

interpretation ov_rec: reconciler "system_laws h k works networks overlays"
    "h_get_overlay h (rq_namespace req) (rq_name req)" "h_update_overlay h"
    "\<lambda>n. \<not> deletion_is_zero (so_meta n)" "overlay_ContainsFinalizer h" "overlay_AddFinalizer h"
    "overlay_RemoveFinalizer h" "resolveOverlayProvider h" overlay_with_provider
    "\<lambda>n. ocm_ApplySlice k n (overlay_namespace n)" "\<lambda>n. ocm_DeleteSlice k n (overlay_namespace n)"
    "overlay_Reconcile h (Some (ocm_client k)) req"
    "\<lambda>n. overlay_namespace n = rq_namespace req \<and> overlay_name n = rq_name req"
    "\<lambda>w. overlays w (rq_namespace req, rq_name req)" works "slice_keys k" slice_ident
    "\<lambda>w. ((overlays w)((rq_namespace req, rq_name req) := None), networks w)"
  for h :: "'w hub" and k :: "'w kube" and works networks overlays req
proof
  fix w
  have ns: "overlay_namespace (overlay_with_provider p y) = overlay_namespace y" for p y
    by (simp add: overlay_with_provider_def)
  show "overlay_Reconcile h (Some (ocm_client k)) req w =
      (case h_get_overlay h (rq_namespace req) (rq_name req) w of
         (w1, Inl err) \<Rightarrow> if err = KNotFound then (w1, None) else (w1, Some (GetFailed err))
       | (w1, Inr x) \<Rightarrow>
           if \<not> deletion_is_zero (so_meta x) then
             (if overlay_ContainsFinalizer h x then
                (case ocm_DeleteSlice k x (overlay_namespace x) w1 of
                   (w2, Some err) \<Rightarrow> (w2, Some (MDFailed err))
                 | (w2, None) \<Rightarrow>
                     (case h_update_overlay h (overlay_RemoveFinalizer h x) w2 of
                        (w3, Inl err) \<Rightarrow> (w3, Some (UpdateFailed err))
                      | (w3, Inr y) \<Rightarrow> (w3, None)))
              else (w1, None))
           else
             (case (if \<not> overlay_ContainsFinalizer h x then h_update_overlay h (overlay_AddFinalizer h x) w1 else (w1, Inr x)) of
                (w2, Inl err) \<Rightarrow> (w2, Some (UpdateFailed err))
              | (w2, Inr y) \<Rightarrow>
                  (case resolveOverlayProvider h y w2 of
                     (w3, Inl err) \<Rightarrow> (w3, Some (ResolveFailed err))
                   | (w3, Inr p) \<Rightarrow>
                       (case ocm_ApplySlice k (overlay_with_provider p y) (overlay_namespace (overlay_with_provider p y)) w3 of
                          (w4, Some err) \<Rightarrow> (w4, Some (MDFailed err))
                        | (w4, None) \<Rightarrow> (w4, None)))))"
    unfolding overlay_Reconcile_def option.case ocm_client_simps ns by (rule refl)
next
  fix w w' r
  assume laws: "system_laws h k works networks overlays"
    and get: "h_get_overlay h (rq_namespace req) (rq_name req) w = (w', r)"
  from object_lawsD(1) [OF system_lawsD(6) [OF laws] get] system_frames(3) [OF laws get]
  show "overlays w' (rq_namespace req, rq_name req) = overlays w (rq_namespace req, rq_name req) \<and> works w' = works w
      \<and> ((overlays w')((rq_namespace req, rq_name req) := None), networks w') = ((overlays w)((rq_namespace req, rq_name req) := None), networks w)
      \<and> (\<forall>x. r = Inr x \<longrightarrow> overlays w (rq_namespace req, rq_name req) = Some x
            \<and> overlay_namespace x = rq_namespace req \<and> overlay_name x = rq_name req)
      \<and> (r = Inl KNotFound \<longrightarrow> overlays w (rq_namespace req, rq_name req) = None)" by simp
next
  fix x w w' r
  assume laws: "system_laws h k works networks overlays"
    and mine: "overlay_namespace x = rq_namespace req \<and> overlay_name x = rq_name req"
    and run: "h_update_overlay h x w = (w', r)"
  have u: "upd (\<lambda>n. \<not> deletion_is_zero (so_meta n)) (overlay_ContainsFinalizer h) slice_ident x after y"
    if "update_stores so_meta so_spec x after y" for after y
    using update_stores_upd [OF laws _ that, of slice_ident sliceOverlayFinalizer]
    by (simp add: overlay_ContainsFinalizer_def [abs_def] slice_ident_def)
  have oth: "((overlays w')((rq_namespace req, rq_name req) := None), networks w') = ((overlays w)((rq_namespace req, rq_name req) := None), networks w)"
    using system_frames(5) [OF laws run] mine by simp
  show "works w' = works w \<and> ((overlays w')((rq_namespace req, rq_name req) := None), networks w') = ((overlays w)((rq_namespace req, rq_name req) := None), networks w) \<and> (case r of
      Inl e \<Rightarrow> overlays w' (rq_namespace req, rq_name req) = overlays w (rq_namespace req, rq_name req)
         \<or> (\<exists>y. upd (\<lambda>n. \<not> deletion_is_zero (so_meta n)) (overlay_ContainsFinalizer h) slice_ident x
                (overlays w' (rq_namespace req, rq_name req)) y)
    | Inr y \<Rightarrow> upd (\<lambda>n. \<not> deletion_is_zero (so_meta n)) (overlay_ContainsFinalizer h) slice_ident x
                (overlays w' (rq_namespace req, rq_name req)) y)"
    using object_lawsD(2) [OF system_lawsD(6) [OF laws] conjunct1 [OF mine] conjunct2 [OF mine] run] u oth
    by (cases r) (simp, blast, simp)
next
  fix x
  assume laws: "system_laws h k works networks overlays"
  show "overlay_ContainsFinalizer h (overlay_AddFinalizer h x)
      \<and> (\<not> deletion_is_zero (so_meta (overlay_AddFinalizer h x))) = (\<not> deletion_is_zero (so_meta x))
      \<and> (overlay_namespace (overlay_AddFinalizer h x) = rq_namespace req \<and> overlay_name (overlay_AddFinalizer h x) = rq_name req)
          = (overlay_namespace x = rq_namespace req \<and> overlay_name x = rq_name req)
      \<and> slice_ident (overlay_AddFinalizer h x) = slice_ident x"
    by (simp add: overlay_ContainsFinalizer_def overlay_AddFinalizer_def system_lawsD(2,3) [OF laws]
        deletion_is_zero_def slice_ident_def)
  show "\<not> overlay_ContainsFinalizer h (overlay_RemoveFinalizer h x)
      \<and> (\<not> deletion_is_zero (so_meta (overlay_RemoveFinalizer h x))) = (\<not> deletion_is_zero (so_meta x))
      \<and> (overlay_namespace (overlay_RemoveFinalizer h x) = rq_namespace req \<and> overlay_name (overlay_RemoveFinalizer h x) = rq_name req)
          = (overlay_namespace x = rq_namespace req \<and> overlay_name x = rq_name req)"
    by (simp add: overlay_ContainsFinalizer_def overlay_RemoveFinalizer_def system_lawsD(2,4) [OF laws]
        deletion_is_zero_def)
next
  fix x w w' q
  assume laws: "system_laws h k works networks overlays" and run: "resolveOverlayProvider h x w = (w', q)"
  show "overlays w' (rq_namespace req, rq_name req) = overlays w (rq_namespace req, rq_name req) \<and> works w' = works w
      \<and> ((overlays w')((rq_namespace req, rq_name req) := None), networks w') = ((overlays w)((rq_namespace req, rq_name req) := None), networks w)"
  proof (cases "sos_provider (so_spec x)")
    case None
    with run resolve_reference_reads [OF laws] show ?thesis by (simp add: resolveOverlayProvider_def)
  next
    case (Some p)
    with run show ?thesis by (simp add: resolveOverlayProvider_def)
  qed
next
  fix x y
  assume "slice_ident y = slice_ident x"
  then show "slice_keys k y = slice_keys k x"
    by (simp add: slice_keys_def slice_key_def slice_nodes_def slice_ident_def)
next
  fix p x
  show "slice_keys k (overlay_with_provider p x) = slice_keys k x"
    by (simp add: slice_keys_def slice_key_def slice_nodes_def overlay_with_provider_def)
next
  fix x w w' s
  assume laws: "system_laws h k works networks overlays" and run: "ocm_ApplySlice k x (overlay_namespace x) w = (w', s)"
  from run have "md_ApplySlice (client_ops (OCMClient k :: (unit, 'w) client)) x (overlay_namespace x) w = (w', s)" by simp
  from ocm.apply_slice [OF system_lawsD(1) [OF laws] this]
  show "overlays w' (rq_namespace req, rq_name req) = overlays w (rq_namespace req, rq_name req)
      \<and> ((overlays w')((rq_namespace req, rq_name req) := None), networks w') = ((overlays w)((rq_namespace req, rq_name req) := None), networks w)
      \<and> (\<forall>key. key \<notin> slice_keys k x \<longrightarrow> works w' key = works w key)
      \<and> (s = None \<longrightarrow> (\<forall>key. key \<in> slice_keys k x \<longrightarrow> works w' key \<noteq> None))"
    by simp
next
  fix x w w' s
  assume laws: "system_laws h k works networks overlays" and run: "ocm_DeleteSlice k x (overlay_namespace x) w = (w', s)"
  from run have "md_DeleteSlice (client_ops (OCMClient k :: (unit, 'w) client)) x (overlay_namespace x) w = (w', s)" by simp
  from ocm.delete_slice [OF system_lawsD(1) [OF laws] this]
  show "overlays w' (rq_namespace req, rq_name req) = overlays w (rq_namespace req, rq_name req)
      \<and> ((overlays w')((rq_namespace req, rq_name req) := None), networks w') = ((overlays w)((rq_namespace req, rq_name req) := None), networks w)
      \<and> (\<forall>key. key \<notin> slice_keys k x \<longrightarrow> works w' key = works w key)
      \<and> (s = None \<longrightarrow> (\<forall>key. key \<in> slice_keys k x \<longrightarrow> works w' key = None))"
    by simp
qed

end
