(* ===== verification/Controllers.thy ===== *)
theory Controllers
  imports Reconciler
begin

text \<open>
  What the two controllers promise: the instances of the reconciler contract on
  \<open>SliceNetworkReconciler.Reconcile\<close> and \<open>SliceOverlayReconciler.Reconcile\<close> with the OCM client.
\<close>

section \<open>An example system\<close>

text \<open>The in-memory hub and clusters of \<open>Hub\<close> and \<open>Kube\<close> meet all the laws at once.\<close>

lemma mem_system_laws: "system_laws mem_hub mem_kube s_works mem_networks mem_overlays"
  using mem_hub_laws mem_kube_laws mem_kube_untouched by (simp add: system_laws_def)

definition net_request :: request where
  "net_request = \<lparr>rq_namespace = ''ns'', rq_name = ''net''\<rparr>"

definition slice_request :: request where
  "slice_request = \<lparr>rq_namespace = ''other'', rq_name = ''slc''\<rparr>"

lemma example_network_stored:
  "mem_networks example_hub (rq_namespace net_request, rq_name net_request) = Some hub_network"
  by (simp add: obj_find_def key_of_def net_request_def example_hub_simps)

lemma example_network_live: "deletion_is_zero (sn_meta hub_network)"
  by (simp add: deletion_is_zero_def example_hub_simps)

lemma example_slice_stored:
  "mem_overlays example_hub (rq_namespace slice_request, rq_name slice_request) = Some hub_slice"
  by (simp add: obj_find_def key_of_def slice_request_def example_hub_simps)

lemma example_slice_live: "deletion_is_zero (so_meta hub_slice)"
  by (simp add: deletion_is_zero_def example_hub_simps)

lemma example_network_run:
  "\<exists>w'. network_Reconcile mem_hub (Some (ocm_client mem_kube)) net_request example_hub = (w', None)"
proof -
  let ?n = "network_AddFinalizer mem_hub hub_network"
  let ?w = "example_hub\<lparr>hs_networks := [?n]\<rparr>"
  have get: "h_get_network mem_hub ''ns'' ''net'' example_hub = (example_hub, Inr hub_network)"
    using example_network_stored by (simp add: mem_hub_def mem_get_def net_request_def)
  have nofin: "\<not> network_ContainsFinalizer mem_hub hub_network"
    by (simp add: network_ContainsFinalizer_def mem_hub_def example_hub_simps)
  have upd: "h_update_network mem_hub ?n example_hub = (?w, Inr ?n)"
    by (simp add: mem_hub_def on_networks_def obj_update_def obj_find_def key_of_def obj_put_def obj_remove_def
        deletion_is_zero_def network_AddFinalizer_def example_hub_simps)
  have res: "resolveNetworkProvider mem_hub ?n ?w = (?w, Inr (pps_provider (pp_spec example_profile)))"
    by (simp add: resolveNetworkProvider_def resolveProviderReference_def mem_hub_def mem_get_def obj_find_def
        key_of_def network_AddFinalizer_def defaultProviderProfileName_def Let_def example_hub_simps)
  obtain w' where app: "ocm_ApplyNetwork mem_kube (network_with_provider (pps_provider (pp_spec example_profile)) ?n)
      (net_namespace ?n) ?w = (w', None)" using mem_apply_network by blast
  show ?thesis
    using get example_network_live nofin upd res app by (simp add: network_Reconcile_def net_request_def)
qed

text \<open>A live object whose provider can be resolved is deployed whatever else there is.\<close>

lemma mem_network_resolved_runs:
  assumes stored: "mem_networks w (rq_namespace req, rq_name req) = Some n" and n: "deletion_is_zero (sn_meta n)"
    and provider: "\<And>v. hs_profiles v = hs_profiles w \<Longrightarrow> resolveNetworkProvider mem_hub n v = (v, Inr p)"
  shows "\<exists>w'. network_Reconcile mem_hub (Some (ocm_client mem_kube)) req w = (w', None)"
proof -
  let ?n = "network_AddFinalizer mem_hub n"
  let ?w = "w\<lparr>hs_networks := obj_put sn_meta ?n (hs_networks w)\<rparr>"
  have get: "h_get_network mem_hub (rq_namespace req) (rq_name req) w = (w, Inr n)"
    using stored by (simp add: mem_hub_def mem_get_def)
  have "key_of sn_meta ?n = (rq_namespace req, rq_name req)" "deletion_is_zero (sn_meta ?n)"
    using obj_find_key [OF stored] n by (simp_all add: key_of_def network_AddFinalizer_def deletion_is_zero_def)
  then have upd: "h_update_network mem_hub ?n w = (?w, Inr ?n)"
    using stored by (simp add: mem_hub_def on_networks_def obj_update_def)
  have "resolveNetworkProvider mem_hub ?n v = resolveNetworkProvider mem_hub n v" for v
    by (simp add: resolveNetworkProvider_def network_AddFinalizer_def split: option.split)
  then have res: "resolveNetworkProvider mem_hub ?n ?w = (?w, Inr p)" "resolveNetworkProvider mem_hub n w = (w, Inr p)"
    using provider by simp_all
  obtain w1 w2 where app: "ocm_ApplyNetwork mem_kube (network_with_provider p ?n) (net_namespace ?n) ?w = (w1, None)"
      "ocm_ApplyNetwork mem_kube (network_with_provider p n) (net_namespace n) w = (w2, None)"
    using mem_apply_network by blast
  show ?thesis
    using get n upd res app
    by (cases "network_ContainsFinalizer mem_hub n") (simp_all add: network_Reconcile_def)
qed

lemma mem_network_runs:
  assumes "mem_networks w (rq_namespace req, rq_name req) = Some n" "deletion_is_zero (sn_meta n)"
    and "sns_provider (sn_spec n) = Some p"
  shows "\<exists>w'. network_Reconcile mem_hub (Some (ocm_client mem_kube)) req w = (w', None)"
  by (rule mem_network_resolved_runs [OF assms(1,2)]) (simp add: resolveNetworkProvider_def assms(3))

lemma mem_slice_runs:
  assumes stored: "mem_overlays w (rq_namespace req, rq_name req) = Some s"
    and s: "deletion_is_zero (so_meta s)" "sos_provider (so_spec s) = Some p"
      "sos_topology (so_spec s) = Some example_topology" "sos_monitoring (so_spec s) = None"
  shows "\<exists>w'. overlay_Reconcile mem_hub (Some (ocm_client mem_kube)) req w = (w', None)"
proof -
  let ?s = "overlay_AddFinalizer mem_hub s"
  let ?w = "w\<lparr>hs_overlays := obj_put so_meta ?s (hs_overlays w)\<rparr>"
  have get: "h_get_overlay mem_hub (rq_namespace req) (rq_name req) w = (w, Inr s)"
    using stored by (simp add: mem_hub_def mem_get_def)
  have "key_of so_meta ?s = (rq_namespace req, rq_name req)" "deletion_is_zero (so_meta ?s)"
    using obj_find_key [OF stored] s(1) by (simp_all add: key_of_def overlay_AddFinalizer_def deletion_is_zero_def)
  then have upd: "h_update_overlay mem_hub ?s w = (?w, Inr ?s)"
    using stored by (simp add: mem_hub_def on_overlays_def obj_update_def)
  have res: "resolveOverlayProvider mem_hub ?s v = (v, Inr p)" "resolveOverlayProvider mem_hub s v = (v, Inr p)" for v
    using s(2) by (simp_all add: resolveOverlayProvider_def overlay_AddFinalizer_def)
  have top: "sos_topology (so_spec (overlay_with_provider p x)) = Some example_topology"
    "sos_monitoring (so_spec (overlay_with_provider p x)) = None" if "x = s \<or> x = ?s" for x
    using that s(3,4) by (auto simp: overlay_with_provider_def overlay_AddFinalizer_def)
  obtain w1 w2 where app: "ocm_ApplySlice mem_kube (overlay_with_provider p ?s) (overlay_namespace ?s) ?w = (w1, None)"
      "ocm_ApplySlice mem_kube (overlay_with_provider p s) (overlay_namespace s) w = (w2, None)"
    using mem_apply_slice [OF top [of ?s]] mem_apply_slice [OF top [of s]] by blast
  show ?thesis
    using get s(1) upd res app
    by (cases "overlay_ContainsFinalizer mem_hub s") (simp_all add: overlay_Reconcile_def)
qed

lemma slice_run_anywhere:
  assumes "mem_overlays w (rq_namespace slice_request, rq_name slice_request) = Some hub_slice"
  shows "\<exists>w'. overlay_Reconcile mem_hub (Some (ocm_client mem_kube)) slice_request w = (w', None)"
  by (rule mem_slice_runs [OF assms example_slice_live]) (simp_all add: hub_slice_def example_slice_def)

lemma example_slice_run:
  "\<exists>w'. overlay_Reconcile mem_hub (Some (ocm_client mem_kube)) slice_request example_hub = (w', None)"
  by (rule slice_run_anywhere [OF example_slice_stored])

section \<open>Deploying\<close>

lemma network_with_provider_simps [simp]:
  "sn_meta (network_with_provider p n) = sn_meta n"
  "sns_clusters (sn_spec (network_with_provider p n)) = sns_clusters (sn_spec n)"
  by (simp_all add: network_with_provider_def)

lemma overlay_with_provider_simps [simp]:
  "so_meta (overlay_with_provider p s) = so_meta s"
  "sos_topology (so_spec (overlay_with_provider p s)) = sos_topology (so_spec s)"
  by (simp_all add: overlay_with_provider_def)

lemma network_object_cong:
  assumes "network_ident m = network_ident n"
  shows "network_object k (network_with_provider p m) ns = network_object k (network_with_provider p n) ns"
    and "network_keys k m = network_keys k n" and "net_name m = net_name n" and "net_namespace m = net_namespace n"
    and "sn_spec m = sn_spec n"
  using assms by (simp_all add: network_object_def network_with_provider_def network_ident_def
      network_keys_def network_key_def)

text \<open>C4: a run for a network that is not being deleted and reports no error has stored the finalizer on the
  network, resolved its provider (from the network as stored, see the resolver), and left on every
  cluster of the network the ManifestWork of its L2Network with that provider in the network's
  namespace; and it changed no other ManifestWork.\<close>

theorem network_Reconcile_deploys:
  assumes laws: "system_laws h k works networks overlays"
    and run: "network_Reconcile h (Some (ocm_client k)) req w = (w', None)"
    and n: "networks w (rq_namespace req, rq_name req) = Some n" "deletion_is_zero (sn_meta n)"
  shows "\<exists>m p w2 w3. networks w' (rq_namespace req, rq_name req) = Some m
      \<and> sliceNetworkFinalizer \<in> set (m_finalizers (sn_meta m)) \<and> sn_spec m = sn_spec n
      \<and> resolveNetworkProvider h m w2 = (w3, Inr p)
      \<and> (\<forall>c. c \<in> set (sns_clusters (sn_spec n)) \<longrightarrow> (\<exists>j.
             toManifest k (ObjL2Network (network_object k (network_with_provider p n) (net_namespace n))) = Inr j
           \<and> works w' (c, work_name k (net_name n)) = Some ([''app'' \<mapsto> ''l2sm''], [j])))
      \<and> (\<forall>key. key \<notin> network_keys k n \<longrightarrow> works w' key = works w key)"
proof -
  have live: "\<not> \<not> deletion_is_zero (sn_meta n)" using n(2) by simp
  from net_rec.deploys_by [OF laws run n(1) live] obtain m p w2 w3
    where m: "networks w' (rq_namespace req, rq_name req) = Some m" "network_ContainsFinalizer h m"
      and same: "network_ident m = network_ident n" "works w3 = works w"
      and res: "resolveNetworkProvider h m w2 = (w3, Inr p)"
      and app: "ocm_ApplyNetwork k (network_with_provider p m) (net_namespace (network_with_provider p m)) w3 = (w', None)"
    by blast
  note cong = network_object_cong [OF same(1)]
  have fin: "sliceNetworkFinalizer \<in> set (m_finalizers (sn_meta m))"
    using m(2) by (simp add: network_ContainsFinalizer_def system_lawsD(2) [OF laws])
  have wl: "work_laws k works" using system_lawsD(1) [OF laws] by simp
  note eff = ocm_ApplyNetwork_effect [OF wl app]
  have stored: "\<exists>j. toManifest k (ObjL2Network (network_object k (network_with_provider p n) (net_namespace n))) = Inr j
      \<and> works w' (c, work_name k (net_name n)) = Some ([''app'' \<mapsto> ''l2sm''], [j])"
    if c: "c \<in> set (sns_clusters (sn_spec n))" for c
  proof -
    have c': "c \<in> set (sns_clusters (sn_spec (network_with_provider p m)))" using c cong(5) by simp
    from eff(2) [OF refl c'] ocm_ApplyNetwork_content [OF app c'] show ?thesis
      by (auto simp: network_content_def network_key_def deployed_def result_of_def cong(1,3,4) split: sum.splits)
  qed
  have keys: "network_key k (network_with_provider p m) ` set (sns_clusters (sn_spec (network_with_provider p m)))
      = network_keys k n"
    using cong(2) [of k] by (simp add: network_keys_def network_key_def [abs_def])
  have frame: "works w' key = works w key" if "key \<notin> network_keys k n" for key
    using eff(1) [unfolded keys, OF that] same(2) by simp
  from m fin cong(5) res stored frame show ?thesis by blast
qed

lemma network_Reconcile_deploys_witness:
  "\<exists>j. s_works (fst (network_Reconcile mem_hub (Some (ocm_client mem_kube)) net_request example_hub)) (''b'', ''net'')
     = Some ([''app'' \<mapsto> ''l2sm''], [j])"
proof -
  obtain w' where run: "network_Reconcile mem_hub (Some (ocm_client mem_kube)) net_request example_hub = (w', None)"
    using example_network_run by blast
  have name: "work_name (mem_kube :: hub_store kube) ''net'' = ''net''"
    by (simp add: work_name_def mem_work_name is_lower_def code_def)
  from network_Reconcile_deploys [OF mem_system_laws run example_network_stored example_network_live] name
  show ?thesis
    unfolding run fst_conv by (auto simp: hub_network_def example_network_def)
qed

lemma slice_content_ok:
  assumes "slice_content k gen nodes maps links ns name \<noteq> None"
  shows "\<exists>ned j. ConstructNED (k_lib k) gen (ned_values maps nodes links name) = Some ned
      \<and> toManifest k (ObjNED (in_namespace ns ned)) = Inr j
      \<and> slice_content k gen nodes maps links ns name = Some ([''app'' \<mapsto> ''l2sm''], [j])"
  using assms by (auto simp: slice_content_def deployed_def result_of_def split: option.splits sum.splits)

lemma slice_cong:
  assumes "slice_ident m = slice_ident s"
  shows "slice_monitoring k (overlay_with_provider p m) = slice_monitoring k (overlay_with_provider p s)"
    and "slice_keys k (overlay_with_provider p m) = slice_keys k s" and "overlay_name m = overlay_name s"
    and "overlay_namespace m = overlay_namespace s" and "so_spec m = so_spec s"
  using assms by (simp_all add: slice_monitoring_def [abs_def] overlay_with_provider_def slice_ident_def slice_keys_def
      slice_key_def [abs_def] slice_nodes_def)

text \<open>C5: the same for a slice: a successful run has stored the finalizer, resolved the provider and an
  address for every cluster, and left on every cluster of the topology the ManifestWork of that
  cluster's network edge device, in the slice's namespace; and it changed no other ManifestWork. The
  device has no node configuration: the gateway of a cluster reaches its neighbours only, other than the
  comment on \<open>Gateway\<close> in \<open>sliceoverlay_types.go\<close> says. A slice without a topology is never reconciled
  successfully.\<close>

theorem overlay_Reconcile_deploys:
  assumes laws: "system_laws h k works networks overlays"
    and run: "overlay_Reconcile h (Some (ocm_client k)) req w = (w', None)"
    and s: "overlays w (rq_namespace req, rq_name req) = Some s" "deletion_is_zero (so_meta s)"
  shows "\<exists>m p w2 w3 t maps gen nodes w4. overlays w' (rq_namespace req, rq_name req) = Some m
      \<and> sliceOverlayFinalizer \<in> set (m_finalizers (so_meta m)) \<and> so_spec m = so_spec s
      \<and> resolveOverlayProvider h m w2 = (w3, Inr p)
      \<and> sos_topology (so_spec s) = Some t \<and> resolve_clusters k (ot_nodes t) Map.empty w3 = (w4, Inr maps)
      \<and> slice_monitoring k (overlay_with_provider p s) (ot_nodes t) = Some (Inr (gen, nodes))
      \<and> (\<forall>c. c \<in> set (ot_nodes t) \<longrightarrow> (\<exists>ned j.
             ConstructNED (k_lib k) gen (ned_values maps nodes (slice_links t) (oc_name c)) = Some ned
           \<and> neds_nodeConfig (ned_spec ned) = None
           \<and> toManifest k (ObjNED (in_namespace (DefaultIfEmpty (overlay_namespace s) ''he-codeco-netma'') ned)) = Inr j
           \<and> works w' (oc_name c, work_name k (overlay_name s)) = Some ([''app'' \<mapsto> ''l2sm''], [j])))
      \<and> (\<forall>key. key \<notin> slice_keys k s \<longrightarrow> works w' key = works w key)"
proof -
  have live: "\<not> \<not> deletion_is_zero (so_meta s)" using s(2) by simp
  from ov_rec.deploys_by [OF laws run s(1) live] obtain m p w2 w3
    where m: "overlays w' (rq_namespace req, rq_name req) = Some m" "overlay_ContainsFinalizer h m"
      and same: "slice_ident m = slice_ident s" "works w3 = works w"
      and res: "resolveOverlayProvider h m w2 = (w3, Inr p)"
      and app: "ocm_ApplySlice k (overlay_with_provider p m) (overlay_namespace (overlay_with_provider p m)) w3 = (w', None)"
    by blast
  note cong = slice_cong [OF same(1)]
  have fin: "sliceOverlayFinalizer \<in> set (m_finalizers (so_meta m))"
    using m(2) by (simp add: overlay_ContainsFinalizer_def system_lawsD(2) [OF laws])
  have wl: "work_laws k works" using system_lawsD(1) [OF laws] by simp
  from wl app obtain t maps gen nodes w4 where t: "sos_topology (so_spec (overlay_with_provider p m)) = Some t"
      "resolve_clusters k (ot_nodes t) Map.empty w3 = (w4, Inr maps)"
      "slice_monitoring k (overlay_with_provider p m) (ot_nodes t) = Some (Inr (gen, nodes))"
    and stored: "\<And>c. c \<in> set (ot_nodes t) \<Longrightarrow> works w' (slice_key k (overlay_with_provider p m) (oc_name c))
        = slice_content k gen nodes maps (slice_links t) (DefaultIfEmpty (overlay_namespace (overlay_with_provider p m)) ''he-codeco-netma'') (oc_name c)
        \<and> slice_content k gen nodes maps (slice_links t) (DefaultIfEmpty (overlay_namespace (overlay_with_provider p m)) ''he-codeco-netma'') (oc_name c) \<noteq> None"
    by (rule ocm_ApplySlice_ok) (rule that)
  have content: "\<exists>ned j. ConstructNED (k_lib k) gen (ned_values maps nodes (slice_links t) (oc_name c)) = Some ned
      \<and> neds_nodeConfig (ned_spec ned) = None
      \<and> toManifest k (ObjNED (in_namespace (DefaultIfEmpty (overlay_namespace s) ''he-codeco-netma'') ned)) = Inr j
      \<and> works w' (oc_name c, work_name k (overlay_name s)) = Some ([''app'' \<mapsto> ''l2sm''], [j])"
    if c: "c \<in> set (ot_nodes t)" for c
  proof -
    note st = stored [OF c, unfolded slice_key_def overlay_with_provider_simps cong(3,4)]
    from slice_content_ok [OF conjunct2 [OF st]] conjunct1 [OF st] show ?thesis by (auto dest: ned_values_node)
  qed
  have frame: "works w' key = works w key" if "key \<notin> slice_keys k s" for key
    using ocm_ApplySlice_frame [OF wl app, unfolded cong(2), OF that] same(2) by simp
  have top: "sos_topology (so_spec s) = Some t" using t(1) cong(5) by simp
  have all: "\<forall>c. c \<in> set (ot_nodes t) \<longrightarrow> (\<exists>ned j.
        ConstructNED (k_lib k) gen (ned_values maps nodes (slice_links t) (oc_name c)) = Some ned
      \<and> neds_nodeConfig (ned_spec ned) = None
      \<and> toManifest k (ObjNED (in_namespace (DefaultIfEmpty (overlay_namespace s) ''he-codeco-netma'') ned)) = Inr j
      \<and> works w' (oc_name c, work_name k (overlay_name s)) = Some ([''app'' \<mapsto> ''l2sm''], [j]))"
    "\<forall>key. key \<notin> slice_keys k s \<longrightarrow> works w' key = works w key"
    by (intro allI impI, erule content) (intro allI impI, erule frame)
  show ?thesis
    by (intro exI conjI) (rule m(1) fin cong(5) res top t(2) t(3) [unfolded cong(1)] all)+
qed

lemma overlay_Reconcile_deploys_witness:
  "\<exists>j. s_works (fst (overlay_Reconcile mem_hub (Some (ocm_client mem_kube)) slice_request example_hub)) (''b'', ''slc'')
     = Some ([''app'' \<mapsto> ''l2sm''], [j])"
proof -
  obtain w' where run: "overlay_Reconcile mem_hub (Some (ocm_client mem_kube)) slice_request example_hub = (w', None)"
    using example_slice_run by blast
  have name: "work_name (mem_kube :: hub_store kube) ''slc'' = ''slc''"
    by (simp add: work_name_def mem_work_name is_lower_def code_def)
  from overlay_Reconcile_deploys [OF mem_system_laws run example_slice_stored example_slice_live] name
  show ?thesis
    unfolding run fst_conv by (auto simp: hub_slice_def example_slice_def example_topology_def)
qed

section \<open>Deleting\<close>

text \<open>C18: a run for a network (slice) that is being deleted and has the finalizer, when it reports no
  error, has removed every ManifestWork of the object and given up the finalizer: the object is gone
  from the hub or stored without it.\<close>

theorem reconcile_cleans:
  assumes laws: "system_laws h k works networks overlays"
  shows "(\<forall>req w w' n. network_Reconcile h (Some (ocm_client k)) req w = (w', None) \<longrightarrow>
        networks w (rq_namespace req, rq_name req) = Some n \<longrightarrow> \<not> deletion_is_zero (sn_meta n) \<longrightarrow>
        sliceNetworkFinalizer \<in> set (m_finalizers (sn_meta n)) \<longrightarrow>
        (\<forall>c. c \<in> set (sns_clusters (sn_spec n)) \<longrightarrow> works w' (c, work_name k (net_name n)) = None)
      \<and> (\<forall>m. networks w' (rq_namespace req, rq_name req) = Some m \<longrightarrow>
            sliceNetworkFinalizer \<notin> set (m_finalizers (sn_meta m))))
    \<and> (\<forall>req w w' s. overlay_Reconcile h (Some (ocm_client k)) req w = (w', None) \<longrightarrow>
        overlays w (rq_namespace req, rq_name req) = Some s \<longrightarrow> \<not> deletion_is_zero (so_meta s) \<longrightarrow>
        sliceOverlayFinalizer \<in> set (m_finalizers (so_meta s)) \<longrightarrow>
        (\<forall>c. c \<in> set (slice_nodes s) \<longrightarrow> works w' (oc_name c, work_name k (overlay_name s)) = None)
      \<and> (\<forall>m. overlays w' (rq_namespace req, rq_name req) = Some m \<longrightarrow>
            sliceOverlayFinalizer \<notin> set (m_finalizers (so_meta m))))"
proof (rule conjI)
  have fin: "network_ContainsFinalizer h n \<longleftrightarrow> sliceNetworkFinalizer \<in> set (m_finalizers (sn_meta n))" for n
    by (simp add: network_ContainsFinalizer_def system_lawsD(2) [OF laws])
  show "\<forall>req w w' n. network_Reconcile h (Some (ocm_client k)) req w = (w', None) \<longrightarrow>
        networks w (rq_namespace req, rq_name req) = Some n \<longrightarrow> \<not> deletion_is_zero (sn_meta n) \<longrightarrow>
        sliceNetworkFinalizer \<in> set (m_finalizers (sn_meta n)) \<longrightarrow>
        (\<forall>c. c \<in> set (sns_clusters (sn_spec n)) \<longrightarrow> works w' (c, work_name k (net_name n)) = None)
      \<and> (\<forall>m. networks w' (rq_namespace req, rq_name req) = Some m \<longrightarrow>
            sliceNetworkFinalizer \<notin> set (m_finalizers (sn_meta m)))"
  proof (intro allI impI)
    fix req w w' n
    assume "network_Reconcile h (Some (ocm_client k)) req w = (w', None)"
      "networks w (rq_namespace req, rq_name req) = Some n" "\<not> deletion_is_zero (sn_meta n)"
      "sliceNetworkFinalizer \<in> set (m_finalizers (sn_meta n))"
    note c = net_rec.cleans [OF laws this(1-3) this(4) [folded fin]]
    then show "(\<forall>c. c \<in> set (sns_clusters (sn_spec n)) \<longrightarrow> works w' (c, work_name k (net_name n)) = None)
      \<and> (\<forall>m. networks w' (rq_namespace req, rq_name req) = Some m \<longrightarrow>
            sliceNetworkFinalizer \<notin> set (m_finalizers (sn_meta m)))"
      by (auto simp: fin network_keys_def network_key_def)
  qed
next
  have fin: "overlay_ContainsFinalizer h s \<longleftrightarrow> sliceOverlayFinalizer \<in> set (m_finalizers (so_meta s))" for s
    by (simp add: overlay_ContainsFinalizer_def system_lawsD(2) [OF laws])
  show "\<forall>req w w' s. overlay_Reconcile h (Some (ocm_client k)) req w = (w', None) \<longrightarrow>
        overlays w (rq_namespace req, rq_name req) = Some s \<longrightarrow> \<not> deletion_is_zero (so_meta s) \<longrightarrow>
        sliceOverlayFinalizer \<in> set (m_finalizers (so_meta s)) \<longrightarrow>
        (\<forall>c. c \<in> set (slice_nodes s) \<longrightarrow> works w' (oc_name c, work_name k (overlay_name s)) = None)
      \<and> (\<forall>m. overlays w' (rq_namespace req, rq_name req) = Some m \<longrightarrow>
            sliceOverlayFinalizer \<notin> set (m_finalizers (so_meta m)))"
  proof (intro allI impI)
    fix req w w' s
    assume "overlay_Reconcile h (Some (ocm_client k)) req w = (w', None)"
      "overlays w (rq_namespace req, rq_name req) = Some s" "\<not> deletion_is_zero (so_meta s)"
      "sliceOverlayFinalizer \<in> set (m_finalizers (so_meta s))"
    note c = ov_rec.cleans [OF laws this(1-3) this(4) [folded fin]]
    then show "(\<forall>c. c \<in> set (slice_nodes s) \<longrightarrow> works w' (oc_name c, work_name k (overlay_name s)) = None)
      \<and> (\<forall>m. overlays w' (rq_namespace req, rq_name req) = Some m \<longrightarrow>
            sliceOverlayFinalizer \<notin> set (m_finalizers (so_meta m)))"
      by (auto simp: fin slice_keys_def slice_key_def)
  qed
qed

text \<open>A hub and clusters that answer: a stored object is read, its update is not refused, and an object
  that is being deleted goes away with its last finalizer; a delete reports no error or that there was
  nothing to delete.\<close>

definition object_answers :: "('w \<Rightarrow> 'w \<times> (kerr + 'o)) \<Rightarrow> ('o \<Rightarrow> 'w \<Rightarrow> 'w \<times> (kerr + 'o)) \<Rightarrow> ('o \<Rightarrow> object_meta)
    \<Rightarrow> ('w \<Rightarrow> 'o option) \<Rightarrow> string \<Rightarrow> string \<Rightarrow> bool" where
  "object_answers get update meta stored ns name \<longleftrightarrow>
     (\<forall>w. stored w \<noteq> None \<longrightarrow> (\<forall>e. snd (get w) \<noteq> Inl e))
     \<and> (\<forall>x w. m_namespace (meta x) = ns \<longrightarrow> m_name (meta x) = name \<longrightarrow> stored w \<noteq> None \<longrightarrow>
          (\<forall>e. snd (update x w) \<noteq> Inl e)
        \<and> (\<not> deletion_is_zero (meta x) \<longrightarrow> m_finalizers (meta x) = [] \<longrightarrow> stored (fst (update x w)) = None))"

definition system_answers :: "'w hub \<Rightarrow> 'w kube \<Rightarrow> ('w \<Rightarrow> string \<times> string \<rightharpoonup> slice_network)
    \<Rightarrow> ('w \<Rightarrow> string \<times> string \<rightharpoonup> slice_overlay) \<Rightarrow> bool" where
  "system_answers h k networks overlays \<longleftrightarrow>
     (\<forall>ns name. object_answers (h_get_network h ns name) (h_update_network h) sn_meta (\<lambda>w. networks w (ns, name)) ns name
        \<and> object_answers (h_get_overlay h ns name) (h_update_overlay h) so_meta (\<lambda>w. overlays w (ns, name)) ns name)
     \<and> (\<forall>ns name w. ignore_not_found (snd (k_delete_work k ns name w)) = None)"

lemma delete_answers:
  assumes "system_answers h k networks overlays"
  shows "snd (ocm_DeleteNetwork k n ns v) = None" and "snd (ocm_DeleteSlice k s ns v) = None"
proof -
  have "snd (delete_work_step k name c u) = None" for name c u
  proof -
    obtain u' q where d: "k_delete_work k c name u = (u', q)" by fastforce
    have "ignore_not_found (snd (k_delete_work k c name u)) = None"
      using assms unfolding system_answers_def by (elim conjE allE) assumption
    with d show ?thesis by (auto simp: delete_work_step_def split: option.splits)
  qed
  then show "snd (ocm_DeleteNetwork k n ns v) = None" "snd (ocm_DeleteSlice k s ns v) = None"
    by (auto simp: ocm_DeleteNetwork_def ocm_DeleteSlice_def split: option.splits intro: for_each_total)
qed

lemma last_finalizer:
  assumes "system_laws h k works networks overlays" "set l \<subseteq> {f}"
  shows "h_remove_finalizer h l f = []"
proof -
  have "set (h_remove_finalizer h l f) = {}" using assms by (auto simp: system_lawsD(4) [OF assms(1)])
  then show ?thesis by simp
qed

lemma network_deletion:
  assumes laws: "system_laws h k works networks overlays" and ans: "system_answers h k networks overlays"
    and n: "networks w (rq_namespace req, rq_name req) = Some n" "\<not> deletion_is_zero (sn_meta n)"
      "set (m_finalizers (sn_meta n)) = {sliceNetworkFinalizer}"
  shows "\<exists>w'. network_Reconcile h (Some (ocm_client k)) req w = (w', None)
    \<and> networks w' (rq_namespace req, rq_name req) = None
    \<and> (\<forall>key. key \<in> network_keys k n \<longrightarrow> works w' key = None)"
proof (rule net_rec.completes [OF laws n(1,2)])
  have a: "object_answers (h_get_network h (rq_namespace req) (rq_name req)) (h_update_network h) sn_meta
      (\<lambda>w. networks w (rq_namespace req, rq_name req)) (rq_namespace req) (rq_name req)"
    using ans by (simp add: system_answers_def)
  let ?x = "network_RemoveFinalizer h n"
  show "network_ContainsFinalizer h n"
    using n(3) by (simp add: network_ContainsFinalizer_def system_lawsD(2) [OF laws])
  show "snd (ocm_DeleteNetwork k n (net_namespace n) v) = None" for v by (rule delete_answers(1) [OF ans])
  show "snd (h_get_network h (rq_namespace req) (rq_name req) w) \<noteq> Inl e" for e
    using a n(1) unfolding object_answers_def by (metis option.distinct(1))
  show "(\<forall>e. snd (h_update_network h ?x v) \<noteq> Inl e)
      \<and> networks (fst (h_update_network h ?x v)) (rq_namespace req, rq_name req) = None"
    if key: "net_namespace n = rq_namespace req \<and> net_name n = rq_name req"
      and v: "networks v (rq_namespace req, rq_name req) = Some n" for v
  proof -
    have "net_namespace ?x = rq_namespace req" "net_name ?x = rq_name req"
        "\<not> deletion_is_zero (sn_meta ?x)" "m_finalizers (sn_meta ?x) = []"
      using key n(2,3) last_finalizer [OF laws, of "m_finalizers (sn_meta n)" sliceNetworkFinalizer]
      by (simp_all add: network_RemoveFinalizer_def deletion_is_zero_def)
    with a v show ?thesis unfolding object_answers_def by simp
  qed
qed

lemma overlay_deletion:
  assumes laws: "system_laws h k works networks overlays" and ans: "system_answers h k networks overlays"
    and s: "overlays w (rq_namespace req, rq_name req) = Some s" "\<not> deletion_is_zero (so_meta s)"
      "set (m_finalizers (so_meta s)) = {sliceOverlayFinalizer}"
  shows "\<exists>w'. overlay_Reconcile h (Some (ocm_client k)) req w = (w', None)
    \<and> overlays w' (rq_namespace req, rq_name req) = None
    \<and> (\<forall>key. key \<in> slice_keys k s \<longrightarrow> works w' key = None)"
proof (rule ov_rec.completes [OF laws s(1,2)])
  have a: "object_answers (h_get_overlay h (rq_namespace req) (rq_name req)) (h_update_overlay h) so_meta
      (\<lambda>w. overlays w (rq_namespace req, rq_name req)) (rq_namespace req) (rq_name req)"
    using ans by (simp add: system_answers_def)
  let ?x = "overlay_RemoveFinalizer h s"
  show "overlay_ContainsFinalizer h s"
    using s(3) by (simp add: overlay_ContainsFinalizer_def system_lawsD(2) [OF laws])
  show "snd (ocm_DeleteSlice k s (overlay_namespace s) v) = None" for v by (rule delete_answers(2) [OF ans])
  show "snd (h_get_overlay h (rq_namespace req) (rq_name req) w) \<noteq> Inl e" for e
    using a s(1) unfolding object_answers_def by (metis option.distinct(1))
  show "(\<forall>e. snd (h_update_overlay h ?x v) \<noteq> Inl e)
      \<and> overlays (fst (h_update_overlay h ?x v)) (rq_namespace req, rq_name req) = None"
    if key: "overlay_namespace s = rq_namespace req \<and> overlay_name s = rq_name req"
      and v: "overlays v (rq_namespace req, rq_name req) = Some s" for v
  proof -
    have "overlay_namespace ?x = rq_namespace req" "overlay_name ?x = rq_name req"
        "\<not> deletion_is_zero (so_meta ?x)" "m_finalizers (so_meta ?x) = []"
      using key s(2,3) last_finalizer [OF laws, of "m_finalizers (so_meta s)" sliceOverlayFinalizer]
      by (simp_all add: overlay_RemoveFinalizer_def deletion_is_zero_def)
    with a v show ?thesis unfolding object_answers_def by simp
  qed
qed

text \<open>When the hub and the clusters answer, a single run completes the deletion of a network (slice)
  whose only finalizer is the controller's: it reports no error, the object is gone from the hub and
  so are all its ManifestWorks.\<close>

theorem deletion_completes:
  assumes "system_laws h k works networks overlays" "system_answers h k networks overlays"
  shows "(\<forall>req w n. networks w (rq_namespace req, rq_name req) = Some n \<longrightarrow> \<not> deletion_is_zero (sn_meta n) \<longrightarrow>
        set (m_finalizers (sn_meta n)) = {sliceNetworkFinalizer} \<longrightarrow>
        (\<exists>w'. network_Reconcile h (Some (ocm_client k)) req w = (w', None)
          \<and> networks w' (rq_namespace req, rq_name req) = None
          \<and> (\<forall>key. key \<in> network_keys k n \<longrightarrow> works w' key = None)))
    \<and> (\<forall>req w s. overlays w (rq_namespace req, rq_name req) = Some s \<longrightarrow> \<not> deletion_is_zero (so_meta s) \<longrightarrow>
        set (m_finalizers (so_meta s)) = {sliceOverlayFinalizer} \<longrightarrow>
        (\<exists>w'. overlay_Reconcile h (Some (ocm_client k)) req w = (w', None)
          \<and> overlays w' (rq_namespace req, rq_name req) = None
          \<and> (\<forall>key. key \<in> slice_keys k s \<longrightarrow> works w' key = None)))"
  by (intro conjI allI impI network_deletion [OF assms] overlay_deletion [OF assms])

lemma mem_object_answers:
  assumes upd: "\<And>x w. update x w = (case obj_update meta x (objs w) of (l, r) \<Rightarrow> (set_objs l w, r))"
    and set: "\<And>l w. objs (set_objs l w) = l"
  shows "object_answers (mem_get (\<lambda>w. obj_find meta (objs w)) ns name) update meta
    (\<lambda>w. obj_find meta (objs w) (ns, name)) ns name"
proof -
  have "(\<forall>e. snd (update x w) \<noteq> Inl e)
      \<and> (\<not> deletion_is_zero (meta x) \<longrightarrow> m_finalizers (meta x) = [] \<longrightarrow> obj_find meta (objs (fst (update x w))) (ns, name) = None)"
    if "m_namespace (meta x) = ns" "m_name (meta x) = name" "obj_find meta (objs w) (ns, name) \<noteq> None" for x w
    using that by (auto simp: upd obj_update_def key_of_def obj_find_remove set)
  moreover have "snd (mem_get (\<lambda>w. obj_find meta (objs w)) ns name w) \<noteq> Inl e"
    if "obj_find meta (objs w) (ns, name) \<noteq> None" for w e
    using that by (auto simp: mem_get_def)
  ultimately show ?thesis unfolding object_answers_def by blast
qed

lemma mem_system_answers: "system_answers mem_hub mem_kube mem_networks mem_overlays"
proof -
  have "object_answers (h_get_network mem_hub ns name) (h_update_network mem_hub) sn_meta
      (\<lambda>w. mem_networks w (ns, name)) ns name" for ns name
    by (simp add: mem_hub_def)
       (rule mem_object_answers [where set_objs = "\<lambda>l w. w\<lparr>hs_networks := l\<rparr>"]; simp add: on_networks_def)
  moreover have "object_answers (h_get_overlay mem_hub ns name) (h_update_overlay mem_hub) so_meta
      (\<lambda>w. mem_overlays w (ns, name)) ns name" for ns name
    by (simp add: mem_hub_def)
       (rule mem_object_answers [where set_objs = "\<lambda>l w. w\<lparr>hs_overlays := l\<rparr>"]; simp add: on_overlays_def)
  moreover have "ignore_not_found (snd (k_delete_work (mem_kube :: hub_store kube) ns name w)) = None" for ns name w
    by (simp add: mem_kube_def mem_delete_work_def ignore_not_found_def)
  ultimately show ?thesis by (simp add: system_answers_def)
qed

text \<open>A network that is being deleted, with one of its works left on a cluster.\<close>

definition dying_network :: slice_network where
  "dying_network = mark_network (network_AddFinalizer (mem_hub :: hub_store hub) hub_network)"

definition dying_hub :: hub_store where
  "dying_hub = example_hub\<lparr>hs_networks := [dying_network],
     s_works := [(''b'', ''net'') \<mapsto> (Map.empty, [JNull])]\<rparr>"

lemma dying_network_facts:
  "mem_networks dying_hub (rq_namespace net_request, rq_name net_request) = Some dying_network"
  "\<not> deletion_is_zero (sn_meta dying_network)"
  "m_finalizers (sn_meta dying_network) = [sliceNetworkFinalizer]"
  "sns_clusters (sn_spec dying_network) = [''a'', ''b'']" "net_name dying_network = ''net''"
  by (simp_all add: obj_find_def key_of_def net_request_def dying_hub_def dying_network_def mark_network_def
      network_AddFinalizer_def deletion_is_zero_def mem_hub_def example_hub_simps)

lemma mem_names: "work_name (mem_kube :: 'a store_scheme kube) ''net'' = ''net''"
  "work_name (mem_kube :: 'a store_scheme kube) ''slc'' = ''slc''"
  by (simp_all add: work_name_def mem_work_name is_lower_def code_def)

lemma reconcile_cleans_witness:
  "s_works (fst (network_Reconcile mem_hub (Some (ocm_client mem_kube)) net_request dying_hub)) (''b'', ''net'') = None"
proof -
  obtain w' where run: "network_Reconcile mem_hub (Some (ocm_client mem_kube)) net_request dying_hub = (w', None)"
    using network_deletion [OF mem_system_laws mem_system_answers dying_network_facts(1,2)] dying_network_facts(3)
    by auto
  have "\<forall>c. c \<in> set (sns_clusters (sn_spec dying_network)) \<longrightarrow>
      s_works w' (c, work_name (mem_kube :: hub_store kube) (net_name dying_network)) = None"
    using conjunct1 [OF reconcile_cleans [OF mem_system_laws], rule_format, OF run dying_network_facts(1,2)]
    by (simp add: dying_network_facts)
  then show ?thesis unfolding run fst_conv by (simp add: dying_network_facts mem_names)
qed

lemma deletion_completes_witness:
  "\<exists>w'. network_Reconcile mem_hub (Some (ocm_client mem_kube)) net_request dying_hub = (w', None)
     \<and> mem_networks w' (''ns'', ''net'') = None"
  using conjunct1 [OF deletion_completes [OF mem_system_laws mem_system_answers]] dying_network_facts(1,2,3)
  by (force simp: net_request_def)

section \<open>Whatever way a run ends\<close>

text \<open>C6: the finalizer guards what is deployed. After any run, failed or not, an object that had the
  finalizer is either still stored with it, under the same keys, or every one of its ManifestWorks is
  gone.\<close>

theorem finalizer_guards:
  assumes laws: "system_laws h k works networks overlays"
  shows "(\<forall>req w w' r n. network_Reconcile h (Some (ocm_client k)) req w = (w', r) \<longrightarrow>
        networks w (rq_namespace req, rq_name req) = Some n \<longrightarrow>
        sliceNetworkFinalizer \<in> set (m_finalizers (sn_meta n)) \<longrightarrow>
        (\<forall>key. key \<in> network_keys k n \<longrightarrow> works w' key = None)
      \<or> (\<exists>m. networks w' (rq_namespace req, rq_name req) = Some m
           \<and> sliceNetworkFinalizer \<in> set (m_finalizers (sn_meta m)) \<and> network_keys k m = network_keys k n))
    \<and> (\<forall>req w w' r s. overlay_Reconcile h (Some (ocm_client k)) req w = (w', r) \<longrightarrow>
        overlays w (rq_namespace req, rq_name req) = Some s \<longrightarrow>
        sliceOverlayFinalizer \<in> set (m_finalizers (so_meta s)) \<longrightarrow>
        (\<forall>key. key \<in> slice_keys k s \<longrightarrow> works w' key = None)
      \<or> (\<exists>m. overlays w' (rq_namespace req, rq_name req) = Some m
           \<and> sliceOverlayFinalizer \<in> set (m_finalizers (so_meta m)) \<and> slice_keys k m = slice_keys k s))"
proof (intro conjI allI impI)
  fix req w w' r n
  assume run: "network_Reconcile h (Some (ocm_client k)) req w = (w', r)"
    and n: "networks w (rq_namespace req, rq_name req) = Some n" "sliceNetworkFinalizer \<in> set (m_finalizers (sn_meta n))"
  show "(\<forall>key. key \<in> network_keys k n \<longrightarrow> works w' key = None)
      \<or> (\<exists>m. networks w' (rq_namespace req, rq_name req) = Some m
           \<and> sliceNetworkFinalizer \<in> set (m_finalizers (sn_meta m)) \<and> network_keys k m = network_keys k n)"
    using net_rec.finalizer_until_clean [OF laws run n(1)] n(2)
    by (simp add: network_ContainsFinalizer_def system_lawsD(2) [OF laws])
next
  fix req w w' r s
  assume run: "overlay_Reconcile h (Some (ocm_client k)) req w = (w', r)"
    and s: "overlays w (rq_namespace req, rq_name req) = Some s" "sliceOverlayFinalizer \<in> set (m_finalizers (so_meta s))"
  show "(\<forall>key. key \<in> slice_keys k s \<longrightarrow> works w' key = None)
      \<or> (\<exists>m. overlays w' (rq_namespace req, rq_name req) = Some m
           \<and> sliceOverlayFinalizer \<in> set (m_finalizers (so_meta m)) \<and> slice_keys k m = slice_keys k s)"
    using ov_rec.finalizer_until_clean [OF laws run s(1)] s(2)
    by (simp add: overlay_ContainsFinalizer_def system_lawsD(2) [OF laws])
qed

lemma finalizer_guards_witness:
  "let w' = fst (network_Reconcile mem_hub (Some (ocm_client mem_kube)) net_request dying_hub)
   in s_works w' (''b'', ''net'') = None \<or> mem_networks w' (''ns'', ''net'') \<noteq> None"
proof -
  obtain w' r where run: "network_Reconcile mem_hub (Some (ocm_client mem_kube)) net_request dying_hub = (w', r)"
    by fastforce
  have "(\<forall>key. key \<in> network_keys (mem_kube :: hub_store kube) dying_network \<longrightarrow> s_works w' key = None)
      \<or> (\<exists>m. mem_networks w' (rq_namespace net_request, rq_name net_request) = Some m
           \<and> sliceNetworkFinalizer \<in> set (m_finalizers (sn_meta m))
           \<and> network_keys (mem_kube :: hub_store kube) m = network_keys (mem_kube :: hub_store kube) dying_network)"
    by (rule conjunct1 [OF finalizer_guards [OF mem_system_laws], rule_format, OF run dying_network_facts(1)])
       (simp add: dying_network_facts)
  moreover have "(''b'', ''net'') \<in> network_keys (mem_kube :: hub_store kube) dying_network"
    by (simp add: network_keys_def network_key_def dying_network_facts mem_names)
  ultimately show ?thesis using run by (auto simp: net_request_def)
qed

text \<open>C19: a run touches nothing but its own object. Every other network and every slice is as before (and
  vice versa), and the ManifestWorks that changed are those of the clusters the object lists. So the
  work on a cluster that was dropped from the list is not touched by any later run.\<close>

theorem reconcile_confined:
  assumes laws: "system_laws h k works networks overlays"
  shows "(\<forall>req w w' r. network_Reconcile h (Some (ocm_client k)) req w = (w', r) \<longrightarrow> overlays w' = overlays w
      \<and> (networks w')((rq_namespace req, rq_name req) := None) = (networks w)((rq_namespace req, rq_name req) := None)
      \<and> (\<forall>c name. works w' (c, name) \<noteq> works w (c, name) \<longrightarrow>
            (\<exists>n. networks w (rq_namespace req, rq_name req) = Some n \<and> c \<in> set (sns_clusters (sn_spec n))
               \<and> name = work_name k (net_name n))))
    \<and> (\<forall>req w w' r. overlay_Reconcile h (Some (ocm_client k)) req w = (w', r) \<longrightarrow> networks w' = networks w
      \<and> (overlays w')((rq_namespace req, rq_name req) := None) = (overlays w)((rq_namespace req, rq_name req) := None)
      \<and> (\<forall>c name. works w' (c, name) \<noteq> works w (c, name) \<longrightarrow>
            (\<exists>s. overlays w (rq_namespace req, rq_name req) = Some s \<and> c \<in> oc_name ` set (slice_nodes s)
               \<and> name = work_name k (overlay_name s))))"
proof (intro conjI allI impI)
  fix req w w' r
  assume run: "network_Reconcile h (Some (ocm_client k)) req w = (w', r)"
  show "overlays w' = overlays w"
    and "(networks w')((rq_namespace req, rq_name req) := None) = (networks w)((rq_namespace req, rq_name req) := None)"
    using net_rec.others_kept [OF laws run] by simp_all
  fix c name
  assume "works w' (c, name) \<noteq> works w (c, name)"
  from net_rec.deploys_guarded [OF laws run this]
  show "\<exists>n. networks w (rq_namespace req, rq_name req) = Some n \<and> c \<in> set (sns_clusters (sn_spec n))
      \<and> name = work_name k (net_name n)"
    by (auto simp: network_keys_def network_key_def)
next
  fix req w w' r
  assume run: "overlay_Reconcile h (Some (ocm_client k)) req w = (w', r)"
  show "networks w' = networks w"
    and "(overlays w')((rq_namespace req, rq_name req) := None) = (overlays w)((rq_namespace req, rq_name req) := None)"
    using ov_rec.others_kept [OF laws run] by simp_all
  fix c name
  assume "works w' (c, name) \<noteq> works w (c, name)"
  from ov_rec.deploys_guarded [OF laws run this]
  show "\<exists>s. overlays w (rq_namespace req, rq_name req) = Some s \<and> c \<in> oc_name ` set (slice_nodes s)
      \<and> name = work_name k (overlay_name s)"
    by (auto simp: slice_keys_def slice_key_def)
qed

lemma reconcile_confined_witness:
  "mem_overlays (fst (network_Reconcile mem_hub (Some (ocm_client mem_kube)) net_request dying_hub))
     = mem_overlays dying_hub"
proof -
  obtain w' r where run: "network_Reconcile mem_hub (Some (ocm_client mem_kube)) net_request dying_hub = (w', r)"
    by fastforce
  show ?thesis
    unfolding run fst_conv
    using conjunct1 [OF conjunct1 [OF reconcile_confined [OF mem_system_laws], rule_format, OF run]] by simp
qed

section \<open>Runs that cannot deploy\<close>

text \<open>The client of type \<open>rest\<close> as the reconciler sees it.\<close>

definition rest_md :: "'w mdclient" where
  "rest_md = client_ops (RestClient (None :: unit option) :: (unit, 'w) client)"

lemma rest_md_simps [simp]:
  "md_ApplyNetwork rest_md n ns w = (w, Some (RestMigrationPending ''ApplyNetwork'' (net_name n) ns))"
  "md_DeleteNetwork rest_md n ns w = (w, Some (RestMigrationPending ''DeleteNetwork'' (net_name n) ns))"
  "md_ApplySlice rest_md s ns w = (w, Some (RestMigrationPending ''ApplySlice'' (overlay_name s) ns))"
  "md_DeleteSlice rest_md s ns w = (w, Some (RestMigrationPending ''DeleteSlice'' (overlay_name s) ns))"
  by (simp_all add: rest_md_def rest_ApplyNetwork_def rest_DeleteNetwork_def rest_ApplySlice_def rest_DeleteSlice_def)

lemma network_get:
  assumes laws: "system_laws h k works networks overlays"
    and g: "h_get_network h (rq_namespace req) (rq_name req) w = (w1, g)"
  shows "works w1 = works w \<and> networks w1 = networks w \<and> overlays w1 = overlays w"
    and "g = Inr n \<Longrightarrow> networks w (rq_namespace req, rq_name req) = Some n"
    and "g = Inl KNotFound \<Longrightarrow> networks w (rq_namespace req, rq_name req) = None"
  using object_lawsD(1) [OF system_lawsD(5) [OF laws] g] system_frames(2) [OF laws g] by simp_all

text \<open>C34: a reconciler that has no client, or the REST placeholder, reports an error for every network
  that is stored and is live or has the finalizer, and changes no ManifestWork: the controller tests, which
  reconcile a stored object without a client and expect success, disagree with the code. With the REST client a deletion
  never goes through: the network stays stored as it is, finalizer included, whatever is retried.\<close>

theorem network_not_deployable:
  assumes laws: "system_laws h k works networks overlays"
    and n: "networks w (rq_namespace req, rq_name req) = Some n"
      "deletion_is_zero (sn_meta n) \<or> sliceNetworkFinalizer \<in> set (m_finalizers (sn_meta n))"
  shows "(\<forall>w' r. network_Reconcile h None req w = (w', r) \<longrightarrow> r \<noteq> None
        \<and> works w' = works w \<and> networks w' = networks w \<and> overlays w' = overlays w)
    \<and> (\<forall>w' r. network_Reconcile h (Some rest_md) req w = (w', r) \<longrightarrow> r \<noteq> None \<and> works w' = works w
        \<and> (\<not> deletion_is_zero (sn_meta n) \<longrightarrow> networks w' = networks w \<and> overlays w' = overlays w))"
proof -
  obtain w1 g where g: "h_get_network h (rq_namespace req) (rq_name req) w = (w1, g)" by fastforce
  note get = network_get [OF laws g]
  have fin: "network_ContainsFinalizer h n \<longleftrightarrow> sliceNetworkFinalizer \<in> set (m_finalizers (sn_meta n))"
    by (simp add: network_ContainsFinalizer_def system_lawsD(2) [OF laws])
  show ?thesis
  proof (cases g)
    case (Inl e)
    then have "e \<noteq> KNotFound" using get(3) n(1) by auto
    with g Inl get(1) show ?thesis by (simp add: network_Reconcile_def)
  next
    case (Inr n')
    with get(2) n(1) have n': "g = Inr n" by simp
    have nil: "network_Reconcile h None req w = (w1, Some ClientNotInitialized)"
      using g n' by (simp add: network_Reconcile_def)
    have rest: "r \<noteq> None \<and> works w' = works w
        \<and> (\<not> deletion_is_zero (sn_meta n) \<longrightarrow> networks w' = networks w \<and> overlays w' = overlays w)"
      if run: "network_Reconcile h (Some rest_md) req w = (w', r)" for w' r
    proof (cases "deletion_is_zero (sn_meta n)")
      case False
      then show ?thesis using run g n' n(2) fin get(1) by (auto simp: network_Reconcile_def)
    next
      case True
      obtain w2 u where u: "(if \<not> network_ContainsFinalizer h n then h_update_network h (network_AddFinalizer h n) w1
          else (w1, Inr n)) = (w2, u)" by fastforce
      have key: "net_namespace n = rq_namespace req" "net_name n = rq_name req"
        using object_lawsD(1) [OF system_lawsD(5) [OF laws] g] n' by simp_all
      have w2: "works w2 = works w1"
        using u object_lawsD(2) [OF system_lawsD(5) [OF laws], of "network_AddFinalizer h n" "rq_namespace req" "rq_name req" w1] key
        by (auto simp: network_AddFinalizer_def split: if_splits)
      obtain w3 q where q: "\<And>y. u = Inr y \<Longrightarrow> resolveNetworkProvider h y w2 = (w3, q)"
        by (cases u) (auto, metis surj_pair)
      have w3: "works w3 = works w2" if "u = Inr y" for y
        using net_rec.resolve_reads [OF laws q [OF that]] by simp
      from run True g n' u q show ?thesis
        using w2 w3 get(1) by (auto simp: network_Reconcile_def split: sum.splits)
    qed
    show ?thesis using nil rest get(1) by auto
  qed
qed

lemma network_not_deployable_witness:
  "snd (network_Reconcile mem_hub (Some rest_md) net_request dying_hub) \<noteq> None"
proof -
  obtain w' r where run: "network_Reconcile mem_hub (Some rest_md) net_request dying_hub = (w', r)"
    by fastforce
  have "deletion_is_zero (sn_meta dying_network) \<or> sliceNetworkFinalizer \<in> set (m_finalizers (sn_meta dying_network))"
    by (simp add: dying_network_facts)
  from conjunct2 [OF network_not_deployable [OF mem_system_laws dying_network_facts(1) this]] run show ?thesis by simp
qed

end
