(* ===== verification/Messages.thy ===== *)
theory Messages
  imports Prelude
begin

text \<open>
  The messages of \<open>L2SMMultiDomainService\<close> the server reads (\<open>internal/server/l2sces.pb.go\<close>): a record
  for the exported fields of every message, a pointer as an \<open>option\<close>, and the getters, which read a nil
  message as the zero value. Only the getters the server calls are here.
\<close>

definition getter :: "'b \<Rightarrow> ('a \<Rightarrow> 'b) \<Rightarrow> 'a option \<Rightarrow> 'b" where
  "getter zero field x = (case x of Some m \<Rightarrow> field m | None \<Rightarrow> zero)"

lemma getter_simps [simp]: "getter z f None = z" "getter z f (Some m) = f m"
  by (simp_all add: getter_def)

record pb_Provider =
  Provider_Name :: string
  Provider_Domain :: string
  Provider_DnsPort :: string
  Provider_SdnPort :: string
  Provider_OfPort :: string
  Provider_DnsGrpcPort :: string

definition Provider_GetName :: "pb_Provider option \<Rightarrow> string" where
  [message_getters]: "Provider_GetName = getter [] Provider_Name"

definition Provider_GetDomain :: "pb_Provider option \<Rightarrow> string" where
  [message_getters]: "Provider_GetDomain = getter [] Provider_Domain"

definition Provider_GetDnsPort :: "pb_Provider option \<Rightarrow> string" where
  [message_getters]: "Provider_GetDnsPort = getter [] Provider_DnsPort"

definition Provider_GetSdnPort :: "pb_Provider option \<Rightarrow> string" where
  [message_getters]: "Provider_GetSdnPort = getter [] Provider_SdnPort"

definition Provider_GetOfPort :: "pb_Provider option \<Rightarrow> string" where
  [message_getters]: "Provider_GetOfPort = getter [] Provider_OfPort"

definition Provider_GetDnsGrpcPort :: "pb_Provider option \<Rightarrow> string" where
  [message_getters]: "Provider_GetDnsGrpcPort = getter [] Provider_DnsGrpcPort"

record pb_Link =
  Link_EndpointA :: string
  Link_EndpointB :: string

definition Link_GetEndpointA :: "pb_Link option \<Rightarrow> string" where
  [message_getters]: "Link_GetEndpointA = getter [] Link_EndpointA"

definition Link_GetEndpointB :: "pb_Link option \<Rightarrow> string" where
  [message_getters]: "Link_GetEndpointB = getter [] Link_EndpointB"

record pb_Node =
  Node_Name :: string
  Node_IpAddress :: string

definition Node_GetName :: "pb_Node option \<Rightarrow> string" where
  [message_getters]: "Node_GetName = getter [] Node_Name"

definition Node_GetIpAddress :: "pb_Node option \<Rightarrow> string" where
  [message_getters]: "Node_GetIpAddress = getter [] Node_IpAddress"

record pb_RestConfig =
  RestConfig_BearerToken :: string
  RestConfig_ApiKey :: string

record pb_Overlay =
  Overlay_Provider :: "pb_Provider option"
  Overlay_Nodes :: "string list"
  Overlay_Links :: "pb_Link option list"

record pb_Cluster =
  Cluster_Name :: string
  Cluster_RestConfig :: "pb_RestConfig option"
  Cluster_Overlay :: "pb_Overlay option"
  Cluster_GatewayNode :: "pb_Node option"
  Cluster_Namespace :: string
  Cluster_PodAddressPool :: string

definition Cluster_GetName :: "pb_Cluster option \<Rightarrow> string" where
  [message_getters]: "Cluster_GetName = getter [] Cluster_Name"

definition Cluster_GetGatewayNode :: "pb_Cluster option \<Rightarrow> pb_Node option" where
  [message_getters]: "Cluster_GetGatewayNode = getter None Cluster_GatewayNode"

record pb_L2Network =
  L2Network_Name :: string
  L2Network_Provider :: "pb_Provider option"
  L2Network_PodCidr :: string
  L2Network_Type :: string
  L2Network_Clusters :: "pb_Cluster option list"

definition L2Network_GetName :: "pb_L2Network option \<Rightarrow> string" where
  [message_getters]: "L2Network_GetName = getter [] L2Network_Name"

definition L2Network_GetProvider :: "pb_L2Network option \<Rightarrow> pb_Provider option" where
  [message_getters]: "L2Network_GetProvider = getter None L2Network_Provider"

definition L2Network_GetType :: "pb_L2Network option \<Rightarrow> string" where
  [message_getters]: "L2Network_GetType = getter [] L2Network_Type"

definition L2Network_GetClusters :: "pb_L2Network option \<Rightarrow> pb_Cluster option list" where
  [message_getters]: "L2Network_GetClusters = getter [] L2Network_Clusters"

record pb_Slice =
  Slice_Provider :: "pb_Provider option"
  Slice_Clusters :: "pb_Cluster option list"
  Slice_Links :: "pb_Link option list"

definition Slice_GetProvider :: "pb_Slice option \<Rightarrow> pb_Provider option" where
  [message_getters]: "Slice_GetProvider = getter None Slice_Provider"

definition Slice_GetClusters :: "pb_Slice option \<Rightarrow> pb_Cluster option list" where
  [message_getters]: "Slice_GetClusters = getter [] Slice_Clusters"

definition Slice_GetLinks :: "pb_Slice option \<Rightarrow> pb_Link option list" where
  [message_getters]: "Slice_GetLinks = getter [] Slice_Links"

record pb_CreateNetworkRequest =
  CreateNetworkRequest_Network :: "pb_L2Network option"
  CreateNetworkRequest_Namespace :: string

definition CreateNetworkRequest_GetNetwork :: "pb_CreateNetworkRequest option \<Rightarrow> pb_L2Network option" where
  [message_getters]: "CreateNetworkRequest_GetNetwork = getter None CreateNetworkRequest_Network"

definition CreateNetworkRequest_GetNamespace :: "pb_CreateNetworkRequest option \<Rightarrow> string" where
  [message_getters]: "CreateNetworkRequest_GetNamespace = getter [] CreateNetworkRequest_Namespace"

record pb_DeleteNetworkRequest =
  DeleteNetworkRequest_Network :: "pb_L2Network option"
  DeleteNetworkRequest_Namespace :: string

definition DeleteNetworkRequest_GetNetwork :: "pb_DeleteNetworkRequest option \<Rightarrow> pb_L2Network option" where
  [message_getters]: "DeleteNetworkRequest_GetNetwork = getter None DeleteNetworkRequest_Network"

definition DeleteNetworkRequest_GetNamespace :: "pb_DeleteNetworkRequest option \<Rightarrow> string" where
  [message_getters]: "DeleteNetworkRequest_GetNamespace = getter [] DeleteNetworkRequest_Namespace"

record pb_CreateSliceRequest =
  CreateSliceRequest_Slice :: "pb_Slice option"
  CreateSliceRequest_Namespace :: string

definition CreateSliceRequest_GetSlice :: "pb_CreateSliceRequest option \<Rightarrow> pb_Slice option" where
  [message_getters]: "CreateSliceRequest_GetSlice = getter None CreateSliceRequest_Slice"

definition CreateSliceRequest_GetNamespace :: "pb_CreateSliceRequest option \<Rightarrow> string" where
  [message_getters]: "CreateSliceRequest_GetNamespace = getter [] CreateSliceRequest_Namespace"

record pb_DeleteSliceRequest =
  DeleteSliceRequest_Slice :: "pb_Slice option"
  DeleteSliceRequest_Namespace :: string

definition DeleteSliceRequest_GetSlice :: "pb_DeleteSliceRequest option \<Rightarrow> pb_Slice option" where
  [message_getters]: "DeleteSliceRequest_GetSlice = getter None DeleteSliceRequest_Slice"

definition DeleteSliceRequest_GetNamespace :: "pb_DeleteSliceRequest option \<Rightarrow> string" where
  [message_getters]: "DeleteSliceRequest_GetNamespace = getter [] DeleteSliceRequest_Namespace"

end
