(* ===== verification/Server.thy ===== *)
theory Server
  imports Hub Messages
begin

text \<open>
  \<open>cmd/server/server.go\<close>: the gRPC service. A request is translated to a custom resource, which is
  created in or deleted from the hub; the controllers do the rest. The API server is the parameter \<open>h\<close>
  (see \<open>Hub\<close>) and \<open>gvString\<close> is apimachinery's \<open>GroupVersion.String\<close>.
\<close>

section \<open>From messages to resources\<close>

definition providerFromProto :: "pb_Provider option \<Rightarrow> provider_spec option" where
  "providerFromProto provider =
     (if provider = None then None
      else let domains = (if Provider_GetDomain provider \<noteq> [] then [Provider_GetDomain provider] else [])
           in Some \<lparr>ps_name = Provider_GetName provider, ps_domain = domains,
                    ps_ofPort = Provider_GetOfPort provider, ps_sdnPort = Provider_GetSdnPort provider,
                    ps_dnsPort = Provider_GetDnsPort provider, ps_dnsGrpcPort = Provider_GetDnsGrpcPort provider\<rparr>)"

definition sliceNetworkFromProto :: "(group_version \<Rightarrow> string) \<Rightarrow> pb_L2Network option \<Rightarrow> string \<Rightarrow> slice_network" where
  "sliceNetworkFromProto gvString network namespace =
     \<lparr>sn_typeMeta = \<lparr>tm_kind = ''SliceNetwork'', tm_apiVersion = gvString GroupVersion\<rparr>,
      sn_meta = empty_meta\<lparr>m_name := L2Network_GetName network, m_namespace := DefaultIfEmpty namespace ''default''\<rparr>,
      sn_spec = \<lparr>sns_clusters = map Cluster_GetName (L2Network_GetClusters network),
                 sns_type = L2Network_GetType network, sns_providerRef = None,
                 sns_provider = providerFromProto (L2Network_GetProvider network)\<rparr>,
      sn_status = empty_network_status\<rparr>"

text \<open>The body of the loop over the clusters.\<close>

definition overlay_node :: "pb_Cluster option \<Rightarrow> overlay_cluster" where
  "overlay_node cluster =
     \<lparr>oc_name = Cluster_GetName cluster,
      oc_gateway = (if Cluster_GetGatewayNode cluster \<noteq> None
                    then Some \<lparr>nc_nodeName = Node_GetName (Cluster_GetGatewayNode cluster),
                               nc_ipAddress = Node_GetIpAddress (Cluster_GetGatewayNode cluster)\<rparr>
                    else None)\<rparr>"

definition proto_link :: "pb_Link option \<Rightarrow> overlay_link" where
  "proto_link l = \<lparr>ol_endpointA = Link_GetEndpointA l, ol_endpointB = Link_GetEndpointB l\<rparr>"

definition sliceOverlayFromProto :: "(group_version \<Rightarrow> string) \<Rightarrow> pb_Slice option \<Rightarrow> string \<Rightarrow> slice_overlay" where
  "sliceOverlayFromProto gvString slc namespace =
     (let provider = Slice_GetProvider slc;
          name = (if provider \<noteq> None \<and> Provider_GetName provider \<noteq> [] then Provider_GetName provider else ''slice'')
      in \<lparr>so_typeMeta = \<lparr>tm_kind = ''SliceOverlay'', tm_apiVersion = gvString GroupVersion\<rparr>,
          so_meta = empty_meta\<lparr>m_name := name, m_namespace := DefaultIfEmpty namespace ''default''\<rparr>,
          so_spec = \<lparr>sos_providerRef = None, sos_provider = providerFromProto provider, sos_switchTemplate = None,
             sos_topology = Some \<lparr>ot_nodes = map overlay_node (Slice_GetClusters slc),
                                  ot_links = map proto_link (Slice_GetLinks slc)\<rparr>,
             sos_monitoring = None\<rparr>,
          so_status = empty_overlay_status\<rparr>)"

section \<open>The handlers\<close>

record create_network_response =
  cnr_message :: string
  cnr_patches :: "field_patch list"

datatype server_error =
    CouldNotCreateNetwork kerr
  | CouldNotDeleteNetwork kerr
  | CouldNotCreateSlice kerr
  | CouldNotDeleteSlice kerr

definition server_CreateNetwork :: "(group_version \<Rightarrow> string) \<Rightarrow> 'w hub \<Rightarrow> pb_CreateNetworkRequest option \<Rightarrow> 'w
    \<Rightarrow> 'w \<times> (server_error + create_network_response)" where
  "server_CreateNetwork gvString h req w =
     (let network = sliceNetworkFromProto gvString (CreateNetworkRequest_GetNetwork req) (CreateNetworkRequest_GetNamespace req)
      in case h_create_network h network w of
           (w', Some err) \<Rightarrow> (w', Inl (CouldNotCreateNetwork err))
         | (w', None) \<Rightarrow> (w', Inr \<lparr>cnr_message = ''Network created successfully'', cnr_patches = []\<rparr>))"

definition server_DeleteNetwork :: "(group_version \<Rightarrow> string) \<Rightarrow> 'w hub \<Rightarrow> pb_DeleteNetworkRequest option \<Rightarrow> 'w
    \<Rightarrow> 'w \<times> (server_error + string)" where
  "server_DeleteNetwork gvString h req w =
     (let network = sliceNetworkFromProto gvString (DeleteNetworkRequest_GetNetwork req) (DeleteNetworkRequest_GetNamespace req)
      in case h_delete_network h (net_namespace network) (net_name network) w of
           (w', Some err) \<Rightarrow> (w', Inl (CouldNotDeleteNetwork err))
         | (w', None) \<Rightarrow> (w', Inr ''Network deleted successfully''))"

definition server_CreateSlice :: "(group_version \<Rightarrow> string) \<Rightarrow> 'w hub \<Rightarrow> pb_CreateSliceRequest option \<Rightarrow> 'w
    \<Rightarrow> 'w \<times> (server_error + string)" where
  "server_CreateSlice gvString h req w =
     (let slc = sliceOverlayFromProto gvString (CreateSliceRequest_GetSlice req) (CreateSliceRequest_GetNamespace req)
      in case h_create_overlay h slc w of
           (w', Some err) \<Rightarrow> (w', Inl (CouldNotCreateSlice err))
         | (w', None) \<Rightarrow> (w', Inr ''Slice created succesfully''))"

definition server_DeleteSlice :: "(group_version \<Rightarrow> string) \<Rightarrow> 'w hub \<Rightarrow> pb_DeleteSliceRequest option \<Rightarrow> 'w
    \<Rightarrow> 'w \<times> (server_error + string)" where
  "server_DeleteSlice gvString h req w =
     (let slc = sliceOverlayFromProto gvString (DeleteSliceRequest_GetSlice req) (DeleteSliceRequest_GetNamespace req)
      in case h_delete_overlay h (overlay_namespace slc) (overlay_name slc) w of
           (w', Some err) \<Rightarrow> (w', Inl (CouldNotDeleteSlice err))
         | (w', None) \<Rightarrow> (w', Inr ''Slice deleted successfully''))"

section \<open>What a request can express\<close>

text \<open>The message of a resource: the inverse of the translation, on the resources that need nothing the
  messages lack.\<close>

definition provider_message :: "provider_spec \<Rightarrow> pb_Provider" where
  "provider_message p =
     \<lparr>Provider_Name = ps_name p, Provider_Domain = (case ps_domain p of [] \<Rightarrow> [] | d # ds \<Rightarrow> d),
      Provider_DnsPort = ps_dnsPort p, Provider_SdnPort = ps_sdnPort p, Provider_OfPort = ps_ofPort p,
      Provider_DnsGrpcPort = ps_dnsGrpcPort p\<rparr>"

definition cluster_message :: "string \<Rightarrow> pb_Node option \<Rightarrow> pb_Cluster" where
  "cluster_message name gw = \<lparr>Cluster_Name = name, Cluster_RestConfig = None, Cluster_Overlay = None,
     Cluster_GatewayNode = gw, Cluster_Namespace = [], Cluster_PodAddressPool = []\<rparr>"

definition network_message :: "slice_network \<Rightarrow> pb_L2Network" where
  "network_message n = \<lparr>L2Network_Name = net_name n, L2Network_Provider = map_option provider_message (sns_provider (sn_spec n)),
     L2Network_PodCidr = [], L2Network_Type = sns_type (sn_spec n),
     L2Network_Clusters = map (\<lambda>c. Some (cluster_message c None)) (sns_clusters (sn_spec n))\<rparr>"

definition node_message :: "overlay_cluster \<Rightarrow> pb_Cluster" where
  "node_message c = cluster_message (oc_name c)
     (map_option (\<lambda>g. \<lparr>Node_Name = nc_nodeName g, Node_IpAddress = nc_ipAddress g\<rparr>) (oc_gateway c))"

definition slice_message :: "slice_overlay \<Rightarrow> pb_Slice" where
  "slice_message s =
     (let t = (case sos_topology (so_spec s) of Some t \<Rightarrow> t | None \<Rightarrow> \<lparr>ot_nodes = [], ot_links = []\<rparr>)
      in \<lparr>Slice_Provider = map_option provider_message (sos_provider (so_spec s)),
          Slice_Clusters = map (\<lambda>c. Some (node_message c)) (ot_nodes t),
          Slice_Links = map (\<lambda>l. Some \<lparr>Link_EndpointA = ol_endpointA l, Link_EndpointB = ol_endpointB l\<rparr>) (ot_links t)\<rparr>)"

definition plain_provider :: "provider_spec option \<Rightarrow> bool" where
  "plain_provider p = (case p of None \<Rightarrow> True | Some q \<Rightarrow> ps_domain q = [] \<or> (\<exists>d. d \<noteq> [] \<and> ps_domain q = [d]))"

text \<open>The resources requests can express: no provider reference, at most one domain, and for a slice a
  topology, no switch template, no monitoring, and the provider's name (or \<open>slice\<close>) as its name.\<close>

definition expressible_network :: "(group_version \<Rightarrow> string) \<Rightarrow> slice_network \<Rightarrow> bool" where
  "expressible_network gvString n \<longleftrightarrow>
     sn_typeMeta n = \<lparr>tm_kind = ''SliceNetwork'', tm_apiVersion = gvString GroupVersion\<rparr>
     \<and> net_namespace n \<noteq> [] \<and> sn_meta n = empty_meta\<lparr>m_name := net_name n, m_namespace := net_namespace n\<rparr>
     \<and> sns_providerRef (sn_spec n) = None \<and> plain_provider (sns_provider (sn_spec n))
     \<and> sn_status n = empty_network_status"

definition slice_object_name :: "provider_spec option \<Rightarrow> string" where
  "slice_object_name p = DefaultIfEmpty (case p of Some q \<Rightarrow> ps_name q | None \<Rightarrow> []) ''slice''"

definition expressible_slice :: "(group_version \<Rightarrow> string) \<Rightarrow> slice_overlay \<Rightarrow> bool" where
  "expressible_slice gvString s \<longleftrightarrow>
     so_typeMeta s = \<lparr>tm_kind = ''SliceOverlay'', tm_apiVersion = gvString GroupVersion\<rparr>
     \<and> overlay_namespace s \<noteq> [] \<and> so_meta s = empty_meta\<lparr>m_name := overlay_name s, m_namespace := overlay_namespace s\<rparr>
     \<and> overlay_name s = slice_object_name (sos_provider (so_spec s))
     \<and> sos_providerRef (so_spec s) = None \<and> plain_provider (sos_provider (so_spec s))
     \<and> sos_switchTemplate (so_spec s) = None \<and> sos_topology (so_spec s) \<noteq> None \<and> sos_monitoring (so_spec s) = None
     \<and> so_status s = empty_overlay_status"

lemma provider_roundtrip:
  assumes "plain_provider p"
  shows "providerFromProto (map_option provider_message p) = p"
proof (cases p)
  case None
  then show ?thesis by (simp add: providerFromProto_def)
next
  case (Some q)
  have "ps_domain q = [] \<or> (\<exists>d. d \<noteq> [] \<and> ps_domain q = [d])" using assms Some by (simp add: plain_provider_def)
  then show ?thesis
    using Some by (cases q) (auto simp: providerFromProto_def provider_message_def message_getters)
qed

lemma provider_expressible: "plain_provider (providerFromProto p)"
  by (cases p) (simp_all add: providerFromProto_def plain_provider_def Let_def)

lemma network_message_translates:
  assumes "expressible_network gv n"
  shows "sliceNetworkFromProto gv (Some (network_message n)) (net_namespace n) = n"
proof -
  note e = assms [unfolded expressible_network_def]
  have clusters: "map (Cluster_GetName \<circ> (\<lambda>c. Some (cluster_message c None))) cs = cs" for cs
    by (induction cs) (simp_all add: cluster_message_def message_getters)
  have spec: "\<lparr>sns_clusters = sns_clusters (sn_spec n), sns_type = sns_type (sn_spec n), sns_providerRef = None,
      sns_provider = sns_provider (sn_spec n)\<rparr> = sn_spec n"
    using e by (cases "sn_spec n") simp
  have "sliceNetworkFromProto gv (Some (network_message n)) (net_namespace n)
      = \<lparr>sn_typeMeta = sn_typeMeta n, sn_meta = sn_meta n, sn_spec = sn_spec n, sn_status = sn_status n\<rparr>"
    using e provider_roundtrip [of "sns_provider (sn_spec n)"]
    unfolding sliceNetworkFromProto_def
    by (simp add: network_message_def message_getters [abs_def] clusters [unfolded message_getters] spec DefaultIfEmpty_def)
  then show ?thesis by simp
qed

lemma slice_message_translates:
  assumes "expressible_slice gv s"
  shows "sliceOverlayFromProto gv (Some (slice_message s)) (overlay_namespace s) = s"
proof -
  note e = assms [unfolded expressible_slice_def]
  obtain t where t: "sos_topology (so_spec s) = Some t" using e by blast
  have "overlay_node (Some (node_message c)) = c" for c
    by (cases c; cases "oc_gateway c")
       (auto simp: overlay_node_def node_message_def cluster_message_def message_getters)
  then have nodes: "map (overlay_node \<circ> (\<lambda>c. Some (node_message c))) cs = cs" for cs
    by (simp add: comp_def)
  have "proto_link (Some \<lparr>Link_EndpointA = ol_endpointA l, Link_EndpointB = ol_endpointB l\<rparr>) = l" for l
    by (cases l) (simp add: proto_link_def message_getters)
  then have links: "map (proto_link \<circ> (\<lambda>l. Some \<lparr>Link_EndpointA = ol_endpointA l, Link_EndpointB = ol_endpointB l\<rparr>)) ls = ls" for ls
    by (simp add: comp_def)
  have spec: "\<lparr>sos_providerRef = None, sos_provider = sos_provider (so_spec s), sos_switchTemplate = None,
      sos_topology = Some t, sos_monitoring = None\<rparr> = so_spec s"
    using e t by (cases "so_spec s") simp
  have n: "overlay_name s = slice_object_name (sos_provider (so_spec s))"
    "so_meta s = empty_meta\<lparr>m_name := overlay_name s, m_namespace := overlay_namespace s\<rparr>" using e by blast+
  have meta: "empty_meta\<lparr>m_name := slice_object_name (sos_provider (so_spec s)), m_namespace := overlay_namespace s\<rparr> = so_meta s"
    unfolding n(1) [symmetric] by (rule n(2) [symmetric])
  have name: "(if map_option provider_message p \<noteq> None \<and> Provider_GetName (map_option provider_message p) \<noteq> []
      then Provider_GetName (map_option provider_message p) else ''slice'') = slice_object_name p" for p
    by (cases p) (simp_all add: slice_object_name_def DefaultIfEmpty_def message_getters provider_message_def)
  have "sliceOverlayFromProto gv (Some (slice_message s)) (overlay_namespace s)
      = \<lparr>so_typeMeta = so_typeMeta s, so_meta = so_meta s, so_spec = so_spec s, so_status = so_status s\<rparr>"
  proof -
    have get: "Slice_GetProvider (Some (slice_message s)) = map_option provider_message (sos_provider (so_spec s))"
      "Slice_GetClusters (Some (slice_message s)) = map (\<lambda>c. Some (node_message c)) (ot_nodes t)"
      "Slice_GetLinks (Some (slice_message s)) = map (\<lambda>l. Some \<lparr>Link_EndpointA = ol_endpointA l, Link_EndpointB = ol_endpointB l\<rparr>) (ot_links t)"
      by (simp_all add: slice_message_def t message_getters)
    have top: "\<lparr>ot_nodes = ot_nodes t, ot_links = ot_links t\<rparr> = t" by simp
    show ?thesis
      unfolding sliceOverlayFromProto_def Let_def get name map_map nodes links top
      using e provider_roundtrip [of "sos_provider (so_spec s)"] spec meta by (simp add: DefaultIfEmpty_def)
  qed
  then show ?thesis by simp
qed

text \<open>C26: what the service can create: exactly the resources called expressible. Every request gives one,
  whatever is nil in it, and each of them is given by the request made of its message; so requests lose
  no information of such a resource, and switch templates, monitoring, provider references and slice
  names of one's own cannot be requested.\<close>

theorem requests_express:
  "(\<forall>n. expressible_network gv n \<longrightarrow> sliceNetworkFromProto gv (Some (network_message n)) (net_namespace n) = n)
   \<and> (\<forall>m ns. expressible_network gv (sliceNetworkFromProto gv m ns))
   \<and> (\<forall>s. expressible_slice gv s \<longrightarrow> sliceOverlayFromProto gv (Some (slice_message s)) (overlay_namespace s) = s)
   \<and> (\<forall>m ns. expressible_slice gv (sliceOverlayFromProto gv m ns))"
proof (intro conjI allI impI)
  show "expressible_network gv (sliceNetworkFromProto gv m ns)" for m ns
    by (simp add: expressible_network_def sliceNetworkFromProto_def provider_expressible DefaultIfEmpty_def)
  have "(if p \<noteq> None \<and> Provider_GetName p \<noteq> [] then Provider_GetName p else ''slice'')
      = slice_object_name (providerFromProto p)" for p
    by (simp add: slice_object_name_def providerFromProto_def DefaultIfEmpty_def Let_def)
  then show "expressible_slice gv (sliceOverlayFromProto gv m ns)" for m ns
    by (simp add: expressible_slice_def sliceOverlayFromProto_def provider_expressible DefaultIfEmpty_def Let_def)
qed (simp_all add: network_message_translates slice_message_translates)

definition requested_network :: slice_network where
  "requested_network = \<lparr>sn_typeMeta = \<lparr>tm_kind = ''SliceNetwork'', tm_apiVersion = ''l2sces.l2sm.io/v1''\<rparr>,
     sn_meta = empty_meta\<lparr>m_name := ''net'', m_namespace := ''ns''\<rparr>,
     sn_spec = \<lparr>sns_clusters = [''a'', ''b''], sns_type = ''vlink'', sns_providerRef = None,
        sns_provider = Some (empty_provider\<lparr>ps_name := ''sdn'', ps_domain := [''sdn.org'']\<rparr>)\<rparr>,
     sn_status = empty_network_status\<rparr>"

lemma requests_express_witness:
  "sliceNetworkFromProto (\<lambda>g. gv_group g @ ''/'' @ gv_version g) (Some (network_message requested_network)) ''ns'' = requested_network"
proof -
  have "expressible_network (\<lambda>g. gv_group g @ ''/'' @ gv_version g) requested_network"
    by (simp add: expressible_network_def requested_network_def GroupVersion_def plain_provider_def empty_meta_def)
  with requests_express [of "\<lambda>g. gv_group g @ ''/'' @ gv_version g"]
  have "sliceNetworkFromProto (\<lambda>g. gv_group g @ ''/'' @ gv_version g) (Some (network_message requested_network))
      (net_namespace requested_network) = requested_network" by blast
  then show ?thesis by (simp add: requested_network_def)
qed

section \<open>Creating and deleting on the hub\<close>

text \<open>What the handlers rely on. A create stores the object, live and with the finalizers it came with; it
  is refused when the name is taken. A delete removes an object without finalizers and marks the others
  as deleted; it is refused when there is no object. A failed call may have been carried out. Neither
  touches another object or a ManifestWork.\<close>

definition copy_of :: "('o \<Rightarrow> object_meta) \<Rightarrow> ('o \<Rightarrow> 's) \<Rightarrow> 'o \<Rightarrow> 'o \<Rightarrow> bool" where
  "copy_of meta spec x y \<longleftrightarrow> key_of meta y = key_of meta x \<and> spec y = spec x
     \<and> set (m_finalizers (meta y)) = set (m_finalizers (meta x))"

definition create_laws :: "('o \<Rightarrow> ('w, kerr) action) \<Rightarrow> ('o \<Rightarrow> object_meta) \<Rightarrow> ('o \<Rightarrow> 's)
    \<Rightarrow> ('w \<Rightarrow> string \<times> string \<rightharpoonup> 'o) \<Rightarrow> bool" where
  "create_laws create meta spec stored \<longleftrightarrow> (\<forall>x w w' r. create x w = (w', r) \<longrightarrow>
     (stored w')(key_of meta x := None) = (stored w)(key_of meta x := None)
     \<and> (case stored w (key_of meta x) of
          Some y \<Rightarrow> r \<noteq> None \<and> stored w' (key_of meta x) = Some y
        | None \<Rightarrow> (r = None \<longrightarrow> stored w' (key_of meta x) \<noteq> None)
            \<and> (\<forall>y. stored w' (key_of meta x) = Some y \<longrightarrow> copy_of meta spec x y
                 \<and> (deletion_is_zero (meta x) \<longrightarrow> deletion_is_zero (meta y)))))"

definition delete_laws :: "(string \<Rightarrow> string \<Rightarrow> ('w, kerr) action) \<Rightarrow> ('o \<Rightarrow> object_meta) \<Rightarrow> ('o \<Rightarrow> 's)
    \<Rightarrow> ('w \<Rightarrow> string \<times> string \<rightharpoonup> 'o) \<Rightarrow> bool" where
  "delete_laws delete meta spec stored \<longleftrightarrow> (\<forall>ns name w w' r. delete ns name w = (w', r) \<longrightarrow>
     (stored w')((ns, name) := None) = (stored w)((ns, name) := None)
     \<and> (case stored w (ns, name) of
          None \<Rightarrow> r \<noteq> None \<and> stored w' (ns, name) = None
        | Some x \<Rightarrow> (r \<noteq> None \<and> stored w' (ns, name) = Some x)
            \<or> (m_finalizers (meta x) = [] \<and> stored w' (ns, name) = None)
            \<or> (\<exists>y. stored w' (ns, name) = Some y \<and> copy_of meta spec x y \<and> \<not> deletion_is_zero (meta y))))"

definition api_laws :: "'w hub \<Rightarrow> ('w \<Rightarrow> work_view) \<Rightarrow> ('w \<Rightarrow> string \<times> string \<rightharpoonup> slice_network)
    \<Rightarrow> ('w \<Rightarrow> string \<times> string \<rightharpoonup> slice_overlay) \<Rightarrow> bool" where
  "api_laws h works networks overlays \<longleftrightarrow>
     create_laws (h_create_network h) sn_meta sn_spec networks \<and> delete_laws (h_delete_network h) sn_meta sn_spec networks
     \<and> create_laws (h_create_overlay h) so_meta so_spec overlays \<and> delete_laws (h_delete_overlay h) so_meta so_spec overlays
     \<and> (\<forall>x w w' r. h_create_network h x w = (w', r) \<longrightarrow> works w' = works w \<and> overlays w' = overlays w)
     \<and> (\<forall>ns name w w' r. h_delete_network h ns name w = (w', r) \<longrightarrow> works w' = works w \<and> overlays w' = overlays w)
     \<and> (\<forall>x w w' r. h_create_overlay h x w = (w', r) \<longrightarrow> works w' = works w \<and> networks w' = networks w)
     \<and> (\<forall>ns name w w' r. h_delete_overlay h ns name w = (w', r) \<longrightarrow> works w' = works w \<and> networks w' = networks w)"

lemma create_lawsD:
  assumes "create_laws create meta spec stored" "create x w = (w', r)"
  shows "(stored w')(key_of meta x := None) = (stored w)(key_of meta x := None)"
    and "stored w (key_of meta x) = Some y \<Longrightarrow> r \<noteq> None \<and> stored w' (key_of meta x) = Some y"
    and "r = None \<Longrightarrow> stored w (key_of meta x) = None \<and> (\<exists>y. stored w' (key_of meta x) = Some y
        \<and> copy_of meta spec x y \<and> (deletion_is_zero (meta x) \<longrightarrow> deletion_is_zero (meta y)))"
proof -
  have c: "(stored w')(key_of meta x := None) = (stored w)(key_of meta x := None)
     \<and> (case stored w (key_of meta x) of
          Some y \<Rightarrow> r \<noteq> None \<and> stored w' (key_of meta x) = Some y
        | None \<Rightarrow> (r = None \<longrightarrow> stored w' (key_of meta x) \<noteq> None)
            \<and> (\<forall>y. stored w' (key_of meta x) = Some y \<longrightarrow> copy_of meta spec x y
                 \<and> (deletion_is_zero (meta x) \<longrightarrow> deletion_is_zero (meta y))))"
    using assms unfolding create_laws_def by blast
  then show "(stored w')(key_of meta x := None) = (stored w)(key_of meta x := None)" ..
  show "stored w (key_of meta x) = Some y \<Longrightarrow> r \<noteq> None \<and> stored w' (key_of meta x) = Some y" using c by simp
  show "r = None \<Longrightarrow> stored w (key_of meta x) = None \<and> (\<exists>y. stored w' (key_of meta x) = Some y
        \<and> copy_of meta spec x y \<and> (deletion_is_zero (meta x) \<longrightarrow> deletion_is_zero (meta y)))"
    using c by (auto split: option.splits)
qed

lemma delete_lawsD:
  assumes "delete_laws delete meta spec stored" "delete ns name w = (w', r)"
  shows "(stored w')((ns, name) := None) = (stored w)((ns, name) := None)"
    and "stored w (ns, name) = Some x \<Longrightarrow> m_finalizers (meta x) \<noteq> [] \<Longrightarrow>
        \<exists>y. stored w' (ns, name) = Some y \<and> copy_of meta spec x y"
    and "r = None \<Longrightarrow> \<exists>x. stored w (ns, name) = Some x \<and> (m_finalizers (meta x) = [] \<and> stored w' (ns, name) = None
        \<or> (\<exists>y. stored w' (ns, name) = Some y \<and> copy_of meta spec x y \<and> \<not> deletion_is_zero (meta y)))"
proof -
  have c: "(stored w')((ns, name) := None) = (stored w)((ns, name) := None)
     \<and> (case stored w (ns, name) of
          None \<Rightarrow> r \<noteq> None \<and> stored w' (ns, name) = None
        | Some x \<Rightarrow> (r \<noteq> None \<and> stored w' (ns, name) = Some x)
            \<or> (m_finalizers (meta x) = [] \<and> stored w' (ns, name) = None)
            \<or> (\<exists>y. stored w' (ns, name) = Some y \<and> copy_of meta spec x y \<and> \<not> deletion_is_zero (meta y)))"
    using assms unfolding delete_laws_def by blast
  then show "(stored w')((ns, name) := None) = (stored w)((ns, name) := None)" ..
  show "stored w (ns, name) = Some x \<Longrightarrow> m_finalizers (meta x) \<noteq> [] \<Longrightarrow>
        \<exists>y. stored w' (ns, name) = Some y \<and> copy_of meta spec x y"
    using c by (auto simp: copy_of_def)
  show "r = None \<Longrightarrow> \<exists>x. stored w (ns, name) = Some x \<and> (m_finalizers (meta x) = [] \<and> stored w' (ns, name) = None
        \<or> (\<exists>y. stored w' (ns, name) = Some y \<and> copy_of meta spec x y \<and> \<not> deletion_is_zero (meta y)))"
    using c by (auto split: option.splits)
qed

lemma mem_create_laws:
  assumes "\<And>l w. objs (set_objs l w) = l"
    and "\<And>x w. create x w = (case obj_create meta x (objs w) of (l, r) \<Rightarrow> (set_objs l w, r))"
  shows "create_laws create meta spec (\<lambda>w. obj_find meta (objs w))"
proof -
  have cons: "obj_find meta (x # l) = (obj_find meta l)(key_of meta x \<mapsto> x)" for x l
    by (simp add: obj_find_def fun_eq_iff)
  show ?thesis
    by (auto simp: create_laws_def assms obj_create_def cons copy_of_def split: option.splits if_splits)
qed

lemma mem_delete_laws:
  assumes "\<And>l w. objs (set_objs l w) = l"
    and "\<And>ns name w. delete ns name w = (case obj_delete meta mark (ns, name) (objs w) of (l, r) \<Rightarrow> (set_objs l w, r))"
    and mark: "\<And>x. copy_of meta spec x (mark x) \<and> \<not> deletion_is_zero (meta (mark x))"
  shows "delete_laws delete meta spec (\<lambda>w. obj_find meta (objs w))"
proof -
  have key: "key_of meta (mark x) = (ns, name)" if "obj_find meta l (ns, name) = Some x" for l x ns name
    using obj_find_key [OF that] mark [of x] by (simp add: copy_of_def)
  show ?thesis
    using mark key
    by (auto simp: delete_laws_def assms(1,2) obj_delete_def obj_find_remove obj_find_put split: option.splits if_splits)
qed

lemma memory_api_laws: "api_laws (memory_hub :: 'a hub_store_scheme hub) s_works mem_networks mem_overlays"
proof -
  let ?h = "memory_hub :: 'a hub_store_scheme hub"
  have "create_laws (h_create_network ?h) sn_meta sn_spec mem_networks"
    by (rule mem_create_laws [where set_objs = "\<lambda>l w. w\<lparr>hs_networks := l\<rparr>"]) (simp_all add: memory_hub_def on_networks_def)
  moreover have "create_laws (h_create_overlay ?h) so_meta so_spec mem_overlays"
    by (rule mem_create_laws [where set_objs = "\<lambda>l w. w\<lparr>hs_overlays := l\<rparr>"]) (simp_all add: memory_hub_def on_overlays_def)
  moreover have "delete_laws (h_delete_network ?h) sn_meta sn_spec mem_networks"
    by (rule mem_delete_laws [where set_objs = "\<lambda>l w. w\<lparr>hs_networks := l\<rparr>" and mark = mark_network])
       (simp_all add: memory_hub_def on_networks_def copy_of_def key_of_def mark_network_def deletion_is_zero_def)
  moreover have "delete_laws (h_delete_overlay ?h) so_meta so_spec mem_overlays"
    by (rule mem_delete_laws [where set_objs = "\<lambda>l w. w\<lparr>hs_overlays := l\<rparr>" and mark = mark_overlay])
       (simp_all add: memory_hub_def on_overlays_def copy_of_def key_of_def mark_overlay_def deletion_is_zero_def)
  ultimately show ?thesis
    by (auto simp: api_laws_def memory_hub_def on_networks_def on_overlays_def split: prod.splits)
qed

lemma mem_api_laws: "api_laws mem_hub s_works mem_networks mem_overlays"
  by (rule memory_api_laws)

section \<open>What a request does\<close>

text \<open>The namespace and name a request of the network (slice) messages speaks of.\<close>

definition network_target :: "pb_L2Network option \<Rightarrow> string \<Rightarrow> string \<times> string" where
  "network_target m ns = (DefaultIfEmpty ns ''default'', L2Network_GetName m)"

definition slice_target :: "pb_Slice option \<Rightarrow> string \<Rightarrow> string \<times> string" where
  "slice_target m ns = (DefaultIfEmpty ns ''default'',
     DefaultIfEmpty (Provider_GetName (Slice_GetProvider m)) ''slice'')"

lemma sliceNetworkFromProto_key [simp]: "key_of sn_meta (sliceNetworkFromProto gv m ns) = network_target m ns"
  by (simp add: key_of_def sliceNetworkFromProto_def network_target_def)

lemma sliceOverlayFromProto_key [simp]: "key_of so_meta (sliceOverlayFromProto gv m ns) = slice_target m ns"
  by (auto simp: key_of_def sliceOverlayFromProto_def slice_target_def DefaultIfEmpty_def Let_def message_getters)

lemma fromProto_fresh [simp]:
  "m_finalizers (sn_meta (sliceNetworkFromProto gv m ns)) = []" "deletion_is_zero (sn_meta (sliceNetworkFromProto gv m ns))"
  "m_finalizers (so_meta (sliceOverlayFromProto gv m' ns)) = []" "deletion_is_zero (so_meta (sliceOverlayFromProto gv m' ns))"
  by (simp_all add: sliceNetworkFromProto_def sliceOverlayFromProto_def empty_meta_def deletion_is_zero_def Let_def)

lemma api_lawsD:
  assumes "api_laws h works networks overlays"
  shows "create_laws (h_create_network h) sn_meta sn_spec networks" "delete_laws (h_delete_network h) sn_meta sn_spec networks"
    and "create_laws (h_create_overlay h) so_meta so_spec overlays" "delete_laws (h_delete_overlay h) so_meta so_spec overlays"
    and "h_create_network h n w = (w', r) \<Longrightarrow> works w' = works w \<and> overlays w' = overlays w"
    and "h_delete_network h ns name w = (w', r) \<Longrightarrow> works w' = works w \<and> overlays w' = overlays w"
    and "h_create_overlay h s w = (w', r) \<Longrightarrow> works w' = works w \<and> networks w' = networks w"
    and "h_delete_overlay h ns name w = (w', r) \<Longrightarrow> works w' = works w \<and> networks w' = networks w"
  using assms unfolding api_laws_def by blast+

lemma created:
  assumes "create_laws create meta spec stored" "create x w = (w', None)"
    "m_finalizers (meta x) = []" "deletion_is_zero (meta x)"
  shows "stored w (key_of meta x) = None \<and> (\<exists>y. stored w' = (stored w)(key_of meta x \<mapsto> y)
    \<and> spec y = spec x \<and> m_finalizers (meta y) = [] \<and> deletion_is_zero (meta y))"
proof -
  from create_lawsD(3) [OF assms(1,2) refl] obtain y where y: "stored w (key_of meta x) = None"
      "stored w' (key_of meta x) = Some y" "copy_of meta spec x y" "deletion_is_zero (meta x) \<longrightarrow> deletion_is_zero (meta y)"
    by blast
  from map_at(1) [OF create_lawsD(1) [OF assms(1,2)] y(2)] y assms(3,4) show ?thesis
    by (auto simp: copy_of_def)
qed

lemma deleted:
  assumes "delete_laws delete meta spec stored" "delete ns name w = (w', None)"
  shows "\<exists>x. stored w (ns, name) = Some x
    \<and> (m_finalizers (meta x) = [] \<and> stored w' = (stored w)((ns, name) := None)
       \<or> (\<exists>y. stored w' = (stored w)((ns, name) \<mapsto> y) \<and> copy_of meta spec x y \<and> \<not> deletion_is_zero (meta y)))"
  using delete_lawsD(3) [OF assms refl] map_at(1,2) [OF delete_lawsD(1) [OF assms]] by metis

text \<open>C27: the network requests. CreateNetwork that succeeds found no network of that name in the namespace
  (\<open>default\<close> when empty) and stored one with the requested clusters, type and provider, live and without
  finalizers; a DeleteNetwork that succeeds, for the same network and namespace, found it and removed it,
  or marked it as deleted for the controller when it has finalizers. Every other network, every slice and
  every ManifestWork stays as it was; so a request deploys nothing itself.\<close>

theorem server_networks:
  assumes "api_laws h works networks overlays"
  shows "(\<forall>req w w' resp. server_CreateNetwork gv h req w = (w', Inr resp) \<longrightarrow>
      works w' = works w \<and> overlays w' = overlays w
      \<and> networks w (network_target (CreateNetworkRequest_GetNetwork req) (CreateNetworkRequest_GetNamespace req)) = None
      \<and> (\<exists>n. networks w' = (networks w)(network_target (CreateNetworkRequest_GetNetwork req) (CreateNetworkRequest_GetNamespace req) \<mapsto> n)
          \<and> sns_clusters (sn_spec n) = map Cluster_GetName (L2Network_GetClusters (CreateNetworkRequest_GetNetwork req))
          \<and> sns_type (sn_spec n) = L2Network_GetType (CreateNetworkRequest_GetNetwork req)
          \<and> sns_provider (sn_spec n) = providerFromProto (L2Network_GetProvider (CreateNetworkRequest_GetNetwork req))
          \<and> m_finalizers (sn_meta n) = [] \<and> deletion_is_zero (sn_meta n)))
    \<and> (\<forall>req w w' resp. server_DeleteNetwork gv h req w = (w', Inr resp) \<longrightarrow>
      works w' = works w \<and> overlays w' = overlays w
      \<and> (\<exists>n. networks w (network_target (DeleteNetworkRequest_GetNetwork req) (DeleteNetworkRequest_GetNamespace req)) = Some n
          \<and> (m_finalizers (sn_meta n) = []
             \<and> networks w' = (networks w)(network_target (DeleteNetworkRequest_GetNetwork req) (DeleteNetworkRequest_GetNamespace req) := None)
            \<or> (\<exists>m. networks w' = (networks w)(network_target (DeleteNetworkRequest_GetNetwork req) (DeleteNetworkRequest_GetNamespace req) \<mapsto> m)
                \<and> copy_of sn_meta sn_spec n m \<and> \<not> deletion_is_zero (sn_meta m)))))"
proof (rule conjI; intro allI impI)
  fix req w w' resp
  assume run: "server_CreateNetwork gv h req w = (w', Inr resp)"
  let ?x = "sliceNetworkFromProto gv (CreateNetworkRequest_GetNetwork req) (CreateNetworkRequest_GetNamespace req)"
  from run have c: "h_create_network h ?x w = (w', None)"
    by (auto simp: server_CreateNetwork_def Let_def split: prod.splits option.splits)
  have spec: "sn_spec ?x = \<lparr>sns_clusters = map Cluster_GetName (L2Network_GetClusters (CreateNetworkRequest_GetNetwork req)),
      sns_type = L2Network_GetType (CreateNetworkRequest_GetNetwork req), sns_providerRef = None,
      sns_provider = providerFromProto (L2Network_GetProvider (CreateNetworkRequest_GetNetwork req))\<rparr>"
    by (simp add: sliceNetworkFromProto_def)
  show "works w' = works w \<and> overlays w' = overlays w
      \<and> networks w (network_target (CreateNetworkRequest_GetNetwork req) (CreateNetworkRequest_GetNamespace req)) = None
      \<and> (\<exists>n. networks w' = (networks w)(network_target (CreateNetworkRequest_GetNetwork req) (CreateNetworkRequest_GetNamespace req) \<mapsto> n)
          \<and> sns_clusters (sn_spec n) = map Cluster_GetName (L2Network_GetClusters (CreateNetworkRequest_GetNetwork req))
          \<and> sns_type (sn_spec n) = L2Network_GetType (CreateNetworkRequest_GetNetwork req)
          \<and> sns_provider (sn_spec n) = providerFromProto (L2Network_GetProvider (CreateNetworkRequest_GetNetwork req))
          \<and> m_finalizers (sn_meta n) = [] \<and> deletion_is_zero (sn_meta n))"
    using created [OF api_lawsD(1) [OF assms] c] api_lawsD(5) [OF assms c] by (auto simp: spec)
next
  fix req w w' resp
  assume run: "server_DeleteNetwork gv h req w = (w', Inr resp)"
  let ?x = "sliceNetworkFromProto gv (DeleteNetworkRequest_GetNetwork req) (DeleteNetworkRequest_GetNamespace req)"
  from run have d: "h_delete_network h (net_namespace ?x) (net_name ?x) w = (w', None)"
    by (auto simp: server_DeleteNetwork_def Let_def split: prod.splits option.splits)
  have key: "(net_namespace ?x, net_name ?x) = network_target (DeleteNetworkRequest_GetNetwork req) (DeleteNetworkRequest_GetNamespace req)"
    by (simp add: key_of_def flip: sliceNetworkFromProto_key [of gv])
  from deleted [OF api_lawsD(2) [OF assms] d, unfolded key] api_lawsD(6) [OF assms d]
  show "works w' = works w \<and> overlays w' = overlays w
      \<and> (\<exists>n. networks w (network_target (DeleteNetworkRequest_GetNetwork req) (DeleteNetworkRequest_GetNamespace req)) = Some n
          \<and> (m_finalizers (sn_meta n) = []
             \<and> networks w' = (networks w)(network_target (DeleteNetworkRequest_GetNetwork req) (DeleteNetworkRequest_GetNamespace req) := None)
            \<or> (\<exists>m. networks w' = (networks w)(network_target (DeleteNetworkRequest_GetNetwork req) (DeleteNetworkRequest_GetNamespace req) \<mapsto> m)
                \<and> copy_of sn_meta sn_spec n m \<and> \<not> deletion_is_zero (sn_meta m))))"
    by blast
qed

definition empty_hub :: hub_store where
  "empty_hub = \<lparr>s_works = Map.empty, s_urls = Map.empty, hs_networks = [], hs_overlays = [], hs_profiles = []\<rparr>"

lemma server_networks_witness:
  "\<exists>n. mem_networks (fst (server_CreateNetwork gv_group mem_hub
        (Some \<lparr>CreateNetworkRequest_Network = Some (network_message requested_network), CreateNetworkRequest_Namespace = []\<rparr>)
        empty_hub)) (''default'', ''net'') = Some n \<and> sns_clusters (sn_spec n) = [''a'', ''b'']"
proof -
  let ?req = "Some \<lparr>CreateNetworkRequest_Network = Some (network_message requested_network), CreateNetworkRequest_Namespace = []\<rparr>"
  obtain w' resp where run: "server_CreateNetwork gv_group mem_hub ?req empty_hub = (w', Inr resp)"
    by (simp add: server_CreateNetwork_def Let_def mem_hub_def on_networks_def obj_create_def obj_find_def empty_hub_def)
  have "network_target (CreateNetworkRequest_GetNetwork ?req) (CreateNetworkRequest_GetNamespace ?req) = (''default'', ''net'')"
    "map Cluster_GetName (L2Network_GetClusters (CreateNetworkRequest_GetNetwork ?req)) = [''a'', ''b'']"
    by (simp_all add: network_target_def message_getters network_message_def requested_network_def DefaultIfEmpty_def cluster_message_def)
  with conjunct1 [OF server_networks [OF mem_api_laws], rule_format, OF run] show ?thesis
    unfolding run fst_conv by auto
qed

text \<open>The topology a slice message speaks of: its clusters with their gateway nodes, and its links.\<close>

definition requested_topology :: "pb_Slice option \<Rightarrow> overlay_topology" where
  "requested_topology m =
     \<lparr>ot_nodes = map (\<lambda>c. \<lparr>oc_name = Cluster_GetName c,
          oc_gateway = map_option (\<lambda>n. \<lparr>nc_nodeName = Node_GetName (Some n), nc_ipAddress = Node_GetIpAddress (Some n)\<rparr>)
            (Cluster_GetGatewayNode c)\<rparr>) (Slice_GetClusters m),
      ot_links = map (\<lambda>l. \<lparr>ol_endpointA = Link_GetEndpointA l, ol_endpointB = Link_GetEndpointB l\<rparr>) (Slice_GetLinks m)\<rparr>"

lemma requested_topology_code:
  "requested_topology m = \<lparr>ot_nodes = map overlay_node (Slice_GetClusters m), ot_links = map proto_link (Slice_GetLinks m)\<rparr>"
  by (auto simp: requested_topology_def overlay_node_def proto_link_def)

lemma sliceOverlayFromProto_spec:
  "so_spec (sliceOverlayFromProto gv m ns) =
     \<lparr>sos_providerRef = None, sos_provider = providerFromProto (Slice_GetProvider m), sos_switchTemplate = None,
      sos_topology = Some (requested_topology m), sos_monitoring = None\<rparr>"
  by (simp add: sliceOverlayFromProto_def requested_topology_code Let_def)

text \<open>C28: the slice requests. A slice is stored under its provider's name (\<open>slice\<close> when it has none), so in
  a namespace there is at most one slice per provider: a second CreateSlice with that provider's name is
  refused, whatever its clusters, and leaves the first one stored. One that succeeds stores a slice of the
  requested provider whose topology has the requested clusters, in order and with their gateway nodes,
  and the requested links, in order, and nothing else in its specification; and it deploys nothing. DeleteSlice removes or
  marks the slice of the provider's name, whatever else it says.\<close>

theorem server_slices:
  assumes "api_laws h works networks overlays"
  shows "(\<forall>req w w' resp. server_CreateSlice gv h req w = (w', Inr resp) \<longrightarrow>
      works w' = works w \<and> networks w' = networks w
      \<and> overlays w (slice_target (CreateSliceRequest_GetSlice req) (CreateSliceRequest_GetNamespace req)) = None
      \<and> (\<exists>s. overlays w' = (overlays w)(slice_target (CreateSliceRequest_GetSlice req) (CreateSliceRequest_GetNamespace req) \<mapsto> s)
          \<and> so_spec s = \<lparr>sos_providerRef = None,
              sos_provider = providerFromProto (Slice_GetProvider (CreateSliceRequest_GetSlice req)), sos_switchTemplate = None,
              sos_topology = Some (requested_topology (CreateSliceRequest_GetSlice req)), sos_monitoring = None\<rparr>
          \<and> m_finalizers (so_meta s) = [] \<and> deletion_is_zero (so_meta s)))
    \<and> (\<forall>req w w' r s. server_CreateSlice gv h req w = (w', r) \<longrightarrow>
      overlays w (slice_target (CreateSliceRequest_GetSlice req) (CreateSliceRequest_GetNamespace req)) = Some s \<longrightarrow>
      (\<exists>e. r = Inl (CouldNotCreateSlice e)) \<and> overlays w' = overlays w)
    \<and> (\<forall>req w w' resp. server_DeleteSlice gv h req w = (w', Inr resp) \<longrightarrow>
      works w' = works w \<and> networks w' = networks w
      \<and> (\<exists>s. overlays w (slice_target (DeleteSliceRequest_GetSlice req) (DeleteSliceRequest_GetNamespace req)) = Some s
          \<and> (m_finalizers (so_meta s) = []
             \<and> overlays w' = (overlays w)(slice_target (DeleteSliceRequest_GetSlice req) (DeleteSliceRequest_GetNamespace req) := None)
            \<or> (\<exists>m. overlays w' = (overlays w)(slice_target (DeleteSliceRequest_GetSlice req) (DeleteSliceRequest_GetNamespace req) \<mapsto> m)
                \<and> copy_of so_meta so_spec s m \<and> \<not> deletion_is_zero (so_meta m)))))"
proof (intro conjI; intro allI impI)
  fix req w w' resp
  assume run: "server_CreateSlice gv h req w = (w', Inr resp)"
  let ?x = "sliceOverlayFromProto gv (CreateSliceRequest_GetSlice req) (CreateSliceRequest_GetNamespace req)"
  from run have c: "h_create_overlay h ?x w = (w', None)"
    by (auto simp: server_CreateSlice_def Let_def split: prod.splits option.splits)
  show "works w' = works w \<and> networks w' = networks w
      \<and> overlays w (slice_target (CreateSliceRequest_GetSlice req) (CreateSliceRequest_GetNamespace req)) = None
      \<and> (\<exists>s. overlays w' = (overlays w)(slice_target (CreateSliceRequest_GetSlice req) (CreateSliceRequest_GetNamespace req) \<mapsto> s)
          \<and> so_spec s = \<lparr>sos_providerRef = None,
              sos_provider = providerFromProto (Slice_GetProvider (CreateSliceRequest_GetSlice req)), sos_switchTemplate = None,
              sos_topology = Some (requested_topology (CreateSliceRequest_GetSlice req)), sos_monitoring = None\<rparr>
          \<and> m_finalizers (so_meta s) = [] \<and> deletion_is_zero (so_meta s))"
    using created [OF api_lawsD(3) [OF assms] c] api_lawsD(7) [OF assms c]
    by (auto simp: sliceOverlayFromProto_spec)
next
  fix req w w' r s
  assume run: "server_CreateSlice gv h req w = (w', r)"
    and s: "overlays w (slice_target (CreateSliceRequest_GetSlice req) (CreateSliceRequest_GetNamespace req)) = Some s"
  let ?x = "sliceOverlayFromProto gv (CreateSliceRequest_GetSlice req) (CreateSliceRequest_GetNamespace req)"
  obtain q where c: "h_create_overlay h ?x w = (w', q)" and r: "q \<noteq> None \<Longrightarrow> \<exists>e. r = Inl (CouldNotCreateSlice e)"
    using run by (auto simp: server_CreateSlice_def Let_def split: prod.splits option.splits)
  note laws = create_lawsD(1,2) [OF api_lawsD(3) [OF assms] c, unfolded sliceOverlayFromProto_key]
  from laws(2) [OF s] r map_at(1) [OF laws(1)] s
  show "(\<exists>e. r = Inl (CouldNotCreateSlice e)) \<and> overlays w' = overlays w" by (metis fun_upd_triv)
next
  fix req w w' resp
  assume run: "server_DeleteSlice gv h req w = (w', Inr resp)"
  let ?x = "sliceOverlayFromProto gv (DeleteSliceRequest_GetSlice req) (DeleteSliceRequest_GetNamespace req)"
  from run have d: "h_delete_overlay h (overlay_namespace ?x) (overlay_name ?x) w = (w', None)"
    by (auto simp: server_DeleteSlice_def Let_def split: prod.splits option.splits)
  have key: "(overlay_namespace ?x, overlay_name ?x) = slice_target (DeleteSliceRequest_GetSlice req) (DeleteSliceRequest_GetNamespace req)"
    by (simp add: key_of_def flip: sliceOverlayFromProto_key [of gv])
  from deleted [OF api_lawsD(4) [OF assms] d, unfolded key] api_lawsD(8) [OF assms d]
  show "works w' = works w \<and> networks w' = networks w
      \<and> (\<exists>s. overlays w (slice_target (DeleteSliceRequest_GetSlice req) (DeleteSliceRequest_GetNamespace req)) = Some s
          \<and> (m_finalizers (so_meta s) = []
             \<and> overlays w' = (overlays w)(slice_target (DeleteSliceRequest_GetSlice req) (DeleteSliceRequest_GetNamespace req) := None)
            \<or> (\<exists>m. overlays w' = (overlays w)(slice_target (DeleteSliceRequest_GetSlice req) (DeleteSliceRequest_GetNamespace req) \<mapsto> m)
                \<and> copy_of so_meta so_spec s m \<and> \<not> deletion_is_zero (so_meta m))))"
    by blast
qed

lemma server_slices_witness:
  "\<exists>e. snd (server_CreateSlice gv_group mem_hub (Some \<lparr>CreateSliceRequest_Slice = None, CreateSliceRequest_Namespace = ''ns''\<rparr>)
      (fst (server_CreateSlice gv_group mem_hub (Some \<lparr>CreateSliceRequest_Slice = None, CreateSliceRequest_Namespace = ''ns''\<rparr>) empty_hub)))
    = Inl (CouldNotCreateSlice e)"
proof -
  let ?req = "Some \<lparr>CreateSliceRequest_Slice = None, CreateSliceRequest_Namespace = ''ns''\<rparr>"
  obtain w1 resp where run1: "server_CreateSlice gv_group mem_hub ?req empty_hub = (w1, Inr resp)"
    by (simp add: server_CreateSlice_def Let_def mem_hub_def on_overlays_def obj_create_def obj_find_def empty_hub_def)
  obtain w2 r where run2: "server_CreateSlice gv_group mem_hub ?req w1 = (w2, r)" by fastforce
  note laws = server_slices [OF mem_api_laws]
  obtain s where "mem_overlays w1 (slice_target (CreateSliceRequest_GetSlice ?req) (CreateSliceRequest_GetNamespace ?req)) = Some s"
    using conjunct1 [OF laws, rule_format, OF run1] by auto
  with conjunct1 [OF conjunct2 [OF laws], rule_format, OF run2] show ?thesis
    unfolding run1 fst_conv run2 snd_conv by blast
qed

end
