(* ===== verification/System.thy ===== *)
theory System
  imports Controllers Server
begin

text \<open>
  The whole system as a step relation on the state of the world: runs of the two reconcilers with the OCM
  client, the four requests of the gRPC service, and changes made by others, in any order. The invariant is
  that no ManifestWork is ever orphaned.
\<close>

section \<open>Guarded objects\<close>

definition guarded_network :: "slice_network \<Rightarrow> bool" where
  "guarded_network n \<longleftrightarrow> sliceNetworkFinalizer \<in> set (m_finalizers (sn_meta n))"

definition guarded_overlay :: "slice_overlay \<Rightarrow> bool" where
  "guarded_overlay s \<longleftrightarrow> sliceOverlayFinalizer \<in> set (m_finalizers (so_meta s))"

text \<open>The work at \<open>key\<close> belongs to a stored object that has the finalizer.\<close>

definition owned :: "'w kube \<Rightarrow> ('w \<Rightarrow> string \<times> string \<rightharpoonup> slice_network) \<Rightarrow> ('w \<Rightarrow> string \<times> string \<rightharpoonup> slice_overlay)
    \<Rightarrow> 'w \<Rightarrow> string \<times> string \<Rightarrow> bool" where
  "owned k networks overlays w key \<longleftrightarrow>
     (\<exists>o_key n. networks w o_key = Some n \<and> guarded_network n \<and> key \<in> network_keys k n)
     \<or> (\<exists>o_key s. overlays w o_key = Some s \<and> guarded_overlay s \<and> key \<in> slice_keys k s)"

text \<open>Guarded objects stay stored and guarded, and keep the clusters they have.\<close>

definition keeps_guards :: "'w kube \<Rightarrow> ('w \<Rightarrow> string \<times> string \<rightharpoonup> slice_network) \<Rightarrow> ('w \<Rightarrow> string \<times> string \<rightharpoonup> slice_overlay)
    \<Rightarrow> 'w \<Rightarrow> 'w \<Rightarrow> bool" where
  "keeps_guards k networks overlays w w' \<longleftrightarrow>
     (\<forall>o_key n. networks w o_key = Some n \<longrightarrow> guarded_network n \<longrightarrow>
        (\<exists>m. networks w' o_key = Some m \<and> guarded_network m \<and> network_keys k n \<subseteq> network_keys k m))
     \<and> (\<forall>o_key s. overlays w o_key = Some s \<longrightarrow> guarded_overlay s \<longrightarrow>
        (\<exists>m. overlays w' o_key = Some m \<and> guarded_overlay m \<and> slice_keys k s \<subseteq> slice_keys k m))"

text \<open>A change by others: it deploys nothing and keeps the guards. So creating and updating objects,
  profiles and statuses and adding clusters is allowed, and asking for a deletion; removing somebody's
  finalizer, or a cluster of a guarded object, is not.\<close>

definition external_change :: "'w kube \<Rightarrow> ('w \<Rightarrow> work_view) \<Rightarrow> ('w \<Rightarrow> string \<times> string \<rightharpoonup> slice_network)
    \<Rightarrow> ('w \<Rightarrow> string \<times> string \<rightharpoonup> slice_overlay) \<Rightarrow> 'w \<Rightarrow> 'w \<Rightarrow> bool" where
  "external_change k works networks overlays w w' \<longleftrightarrow> works w' = works w \<and> keeps_guards k networks overlays w w'"

section \<open>Steps\<close>

inductive system_step :: "'w hub \<Rightarrow> 'w kube \<Rightarrow> (group_version \<Rightarrow> string) \<Rightarrow> ('w \<Rightarrow> work_view)
    \<Rightarrow> ('w \<Rightarrow> string \<times> string \<rightharpoonup> slice_network) \<Rightarrow> ('w \<Rightarrow> string \<times> string \<rightharpoonup> slice_overlay) \<Rightarrow> 'w \<Rightarrow> 'w \<Rightarrow> bool"
  for h k gv works networks overlays where
  network_run: "network_Reconcile h (Some (ocm_client k)) req w = (w', r) \<Longrightarrow> system_step h k gv works networks overlays w w'"
| overlay_run: "overlay_Reconcile h (Some (ocm_client k)) req w = (w', r) \<Longrightarrow> system_step h k gv works networks overlays w w'"
| create_network: "server_CreateNetwork gv h cn w = (w', cnr) \<Longrightarrow> system_step h k gv works networks overlays w w'"
| delete_network: "server_DeleteNetwork gv h dn w = (w', dnr) \<Longrightarrow> system_step h k gv works networks overlays w w'"
| create_slice: "server_CreateSlice gv h cs w = (w', csr) \<Longrightarrow> system_step h k gv works networks overlays w w'"
| delete_slice: "server_DeleteSlice gv h ds w = (w', dsr) \<Longrightarrow> system_step h k gv works networks overlays w w'"
| others: "external_change k works networks overlays w w' \<Longrightarrow> system_step h k gv works networks overlays w w'"

inductive_cases system_stepE: "system_step h k gv works networks overlays w w'"

lemma owned_kept:
  assumes "keeps_guards k networks overlays w w'" "owned k networks overlays w key"
  shows "owned k networks overlays w' key"
  using assms(2) unfolding owned_def
proof
  assume "\<exists>o_key n. networks w o_key = Some n \<and> guarded_network n \<and> key \<in> network_keys k n"
  then obtain o_key n where n: "networks w o_key = Some n" "guarded_network n" "key \<in> network_keys k n" by blast
  from conjunct1 [OF assms(1) [unfolded keeps_guards_def], rule_format, OF n(1,2)] obtain m
    where "networks w' o_key = Some m" "guarded_network m" "network_keys k n \<subseteq> network_keys k m" by blast
  with n(3) show "(\<exists>o_key n. networks w' o_key = Some n \<and> guarded_network n \<and> key \<in> network_keys k n)
      \<or> (\<exists>o_key s. overlays w' o_key = Some s \<and> guarded_overlay s \<and> key \<in> slice_keys k s)" by blast
next
  assume "\<exists>o_key s. overlays w o_key = Some s \<and> guarded_overlay s \<and> key \<in> slice_keys k s"
  then obtain o_key s where s: "overlays w o_key = Some s" "guarded_overlay s" "key \<in> slice_keys k s" by blast
  from conjunct2 [OF assms(1) [unfolded keeps_guards_def], rule_format, OF s(1,2)] obtain m
    where "overlays w' o_key = Some m" "guarded_overlay m" "slice_keys k s \<subseteq> slice_keys k m" by blast
  with s(3) show "(\<exists>o_key n. networks w' o_key = Some n \<and> guarded_network n \<and> key \<in> network_keys k n)
      \<or> (\<exists>o_key s. overlays w' o_key = Some s \<and> guarded_overlay s \<and> key \<in> slice_keys k s)" by blast
qed

lemma copy_of_network:
  "copy_of sn_meta sn_spec n m \<Longrightarrow> guarded_network m = guarded_network n \<and> network_keys k m = network_keys k n"
  by (simp add: copy_of_def guarded_network_def network_keys_def network_key_def [abs_def] key_of_def)

lemma copy_of_overlay:
  "copy_of so_meta so_spec s m \<Longrightarrow> guarded_overlay m = guarded_overlay s \<and> slice_keys k m = slice_keys k s"
  by (simp add: copy_of_def guarded_overlay_def slice_keys_def slice_key_def [abs_def] slice_nodes_def key_of_def)

text \<open>The API server's laws keep an object with finalizers, for any set of them.\<close>

lemma create_keeps:
  assumes "create_laws create meta spec stored" "create x w = (w', r)" "stored w o_key = Some y"
  shows "stored w' o_key = Some y"
proof (cases "o_key = key_of meta x")
  case True
  with create_lawsD(2) [OF assms(1,2)] assms(3) show ?thesis by blast
next
  case False
  with map_at(3) [OF create_lawsD(1) [OF assms(1,2)]] assms(3) show ?thesis by simp
qed

lemma delete_keeps:
  assumes "delete_laws delete meta spec stored" "delete ns name w = (w', r)" "stored w o_key = Some y"
    "m_finalizers (meta y) \<noteq> []"
  shows "\<exists>m. stored w' o_key = Some m \<and> copy_of meta spec y m"
proof (cases "o_key = (ns, name)")
  case True
  with delete_lawsD(2) [OF assms(1,2)] assms(3,4) show ?thesis by blast
next
  case False
  with map_at(3) [OF delete_lawsD(1) [OF assms(1,2)]] assms(3) show ?thesis by (simp add: copy_of_def)
qed

lemma networks_kept:
  assumes "overlays w' = overlays w"
    and "\<And>o_key n. networks w o_key = Some n \<Longrightarrow> guarded_network n \<Longrightarrow>
        \<exists>m. networks w' o_key = Some m \<and> copy_of sn_meta sn_spec n m"
  shows "keeps_guards k networks overlays w w'"
  unfolding keeps_guards_def
proof (intro conjI allI impI)
  fix o_key n
  assume n: "networks w o_key = Some n" "guarded_network n"
  from assms(2) [OF this] obtain m where "networks w' o_key = Some m" "copy_of sn_meta sn_spec n m" by blast
  with n(2) copy_of_network show "\<exists>m. networks w' o_key = Some m \<and> guarded_network m \<and> network_keys k n \<subseteq> network_keys k m"
    by (metis order_refl)
next
  fix o_key s
  assume "overlays w o_key = Some s" "guarded_overlay s"
  then show "\<exists>m. overlays w' o_key = Some m \<and> guarded_overlay m \<and> slice_keys k s \<subseteq> slice_keys k m"
    using assms(1) by auto
qed

lemma overlays_kept:
  assumes "networks w' = networks w"
    and "\<And>o_key s. overlays w o_key = Some s \<Longrightarrow> guarded_overlay s \<Longrightarrow>
        \<exists>m. overlays w' o_key = Some m \<and> copy_of so_meta so_spec s m"
  shows "keeps_guards k networks overlays w w'"
  unfolding keeps_guards_def
proof (intro conjI allI impI)
  fix o_key n
  assume "networks w o_key = Some n" "guarded_network n"
  then show "\<exists>m. networks w' o_key = Some m \<and> guarded_network m \<and> network_keys k n \<subseteq> network_keys k m"
    using assms(1) by auto
next
  fix o_key s
  assume s: "overlays w o_key = Some s" "guarded_overlay s"
  from assms(2) [OF this] obtain m where "overlays w' o_key = Some m" "copy_of so_meta so_spec s m" by blast
  with s(2) copy_of_overlay show "\<exists>m. overlays w' o_key = Some m \<and> guarded_overlay m \<and> slice_keys k s \<subseteq> slice_keys k m"
    by (metis order_refl)
qed

text \<open>Requests are such a change.\<close>

lemma copy_of_refl [simp]: "copy_of meta spec x x" by (simp add: copy_of_def)

lemma request_steps:
  assumes laws: "api_laws h works networks overlays"
  shows "server_CreateNetwork gv h cn w = (w', cnr) \<Longrightarrow> external_change k works networks overlays w w'"
    and "server_DeleteNetwork gv h dn w = (w', dnr) \<Longrightarrow> external_change k works networks overlays w w'"
    and "server_CreateSlice gv h cs w = (w', csr) \<Longrightarrow> external_change k works networks overlays w w'"
    and "server_DeleteSlice gv h ds w = (w', dsr) \<Longrightarrow> external_change k works networks overlays w w'"
proof -
  assume "server_CreateNetwork gv h cn w = (w', cnr)"
  then obtain r x where c: "h_create_network h x w = (w', r)"
    by (auto simp: server_CreateNetwork_def Let_def split: prod.splits option.splits)
  have "\<exists>m. networks w' o_key = Some m \<and> copy_of sn_meta sn_spec n m" if "networks w o_key = Some n" for o_key n
    using create_keeps [OF api_lawsD(1) [OF laws] c that] by (intro exI conjI) (assumption, rule copy_of_refl)
  then show "external_change k works networks overlays w w'"
    unfolding external_change_def using api_lawsD(5) [OF laws c] by (intro conjI networks_kept) simp_all
next
  assume "server_DeleteNetwork gv h dn w = (w', dnr)"
  then obtain r ns name where d: "h_delete_network h ns name w = (w', r)"
    by (auto simp: server_DeleteNetwork_def Let_def split: prod.splits option.splits)
  have "\<exists>m. networks w' o_key = Some m \<and> copy_of sn_meta sn_spec n m"
    if "networks w o_key = Some n" "guarded_network n" for o_key n
    using that by (intro delete_keeps [OF api_lawsD(2) [OF laws] d]) (auto simp: guarded_network_def)
  then show "external_change k works networks overlays w w'"
    unfolding external_change_def using api_lawsD(6) [OF laws d] by (intro conjI networks_kept) simp_all
next
  assume "server_CreateSlice gv h cs w = (w', csr)"
  then obtain r x where c: "h_create_overlay h x w = (w', r)"
    by (auto simp: server_CreateSlice_def Let_def split: prod.splits option.splits)
  have "\<exists>m. overlays w' o_key = Some m \<and> copy_of so_meta so_spec s m" if "overlays w o_key = Some s" for o_key s
    using create_keeps [OF api_lawsD(3) [OF laws] c that] by (intro exI conjI) (assumption, rule copy_of_refl)
  then show "external_change k works networks overlays w w'"
    unfolding external_change_def using api_lawsD(7) [OF laws c] by (intro conjI overlays_kept) simp_all
next
  assume "server_DeleteSlice gv h ds w = (w', dsr)"
  then obtain r ns name where d: "h_delete_overlay h ns name w = (w', r)"
    by (auto simp: server_DeleteSlice_def Let_def split: prod.splits option.splits)
  have "\<exists>m. overlays w' o_key = Some m \<and> copy_of so_meta so_spec s m"
    if "overlays w o_key = Some s" "guarded_overlay s" for o_key s
    using that by (intro delete_keeps [OF api_lawsD(4) [OF laws] d]) (auto simp: guarded_overlay_def)
  then show "external_change k works networks overlays w w'"
    unfolding external_change_def using api_lawsD(8) [OF laws d] by (intro conjI overlays_kept) simp_all
qed

section \<open>No orphans\<close>

text \<open>The invariant: every ManifestWork belongs to a guarded object.\<close>

definition no_orphans :: "'w kube \<Rightarrow> ('w \<Rightarrow> work_view) \<Rightarrow> ('w \<Rightarrow> string \<times> string \<rightharpoonup> slice_network)
    \<Rightarrow> ('w \<Rightarrow> string \<times> string \<rightharpoonup> slice_overlay) \<Rightarrow> 'w \<Rightarrow> bool" where
  "no_orphans k works networks overlays w \<longleftrightarrow> (\<forall>key. works w key \<noteq> None \<longrightarrow> owned k networks overlays w key)"

lemma no_orphansD:
  "no_orphans k works networks overlays w \<Longrightarrow> works w key \<noteq> None \<Longrightarrow> owned k networks overlays w key"
  unfolding no_orphans_def by (erule allE, erule mp)

lemma network_run_no_orphans:
  assumes laws: "system_laws h k works networks overlays"
    and run: "network_Reconcile h (Some (ocm_client k)) req w = (w', r)"
    and inv: "no_orphans k works networks overlays w" and key: "works w' key \<noteq> None"
  shows "owned k networks overlays w' key"
proof -
  let ?req = "(rq_namespace req, rq_name req)"
  have fin: "network_ContainsFinalizer h n = guarded_network n" for n
    by (simp add: network_ContainsFinalizer_def guarded_network_def system_lawsD(2) [OF laws])
  have kept: "overlays w' = overlays w" "z \<noteq> ?req \<Longrightarrow> networks w' z = networks w z" for z
    using net_rec.others_kept [OF laws run] by (simp, meson map_at(3) prod.inject)
  from net_rec.works_owned [OF laws run key] show ?thesis
  proof
    assume "\<exists>y. networks w' ?req = Some y \<and> network_ContainsFinalizer h y \<and> key \<in> network_keys k y"
    then show ?thesis unfolding owned_def fin by blast
  next
    assume a: "works w key \<noteq> None \<and> (\<forall>x. networks w ?req = Some x \<longrightarrow> network_ContainsFinalizer h x \<longrightarrow> key \<notin> network_keys k x)"
    from no_orphansD [OF inv conjunct1 [OF a]] show ?thesis
      unfolding owned_def
    proof
      assume "\<exists>o_key n. networks w o_key = Some n \<and> guarded_network n \<and> key \<in> network_keys k n"
      then obtain o_key n where n: "networks w o_key = Some n" "guarded_network n" "key \<in> network_keys k n" by blast
      then have "o_key \<noteq> ?req" using a fin by blast
      then have "networks w' o_key = Some n" using kept(2) n(1) by simp
      with n show "(\<exists>o_key n. networks w' o_key = Some n \<and> guarded_network n \<and> key \<in> network_keys k n)
          \<or> (\<exists>o_key s. overlays w' o_key = Some s \<and> guarded_overlay s \<and> key \<in> slice_keys k s)" by blast
    next
      assume "\<exists>o_key s. overlays w o_key = Some s \<and> guarded_overlay s \<and> key \<in> slice_keys k s"
      then show "(\<exists>o_key n. networks w' o_key = Some n \<and> guarded_network n \<and> key \<in> network_keys k n)
          \<or> (\<exists>o_key s. overlays w' o_key = Some s \<and> guarded_overlay s \<and> key \<in> slice_keys k s)"
        unfolding kept(1) by (rule disjI2)
    qed
  qed
qed

lemma overlay_run_no_orphans:
  assumes laws: "system_laws h k works networks overlays"
    and run: "overlay_Reconcile h (Some (ocm_client k)) req w = (w', r)"
    and inv: "no_orphans k works networks overlays w" and key: "works w' key \<noteq> None"
  shows "owned k networks overlays w' key"
proof -
  let ?req = "(rq_namespace req, rq_name req)"
  have fin: "overlay_ContainsFinalizer h s = guarded_overlay s" for s
    by (simp add: overlay_ContainsFinalizer_def guarded_overlay_def system_lawsD(2) [OF laws])
  have kept: "networks w' = networks w" "z \<noteq> ?req \<Longrightarrow> overlays w' z = overlays w z" for z
    using ov_rec.others_kept [OF laws run] by (simp, meson map_at(3) prod.inject)
  from ov_rec.works_owned [OF laws run key] show ?thesis
  proof
    assume "\<exists>y. overlays w' ?req = Some y \<and> overlay_ContainsFinalizer h y \<and> key \<in> slice_keys k y"
    then show ?thesis unfolding owned_def fin by blast
  next
    assume a: "works w key \<noteq> None \<and> (\<forall>x. overlays w ?req = Some x \<longrightarrow> overlay_ContainsFinalizer h x \<longrightarrow> key \<notin> slice_keys k x)"
    from no_orphansD [OF inv conjunct1 [OF a]] show ?thesis
      unfolding owned_def
    proof
      assume "\<exists>o_key n. networks w o_key = Some n \<and> guarded_network n \<and> key \<in> network_keys k n"
      then show "(\<exists>o_key n. networks w' o_key = Some n \<and> guarded_network n \<and> key \<in> network_keys k n)
          \<or> (\<exists>o_key s. overlays w' o_key = Some s \<and> guarded_overlay s \<and> key \<in> slice_keys k s)"
        unfolding kept(1) by (rule disjI1)
    next
      assume "\<exists>o_key s. overlays w o_key = Some s \<and> guarded_overlay s \<and> key \<in> slice_keys k s"
      then obtain o_key s where s: "overlays w o_key = Some s" "guarded_overlay s" "key \<in> slice_keys k s" by blast
      then have "o_key \<noteq> ?req" using a fin by blast
      then have "overlays w' o_key = Some s" using kept(2) s(1) by simp
      with s show "(\<exists>o_key n. networks w' o_key = Some n \<and> guarded_network n \<and> key \<in> network_keys k n)
          \<or> (\<exists>o_key s. overlays w' o_key = Some s \<and> guarded_overlay s \<and> key \<in> slice_keys k s)" by blast
    qed
  qed
qed

lemma system_step_no_orphans:
  assumes laws: "system_laws h k works networks overlays" "api_laws h works networks overlays"
    and step: "system_step h k gv works networks overlays w w'" and inv: "no_orphans k works networks overlays w"
  shows "no_orphans k works networks overlays w'"
proof -
  have ext: ?thesis if "external_change k works networks overlays w w'"
  proof -
    from that have "works w' = works w" "keeps_guards k networks overlays w w'" by (simp_all add: external_change_def)
    note change = this
    show ?thesis
      unfolding no_orphans_def
    proof (intro allI impI)
      fix key
      assume "works w' key \<noteq> None"
      then have "owned k networks overlays w key" unfolding change(1) by (rule no_orphansD [OF inv])
      with change(2) show "owned k networks overlays w' key" by (rule owned_kept)
    qed
  qed
  have net: ?thesis if "network_Reconcile h (Some (ocm_client k)) req w = (w', r)" for req r
    unfolding no_orphans_def using network_run_no_orphans [OF laws(1) that inv] by (intro allI impI)
  have ov: ?thesis if "overlay_Reconcile h (Some (ocm_client k)) req w = (w', r)" for req r
    unfolding no_orphans_def using overlay_run_no_orphans [OF laws(1) that inv] by (intro allI impI)
  from step show ?thesis
    by (rule system_stepE) (erule net ov ext request_steps [OF laws(2), THEN ext])+
qed

lemma steps_no_orphans:
  assumes laws: "system_laws h k works networks overlays" "api_laws h works networks overlays"
    and run: "(system_step h k gv works networks overlays)\<^sup>*\<^sup>* w0 w" and start: "works w0 = Map.empty"
  shows "no_orphans k works networks overlays w"
  using run
proof (induction rule: rtranclp_induct)
  case base
  show ?case using start by (simp add: no_orphans_def)
next
  case (step w1 w2)
  from laws step(2,3) show ?case by (rule system_step_no_orphans)
qed

text \<open>C3: no orphans. Starting without ManifestWorks, after any number of runs of both reconcilers, failed
  ones included, and of requests and changes by others that keep the guards, in any order, every
  ManifestWork on every cluster belongs to a network or slice that is still stored with the finalizer and
  still lists the cluster. In particular no ManifestWork is left once all networks and slices are gone.\<close>

theorem reachable_no_orphans:
  assumes laws: "system_laws h k works networks overlays" "api_laws h works networks overlays"
    and run: "(system_step h k gv works networks overlays)\<^sup>*\<^sup>* w0 w" and start: "works w0 = Map.empty"
  shows "no_orphans k works networks overlays w
    \<and> (networks w = Map.empty \<and> overlays w = Map.empty \<longrightarrow> works w = Map.empty)"
proof -
  have inv: "no_orphans k works networks overlays w" by (rule steps_no_orphans [OF laws run start])
  have "works w = Map.empty" if e: "networks w = Map.empty" "overlays w = Map.empty"
  proof (rule ext)
    fix key
    have "\<not> owned k networks overlays w key" unfolding owned_def e by simp
    with no_orphansD [OF inv, of key] show "works w key = None" by blast
  qed
  with inv show ?thesis by blast
qed

lemma reachable_no_orphans_witness:
  "\<exists>w. (system_step mem_hub mem_kube gv_group s_works mem_networks mem_overlays)\<^sup>*\<^sup>* example_hub w
     \<and> s_works w (''b'', ''net'') \<noteq> None \<and> owned mem_kube mem_networks mem_overlays w (''b'', ''net'')"
proof -
  obtain w where run: "network_Reconcile mem_hub (Some (ocm_client mem_kube)) net_request example_hub = (w, None)"
    using example_network_run by blast
  then have reach: "(system_step mem_hub mem_kube gv_group s_works mem_networks mem_overlays)\<^sup>*\<^sup>* example_hub w"
    by (intro r_into_rtranclp system_step.network_run)
  have "(''b'', ''net'') \<in> network_keys (mem_kube :: hub_store kube) hub_network"
    by (simp add: network_keys_def network_key_def mem_names hub_network_def example_network_def)
  then have work: "s_works w (''b'', ''net'') \<noteq> None"
    using net_rec.deploys [OF mem_system_laws run example_network_stored, of "(''b'', ''net'')"] example_network_live by simp
  have "s_works example_hub = Map.empty" by (simp add: example_hub_def)
  from reachable_no_orphans [OF mem_system_laws mem_api_laws reach this]
  have "no_orphans mem_kube s_works mem_networks mem_overlays w" by blast
  from no_orphansD [OF this work] reach work show ?thesis by blast
qed

end
