(* ===== verification/Refinement.thy ===== *)
theory Refinement
  imports Reconciler
begin

text \<open>
  An abstract specification of the multi-domain client and the OCM client's refinement of it. The
  abstract state is the map of the ManifestWorks of all clusters; the abstract operations put or remove
  the entries of one object in a single step, with no errors, retries, reads or network.
\<close>

section \<open>Operations\<close>

datatype md_op =
    OpApplyNetwork slice_network string
  | OpDeleteNetwork slice_network string
  | OpApplySlice slice_overlay string
  | OpDeleteSlice slice_overlay string

fun run_op :: "'w mdclient \<Rightarrow> md_op \<Rightarrow> ('w, md_error) action" where
  "run_op md (OpApplyNetwork n ns) = md_ApplyNetwork md n ns"
| "run_op md (OpDeleteNetwork n ns) = md_DeleteNetwork md n ns"
| "run_op md (OpApplySlice s ns) = md_ApplySlice md s ns"
| "run_op md (OpDeleteSlice s ns) = md_DeleteSlice md s ns"

text \<open>The addresses when every cluster has a gateway address.\<close>

fun static_maps :: "overlay_cluster list \<Rightarrow> (string \<rightharpoonup> NodeConfig) \<Rightarrow> string \<rightharpoonup> NodeConfig" where
  "static_maps [] maps = maps"
| "static_maps (c # cs) maps =
     static_maps cs (maps(oc_name c \<mapsto> \<lparr>cfg_nodeName = oc_name c, cfg_ipAddress = gateway_address c\<rparr>))"

definition put_works :: "(string \<times> string) set \<Rightarrow> (string \<Rightarrow> ((string \<rightharpoonup> string) \<times> json list) option) \<Rightarrow> work_view \<Rightarrow> work_view" where
  "put_works keys content v = (\<lambda>key. if key \<in> keys then content (fst key) else v key)"

definition static_slice_content :: "'w kube \<Rightarrow> slice_overlay \<Rightarrow> string \<Rightarrow> string \<Rightarrow> ((string \<rightharpoonup> string) \<times> json list) option" where
  "static_slice_content k slc ns cluster =
     (case sos_topology (so_spec slc) of
        None \<Rightarrow> None
      | Some t \<Rightarrow>
          (case slice_monitoring k slc (ot_nodes t) of
             Some (Inr (gen, nodes)) \<Rightarrow>
               slice_content k gen nodes (static_maps (ot_nodes t) Map.empty) (slice_links t)
                 (DefaultIfEmpty ns ''he-codeco-netma'') cluster
           | _ \<Rightarrow> None))"

fun abs_op :: "'w kube \<Rightarrow> md_op \<Rightarrow> work_view \<Rightarrow> work_view" where
  "abs_op k (OpApplyNetwork n ns) v = put_works (network_keys k n) (\<lambda>c. network_content k n ns) v"
| "abs_op k (OpDeleteNetwork n ns) v = put_works (network_keys k n) (\<lambda>c. None) v"
| "abs_op k (OpApplySlice s ns) v = put_works (slice_keys k s) (static_slice_content k s ns) v"
| "abs_op k (OpDeleteSlice s ns) v = put_works (slice_keys k s) (\<lambda>c. None) v"

text \<open>Operations whose effect does not depend on what the clusters' endpoints resolve to.\<close>

fun static_op :: "md_op \<Rightarrow> bool" where
  "static_op (OpApplySlice s ns) = list_all (\<lambda>c. gateway_address c \<noteq> []) (slice_nodes s)"
| "static_op op = True"

section \<open>One operation\<close>

lemma resolve_static:
  "list_all (\<lambda>c. gateway_address c \<noteq> []) cs \<Longrightarrow> resolve_clusters k cs maps w = (w, Inr (static_maps cs maps))"
  by (induction cs arbitrary: maps) (simp_all add: gateway_address_def Let_def)

lemma put_works_eqI:
  assumes "\<And>key. key \<in> keys \<Longrightarrow> v' key = content (fst key)" and "\<And>key. key \<notin> keys \<Longrightarrow> v' key = v key"
  shows "v' = put_works keys content v"
  unfolding put_works_def by (rule ext) (simp add: assms del: split_paired_All)

lemma run_op_refines:
  assumes laws: "work_laws k works" and run: "run_op (ocm_client k) op w = (w', None)" and static: "static_op op"
  shows "works w' = abs_op k op (works w)"
proof (cases op)
  case (OpApplyNetwork n ns)
  with run have r: "ocm_ApplyNetwork k n ns w = (w', None)" by simp
  note eff = ocm_ApplyNetwork_effect [OF laws r]
  show ?thesis
    unfolding OpApplyNetwork abs_op.simps network_keys_def
  proof (rule put_works_eqI)
    fix key assume "key \<in> network_key k n ` set (sns_clusters (sn_spec n))"
    then show "works w' key = network_content k n ns" using eff(2) [OF refl] by (elim imageE) simp
  qed (rule eff(1))
next
  case (OpDeleteNetwork n ns)
  with run have r: "ocm_DeleteNetwork k n ns w = (w', None)" by simp
  note eff = ocm_DeleteNetwork_effect [OF laws r]
  show ?thesis
    unfolding OpDeleteNetwork abs_op.simps network_keys_def
  proof (rule put_works_eqI)
    fix key assume "key \<in> network_key k n ` set (sns_clusters (sn_spec n))"
    then show "works w' key = None" using eff(2) [OF refl] by (elim imageE) simp
  qed (rule eff(1))
next
  case (OpApplySlice s ns)
  with run have r: "ocm_ApplySlice k s ns w = (w', None)" by simp
  from laws r obtain t maps gen nodes w1 where t: "sos_topology (so_spec s) = Some t"
      "resolve_clusters k (ot_nodes t) Map.empty w = (w1, Inr maps)"
      "slice_monitoring k s (ot_nodes t) = Some (Inr (gen, nodes))"
    and stored: "\<And>c. c \<in> set (ot_nodes t) \<Longrightarrow> works w' (slice_key k s (oc_name c))
        = slice_content k gen nodes maps (slice_links t) (DefaultIfEmpty ns ''he-codeco-netma'') (oc_name c)
        \<and> slice_content k gen nodes maps (slice_links t) (DefaultIfEmpty ns ''he-codeco-netma'') (oc_name c) \<noteq> None"
    by (rule ocm_ApplySlice_ok) (rule that)
  have gw: "list_all (\<lambda>c. gateway_address c \<noteq> []) (ot_nodes t)"
    using static t(1) OpApplySlice by (simp add: slice_nodes_def)
  from t(2) have maps: "maps = static_maps (ot_nodes t) Map.empty" by (simp add: resolve_static [OF gw])
  show ?thesis
    unfolding OpApplySlice abs_op.simps
  proof (rule put_works_eqI)
    fix key assume "key \<in> slice_keys k s"
    then obtain c where "c \<in> set (ot_nodes t)" "key = slice_key k s (oc_name c)"
      by (auto simp: slice_keys_topology [OF t(1)])
    with stored show "works w' key = static_slice_content k s ns (fst key)"
      by (simp add: static_slice_content_def t(1,3) maps slice_key_def)
  qed (rule ocm_ApplySlice_frame [OF laws r])
next
  case (OpDeleteSlice s ns)
  with run have r: "ocm_DeleteSlice k s ns w = (w', None)" by simp
  show ?thesis
    unfolding OpDeleteSlice abs_op.simps
    using ocm_DeleteSlice_effect [OF laws r] by (intro put_works_eqI) blast+
qed

section \<open>Sequences of operations\<close>

lemma put_works_idem [simp]: "put_works keys c (put_works keys c v) = put_works keys c v"
  by (simp add: put_works_def fun_eq_iff)

lemma abs_op_idem [simp]: "abs_op k op (abs_op k op v) = abs_op k op v"
  by (cases op) simp_all

text \<open>C17: the OCM client refines the abstract operations. A sequence of operations none of which reports
  an error ends with exactly the ManifestWorks the abstract sequence ends with, whatever conflicts and
  retries there were; for slices, when every cluster has a gateway address, so that no endpoint has to
  be resolved. Repeating such an operation changes nothing, so reconciling an object again is harmless.\<close>

theorem ocm_refines:
  assumes laws: "work_laws k works" and static: "list_all static_op ops"
    and run: "for_each (run_op (ocm_client k)) ops w = (w', None)"
  shows "works w' = fold (abs_op k) ops (works w)
    \<and> (\<forall>op w''. ops \<noteq> [] \<longrightarrow> op = last ops \<longrightarrow> run_op (ocm_client k) op w' = (w'', None) \<longrightarrow> works w'' = works w')"
proof -
  have refines: "works w' = fold (abs_op k) ops (works w)"
    using static run
  proof (induction ops arbitrary: w)
    case Nil
    then show ?case by simp
  next
    case (Cons op ops)
    from Cons.prems(2) obtain w1 where one: "run_op (ocm_client k) op w = (w1, None)"
      and rest: "for_each (run_op (ocm_client k)) ops w1 = (w', None)"
      unfolding for_each_ok_Cons by blast
    have "works w1 = abs_op k op (works w)" using Cons.prems(1) by (intro run_op_refines [OF laws one]) simp
    with Cons.IH [OF _ rest] Cons.prems(1) show ?case by simp
  qed
  have "works w'' = works w'" if "ops \<noteq> []" "run_op (ocm_client k) (last ops) w' = (w'', None)" for w''
  proof -
    have ops: "ops = butlast ops @ [last ops]" using that(1) by simp
    have "static_op (last ops)" using static that(1) by (simp add: list_all_iff)
    from run_op_refines [OF laws that(2) this] have "works w'' = abs_op k (last ops) (works w')" .
    also have "\<dots> = abs_op k (last ops) (fold (abs_op k) (butlast ops @ [last ops]) (works w))"
      using refines ops by simp
    also have "\<dots> = fold (abs_op k) (butlast ops @ [last ops]) (works w)" by simp
    also have "\<dots> = works w'" using refines ops by simp
    finally show ?thesis .
  qed
  with refines show ?thesis by blast
qed

lemma ocm_refines_witness:
  "\<exists>w'. for_each (run_op (ocm_client mem_kube)) [OpApplyNetwork example_network [], OpApplySlice example_slice []] example_store = (w', None)
     \<and> s_works w' = fold (abs_op (mem_kube :: store kube)) [OpApplyNetwork example_network [], OpApplySlice example_slice []] (s_works example_store)"
proof -
  obtain w1 where w1: "ocm_ApplyNetwork mem_kube example_network [] example_store = (w1, None)"
    using example_network_applies by blast
  obtain w2 where w2: "ocm_ApplySlice mem_kube example_slice [] w1 = (w2, None)"
    using example_slice_applies by blast
  have run: "for_each (run_op (ocm_client mem_kube)) [OpApplyNetwork example_network [], OpApplySlice example_slice []] example_store = (w2, None)"
    using w1 w2 by simp
  have "list_all static_op [OpApplyNetwork example_network [], OpApplySlice example_slice []]"
    by (simp add: slice_nodes_def example_slice_def example_topology_def gateway_address_def)
  from ocm_refines [OF mem_kube_laws this run] run show ?thesis by blast
qed

end
