(* ===== verification/Settle.thy ===== *)
theory Settle
  imports System Refinement
begin

text \<open>
  Passes of the controllers over many objects. A request's object \<open>wants\<close> some ManifestWorks: the locale
  \<open>settling\<close> shows that successful runs over compatible requests, in any order, leave exactly the wanted
  works, and that further runs change nothing. It is interpreted on the requests of both reconcilers with
  the OCM client.
\<close>

section \<open>Runs that establish what their requests want\<close>

text \<open>\<open>overwrite v m\<close>: where \<open>m\<close> wants something, that, elsewhere \<open>v\<close>.\<close>

definition overwrite :: "('k \<Rightarrow> 'c) \<Rightarrow> ('k \<rightharpoonup> 'c) \<Rightarrow> 'k \<Rightarrow> 'c" where
  "overwrite v m = (\<lambda>key. case m key of None \<Rightarrow> v key | Some c \<Rightarrow> c)"

lemma overwrite_simps [simp]:
  "m key = None \<Longrightarrow> overwrite v m key = v key" "m key = Some c \<Longrightarrow> overwrite v m key = c"
  by (simp_all add: overwrite_def)

text \<open>The wants of the requests do not contradict each other.\<close>

definition compatible :: "('q \<Rightarrow> 'k \<rightharpoonup> 'c) \<Rightarrow> 'q set \<Rightarrow> bool" where
  "compatible m qs \<longleftrightarrow> (\<forall>q \<in> qs. \<forall>q' \<in> qs. \<forall>key c c'. m q key = Some c \<longrightarrow> m q' key = Some c' \<longrightarrow> c = c')"

definition satisfied :: "('q \<Rightarrow> 'k \<rightharpoonup> 'c) \<Rightarrow> 'q set \<Rightarrow> ('k \<Rightarrow> 'c) \<Rightarrow> bool" where
  "satisfied m qs v \<longleftrightarrow> (\<forall>q \<in> qs. \<forall>key c. m q key = Some c \<longrightarrow> v key = c)"

locale settling =
  fixes ok :: bool
    and run :: "'q \<Rightarrow> ('w, 'e) action"
    and works :: "'w \<Rightarrow> 'k \<Rightarrow> 'c"
    and wants :: "'w \<Rightarrow> 'q \<Rightarrow> 'k \<rightharpoonup> 'c"
    and fine :: "'w \<Rightarrow> 'q \<Rightarrow> bool"
    and ready :: "'w \<Rightarrow> 'q \<Rightarrow> bool"
  assumes run_works: "ok \<Longrightarrow> fine w q \<Longrightarrow> run q w = (w', None) \<Longrightarrow> works w' = overwrite (works w) (wants w q)"
    and run_other: "ok \<Longrightarrow> run q w = (w', None) \<Longrightarrow> q' \<noteq> q
      \<Longrightarrow> wants w' q' = wants w q' \<and> ready w' q' = ready w q'"
    and run_own: "ok \<Longrightarrow> run q w = (w', None) \<Longrightarrow> wants w' q \<subseteq>\<^sub>m wants w q"
    and run_fine: "ok \<Longrightarrow> run q w = (w', None) \<Longrightarrow> fine w q' \<Longrightarrow> fine w' q'"
    and run_ready: "ok \<Longrightarrow> fine w q \<Longrightarrow> run q w = (w', None) \<Longrightarrow> ready w q"
begin

text \<open>The laws hold under any stronger condition.\<close>

lemma weaken: "(ok' \<Longrightarrow> ok) \<Longrightarrow> settling ok' run works wants fine ready"
  by (unfold_locales) (rule run_works run_other run_own run_fine run_ready; simp)+

lemma run_wants: "ok \<Longrightarrow> run q w = (w', None) \<Longrightarrow> wants w' q' \<subseteq>\<^sub>m wants w q'"
  by (cases "q' = q") (simp_all add: run_own run_other [of q w w' q', THEN conjunct1])

lemma pass_wants:
  assumes "ok" "for_each run qs w = (w', None)"
  shows "wants w' q \<subseteq>\<^sub>m wants w q \<and> (fine w q \<longrightarrow> fine w' q)"
  using assms(2)
proof (induction qs arbitrary: w)
  case Nil
  then show ?case by simp
next
  case (Cons p ps)
  then obtain w1 where one: "run p w = (w1, None)" and rest: "for_each run ps w1 = (w', None)"
    unfolding for_each_ok_Cons by blast
  from Cons.IH [OF rest] run_wants [OF assms(1) one, of q] run_fine [OF assms(1) one, of q] show ?case
    by (blast intro: map_le_trans)
qed

lemma pass_ready:
  assumes "ok" "for_each run qs w = (w', None)" "distinct qs" "\<forall>q \<in> set qs. fine w q"
  shows "\<forall>q \<in> set qs. ready w q"
  using assms(2-)
proof (induction qs arbitrary: w)
  case Nil
  then show ?case by simp
next
  case (Cons p ps)
  then obtain w1 where one: "run p w = (w1, None)" and rest: "for_each run ps w1 = (w', None)"
    unfolding for_each_ok_Cons by blast
  have "\<forall>q \<in> set ps. ready w1 q"
    using Cons.prems(2,3) run_fine [OF assms(1) one] by (intro Cons.IH [OF rest]) auto
  moreover have "ready w1 q = ready w q" if "q \<in> set ps" for q
    using that Cons.prems(2) by (intro run_other [OF assms(1) one, THEN conjunct2]) auto
  moreover have "ready w p" using Cons.prems(3) by (intro run_ready [OF assms(1) _ one]) simp
  ultimately show ?case by simp
qed

text \<open>A pass leaves what its requests want, and the rest as it was.\<close>

lemma pass_works:
  assumes "ok" "for_each run qs w = (w', None)" "distinct qs" "\<forall>q \<in> set qs. fine w q"
    "compatible (wants w) (set qs)"
  shows "satisfied (wants w) (set qs) (works w')
    \<and> (\<forall>key. (\<forall>q \<in> set qs. wants w q key = None) \<longrightarrow> works w' key = works w key)"
  using assms(2-)
proof (induction qs arbitrary: w)
  case Nil
  then show ?case by (simp add: satisfied_def)
next
  case (Cons p ps)
  then obtain w1 where one: "run p w = (w1, None)" and rest: "for_each run ps w1 = (w', None)"
    unfolding for_each_ok_Cons by blast
  have same: "wants w1 q = wants w q" if "q \<in> set ps" for q
    using that Cons.prems(2) by (intro run_other [OF assms(1) one, THEN conjunct1]) auto
  have w1: "works w1 = overwrite (works w) (wants w p)"
    using Cons.prems(3) by (intro run_works [OF assms(1) _ one]) simp
  have comp: "compatible (wants w1) (set ps)"
    using Cons.prems(4) same unfolding compatible_def by simp
  have "satisfied (wants w1) (set ps) (works w')
      \<and> (\<forall>key. (\<forall>q \<in> set ps. wants w1 q key = None) \<longrightarrow> works w' key = works w1 key)"
    using Cons.prems(2,3) run_fine [OF assms(1) one] by (intro Cons.IH [OF rest _ _ comp]) auto
  then have ih: "satisfied (wants w) (set ps) (works w')"
    "\<And>key. \<forall>q \<in> set ps. wants w q key = None \<Longrightarrow> works w' key = works w1 key"
    using same unfolding satisfied_def by auto
  have own: "works w' key = c" if c: "wants w p key = Some c" for key c
  proof (cases "\<forall>q \<in> set ps. wants w q key = None")
    case True
    with ih(2) c w1 show ?thesis by simp
  next
    case False
    then obtain q c' where q: "q \<in> set ps" "wants w q key = Some c'" by auto
    moreover have "c' = c" using Cons.prems(4) q c unfolding compatible_def by auto
    ultimately show ?thesis using ih(1) unfolding satisfied_def by blast
  qed
  have "works w' key = works w key" if "\<forall>q \<in> set (p # ps). wants w q key = None" for key
    using ih(2) [of key] w1 that by simp
  then show ?case using ih(1) own unfolding satisfied_def by auto
qed

lemma pass_satisfies:
  assumes "ok" "for_each run qs w = (w', None)" "distinct qs" "\<forall>q \<in> set qs. fine w q"
    "compatible (wants w) (set qs)" "q \<in> set qs" "wants w q key = Some c"
  shows "works w' key = c"
  using pass_works [OF assms(1-5)] assms(6,7) unfolding satisfied_def by metis

lemma pass_leaves_satisfied:
  assumes "ok" "for_each run qs w = (w', None)" "distinct qs" "\<forall>q \<in> set qs. fine w q"
    "compatible (wants w) (set qs)"
  shows "satisfied (wants w') (set qs) (works w')"
  using pass_works [OF assms] pass_wants [OF assms(1,2)] unfolding satisfied_def map_le_def
  by (metis domI)

text \<open>Once the wants are met, runs change nothing, however often and in whatever order they come.\<close>

lemma stays:
  assumes "ok" "for_each run qs w = (w', None)" "\<forall>q \<in> set qs. fine w q" "satisfied (wants w) Q (works w)" "set qs \<subseteq> Q"
  shows "works w' = works w"
  using assms(2-)
proof (induction qs arbitrary: w)
  case Nil
  then show ?case by simp
next
  case (Cons p ps)
  then obtain w1 where one: "run p w = (w1, None)" and rest: "for_each run ps w1 = (w', None)"
    unfolding for_each_ok_Cons by blast
  have "works w1 = overwrite (works w) (wants w p)"
    using Cons.prems(2) by (intro run_works [OF assms(1) _ one]) simp
  also have "\<dots> = works w"
    using Cons.prems(3,4) unfolding satisfied_def overwrite_def by (auto simp: fun_eq_iff split: option.splits)
  finally have same: "works w1 = works w" .
  have "satisfied (wants w1) Q (works w1)"
    using Cons.prems(3) run_wants [OF assms(1) one] unfolding same satisfied_def map_le_def by (metis domI)
  with Cons.prems(2,4) run_fine [OF assms(1) one] have "works w' = works w1"
    by (intro Cons.IH [OF rest]) auto
  with same show ?case by simp
qed

text \<open>The order of a pass does not matter.\<close>

lemma order_irrelevant:
  assumes "ok" "for_each run qs w = (w1, None)" "for_each run ps w = (w2, None)" "distinct qs" "distinct ps"
    "set ps = set qs" "\<forall>q \<in> set qs. fine w q" "compatible (wants w) (set qs)"
  shows "works w1 = works w2"
proof
  fix key
  note a = pass_works [OF assms(1,2,4,7,8)]
  note b = pass_works [OF assms(1,3,5), unfolded assms(6), OF assms(7,8)]
  show "works w1 key = works w2 key"
  proof (cases "\<forall>q \<in> set qs. wants w q key = None")
    case True
    with a b show ?thesis by simp
  next
    case False
    then obtain q c where "q \<in> set qs" "wants w q key = Some c" by auto
    with a b show ?thesis unfolding satisfied_def by metis
  qed
qed

end

section \<open>Providers\<close>

text \<open>What is relied on of the stored profiles: a profile that is read is the stored one, and reading,
  updating objects and working on the clusters leaves the profiles alone.\<close>

definition profile_laws :: "'w hub \<Rightarrow> 'w kube \<Rightarrow> ('w \<Rightarrow> string \<times> string \<rightharpoonup> provider_profile) \<Rightarrow> bool" where
  "profile_laws h k profiles \<longleftrightarrow>
     (\<forall>ns name w w' r. h_get_profile h ns name w = (w', r) \<longrightarrow> profiles w' = profiles w
        \<and> (\<forall>p. r = Inr p \<longrightarrow> profiles w (ns, name) = Some p))
     \<and> (\<forall>ns name w. profiles (fst (h_get_network h ns name w)) = profiles w
                  \<and> profiles (fst (h_get_overlay h ns name w)) = profiles w)
     \<and> (\<forall>x w. profiles (fst (h_update_network h x w)) = profiles w)
     \<and> (\<forall>x w. profiles (fst (h_update_overlay h x w)) = profiles w)
     \<and> hub_untouched k profiles"

text \<open>The provider of an object: its own, or that of the profile it reads.\<close>

definition provider_of :: "(string \<times> string \<rightharpoonup> provider_profile) \<Rightarrow> provider_spec option \<Rightarrow> string
    \<Rightarrow> provider_reference option \<Rightarrow> provider_spec option" where
  "provider_of profiles inline ns ref =
     (case profile_read inline ns ref of
        None \<Rightarrow> inline
      | Some key \<Rightarrow> map_option (\<lambda>p. pps_provider (pp_spec p)) (profiles key))"

definition network_provider :: "(string \<times> string \<rightharpoonup> provider_profile) \<Rightarrow> slice_network \<Rightarrow> provider_spec option" where
  "network_provider profiles n =
     provider_of profiles (sns_provider (sn_spec n)) (net_namespace n) (sns_providerRef (sn_spec n))"

definition slice_provider :: "(string \<times> string \<rightharpoonup> provider_profile) \<Rightarrow> slice_overlay \<Rightarrow> provider_spec option" where
  "slice_provider profiles s =
     provider_of profiles (sos_provider (so_spec s)) (overlay_namespace s) (sos_providerRef (so_spec s))"

lemma profile_lawsD:
  assumes "profile_laws h k profiles"
  shows "h_get_profile h ns name w = (w', r) \<Longrightarrow> profiles w' = profiles w \<and> (\<forall>p. r = Inr p \<longrightarrow> profiles w (ns, name) = Some p)"
    and "h_get_network h ns name w = (w', gn) \<Longrightarrow> profiles w' = profiles w"
    and "h_get_overlay h ns name w = (w', go) \<Longrightarrow> profiles w' = profiles w"
    and "h_update_network h n w = (w', un) \<Longrightarrow> profiles w' = profiles w"
    and "h_update_overlay h s w = (w', uo) \<Longrightarrow> profiles w' = profiles w"
    and "kube_keeps k (\<lambda>w. profiles w = p)"
proof -
  note f = assms [unfolded profile_laws_def hub_untouched_def]
  show "profiles w' = profiles w \<and> (\<forall>p. r = Inr p \<longrightarrow> profiles w (ns, name) = Some p)"
    if "h_get_profile h ns name w = (w', r)"
    by (rule conjunct1 [OF f, rule_format, OF that])
  show "profiles w' = profiles w" if "h_get_network h ns name w = (w', gn)"
    using conjunct1 [OF conjunct1 [OF conjunct2 [OF f], rule_format], of ns name w] that by simp
  show "profiles w' = profiles w" if "h_get_overlay h ns name w = (w', go)"
    using conjunct2 [OF conjunct1 [OF conjunct2 [OF f], rule_format], of ns name w] that by simp
  show "profiles w' = profiles w" if "h_update_network h n w = (w', un)"
    using conjunct1 [OF conjunct2 [OF conjunct2 [OF f]], rule_format, of n w] that by simp
  show "profiles w' = profiles w" if "h_update_overlay h s w = (w', uo)"
    using conjunct1 [OF conjunct2 [OF conjunct2 [OF conjunct2 [OF f]]], rule_format, of s w] that by simp
  show "kube_keeps k (\<lambda>w. profiles w = p)"
    by (rule conjunct2 [OF conjunct2 [OF conjunct2 [OF conjunct2 [OF f]]], rule_format])
qed

lemma resolve_reference_profile:
  assumes laws: "profile_laws h k profiles" and run: "resolveProviderReference h ns ref w = (w', q)"
  shows "profiles w' = profiles w \<and> (\<forall>p. q = Inr p \<longrightarrow> provider_of (profiles w) None ns ref = Some p)"
proof -
  obtain pns pname where read: "profile_read None ns ref = Some (pns, pname)" by (simp add: profile_read_def)
  obtain w1 g where g: "h_get_profile h pns pname w = (w1, g)" by fastforce
  from run g profile_lawsD(1) [OF laws g] show ?thesis
    unfolding resolveProviderReference_read [OF read] provider_of_def read
    by (cases g) auto
qed

lemma resolve_profile:
  assumes laws: "profile_laws h k profiles"
  shows "resolveNetworkProvider h n w = (w', q) \<Longrightarrow> profiles w' = profiles w
      \<and> (\<forall>p. q = Inr p \<longrightarrow> network_provider (profiles w) n = Some p)"
    and "resolveOverlayProvider h s w = (w', q) \<Longrightarrow> profiles w' = profiles w
      \<and> (\<forall>p. q = Inr p \<longrightarrow> slice_provider (profiles w) s = Some p)"
proof -
  have own: "provider_of P (Some p) ns ref = Some p" for P p ns ref
    by (simp add: provider_of_def profile_read_def)
  assume "resolveNetworkProvider h n w = (w', q)"
  then show "profiles w' = profiles w \<and> (\<forall>p. q = Inr p \<longrightarrow> network_provider (profiles w) n = Some p)"
    using resolve_reference_profile [OF laws, of "net_namespace n" "sns_providerRef (sn_spec n)" w w' q]
    by (cases "sns_provider (sn_spec n)") (auto simp: resolveNetworkProvider_def network_provider_def own)
next
  have own: "provider_of P (Some p) ns ref = Some p" for P p ns ref
    by (simp add: provider_of_def profile_read_def)
  assume "resolveOverlayProvider h s w = (w', q)"
  then show "profiles w' = profiles w \<and> (\<forall>p. q = Inr p \<longrightarrow> slice_provider (profiles w) s = Some p)"
    using resolve_reference_profile [OF laws, of "overlay_namespace s" "sos_providerRef (so_spec s)" w w' q]
    by (cases "sos_provider (so_spec s)") (auto simp: resolveOverlayProvider_def slice_provider_def own)
qed

lemma profiles_kept:
  assumes laws: "profile_laws h k profiles"
  shows "ocm_ApplyNetwork k n ns w = (w', r) \<Longrightarrow> profiles w' = profiles w"
    and "ocm_DeleteNetwork k n ns w = (w', r) \<Longrightarrow> profiles w' = profiles w"
    and "ocm_ApplySlice k s ns w = (w', r) \<Longrightarrow> profiles w' = profiles w"
    and "ocm_DeleteSlice k s ns w = (w', r) \<Longrightarrow> profiles w' = profiles w"
  by (rule ocm_keeps [OF profile_lawsD(6) [OF laws] refl]; assumption)+

text \<open>Both reconcilers again, now knowing that they leave the profiles alone.\<close>

interpretation net_pr: reconciler "system_laws h k works networks overlays \<and> profile_laws h k profiles"
    "h_get_network h (rq_namespace req) (rq_name req)" "h_update_network h"
    "\<lambda>n. \<not> deletion_is_zero (sn_meta n)" "network_ContainsFinalizer h" "network_AddFinalizer h"
    "network_RemoveFinalizer h" "resolveNetworkProvider h" network_with_provider
    "\<lambda>n. ocm_ApplyNetwork k n (net_namespace n)" "\<lambda>n. ocm_DeleteNetwork k n (net_namespace n)"
    "network_Reconcile h (Some (ocm_client k)) req"
    "\<lambda>n. net_namespace n = rq_namespace req \<and> net_name n = rq_name req"
    "\<lambda>w. networks w (rq_namespace req, rq_name req)" works "network_keys k" network_ident
    "\<lambda>w. (((networks w)((rq_namespace req, rq_name req) := None), overlays w), profiles w)"
  for h :: "'w hub" and k :: "'w kube" and works networks overlays profiles req
  by (rule net_rec.extend, erule conjunct1,
      (rule profile_lawsD(2) [OF conjunct2] profile_lawsD(4) [OF conjunct2]
        resolve_profile(1) [OF conjunct2, THEN conjunct1] profiles_kept(1,2) [OF conjunct2]; assumption)+)

interpretation ov_pr: reconciler "system_laws h k works networks overlays \<and> profile_laws h k profiles"
    "h_get_overlay h (rq_namespace req) (rq_name req)" "h_update_overlay h"
    "\<lambda>n. \<not> deletion_is_zero (so_meta n)" "overlay_ContainsFinalizer h" "overlay_AddFinalizer h"
    "overlay_RemoveFinalizer h" "resolveOverlayProvider h" overlay_with_provider
    "\<lambda>n. ocm_ApplySlice k n (overlay_namespace n)" "\<lambda>n. ocm_DeleteSlice k n (overlay_namespace n)"
    "overlay_Reconcile h (Some (ocm_client k)) req"
    "\<lambda>n. overlay_namespace n = rq_namespace req \<and> overlay_name n = rq_name req"
    "\<lambda>w. overlays w (rq_namespace req, rq_name req)" works "slice_keys k" slice_ident
    "\<lambda>w. (((overlays w)((rq_namespace req, rq_name req) := None), networks w), profiles w)"
  for h :: "'w hub" and k :: "'w kube" and works networks overlays profiles req
  by (rule ov_rec.extend, erule conjunct1,
      (rule profile_lawsD(3) [OF conjunct2] profile_lawsD(5) [OF conjunct2]
        resolve_profile(2) [OF conjunct2, THEN conjunct1] profiles_kept(3,4) [OF conjunct2]; assumption)+)

section \<open>What the objects want\<close>

datatype object_request = NetworkRequest request | SliceRequest request

fun run_request :: "'w hub \<Rightarrow> 'w kube \<Rightarrow> object_request \<Rightarrow> ('w, rec_error) action" where
  "run_request h k (NetworkRequest req) = network_Reconcile h (Some (ocm_client k)) req"
| "run_request h k (SliceRequest req) = overlay_Reconcile h (Some (ocm_client k)) req"

type_synonym work_wants = "string \<times> string \<rightharpoonup> ((string \<rightharpoonup> string) \<times> json list) option"

definition wants_at :: "(string \<times> string) set \<Rightarrow> (string \<Rightarrow> ((string \<rightharpoonup> string) \<times> json list) option) \<Rightarrow> work_wants" where
  "wants_at keys content = (\<lambda>key. if key \<in> keys then Some (content (fst key)) else None)"

lemma overwrite_wants_at: "overwrite v (wants_at keys content) = put_works keys content v"
  by (simp add: overwrite_def wants_at_def put_works_def fun_eq_iff)

text \<open>A live object wants its works on all its clusters, with its provider; one that is being deleted wants
  them gone while it has the finalizer, and nothing once it is released.\<close>

definition network_wants :: "'w kube \<Rightarrow> (string \<times> string \<rightharpoonup> provider_profile) \<Rightarrow> slice_network option \<Rightarrow> work_wants" where
  "network_wants k profiles stored =
     (case stored of
        None \<Rightarrow> Map.empty
      | Some n \<Rightarrow>
          if \<not> deletion_is_zero (sn_meta n)
          then (if guarded_network n then wants_at (network_keys k n) (\<lambda>c. None) else Map.empty)
          else (case network_provider profiles n of
                  None \<Rightarrow> Map.empty
                | Some p \<Rightarrow> wants_at (network_keys k n)
                              (\<lambda>c. network_content k (network_with_provider p n) (net_namespace n))))"

definition slice_wants :: "'w kube \<Rightarrow> (string \<times> string \<rightharpoonup> provider_profile) \<Rightarrow> slice_overlay option \<Rightarrow> work_wants" where
  "slice_wants k profiles stored =
     (case stored of
        None \<Rightarrow> Map.empty
      | Some s \<Rightarrow>
          if \<not> deletion_is_zero (so_meta s)
          then (if guarded_overlay s then wants_at (slice_keys k s) (\<lambda>c. None) else Map.empty)
          else (case slice_provider profiles s of
                  None \<Rightarrow> Map.empty
                | Some p \<Rightarrow> wants_at (slice_keys k s)
                              (static_slice_content k (overlay_with_provider p s) (overlay_namespace s))))"

fun request_wants :: "'w kube \<Rightarrow> ('w \<Rightarrow> string \<times> string \<rightharpoonup> slice_network) \<Rightarrow> ('w \<Rightarrow> string \<times> string \<rightharpoonup> slice_overlay)
    \<Rightarrow> ('w \<Rightarrow> string \<times> string \<rightharpoonup> provider_profile) \<Rightarrow> 'w \<Rightarrow> object_request \<Rightarrow> work_wants" where
  "request_wants k networks overlays profiles w (NetworkRequest req) =
     network_wants k (profiles w) (networks w (rq_namespace req, rq_name req))"
| "request_wants k networks overlays profiles w (SliceRequest req) =
     slice_wants k (profiles w) (overlays w (rq_namespace req, rq_name req))"

text \<open>Every cluster of the slice has a gateway address, so nothing is left to be resolved.\<close>

definition has_gateways :: "slice_overlay \<Rightarrow> bool" where
  "has_gateways s \<longleftrightarrow> list_all (\<lambda>c. gateway_address c \<noteq> []) (slice_nodes s)"

fun request_fine :: "('w \<Rightarrow> string \<times> string \<rightharpoonup> slice_overlay) \<Rightarrow> 'w \<Rightarrow> object_request \<Rightarrow> bool" where
  "request_fine overlays w (NetworkRequest req) = True"
| "request_fine overlays w (SliceRequest req) =
     (case overlays w (rq_namespace req, rq_name req) of None \<Rightarrow> True | Some s \<Rightarrow> deletion_is_zero (so_meta s) \<longrightarrow> has_gateways s)"

section \<open>A run establishes what its object wants\<close>

lemma network_cong:
  assumes "network_ident m = network_ident n"
  shows "network_provider P m = network_provider P n"
    and "network_content k (network_with_provider p m) (net_namespace m) = network_content k (network_with_provider p n) (net_namespace n)"
    and "network_keys k (network_with_provider p m) = network_keys k n" and "network_keys k m = network_keys k n"
  using assms
  by (simp_all add: network_provider_def network_content_def network_object_def network_with_provider_def
      network_keys_def network_key_def network_ident_def)

lemma slice_wants_cong:
  assumes "slice_ident m = slice_ident s"
  shows "slice_provider P m = slice_provider P s"
    and "static_slice_content k (overlay_with_provider p m) (overlay_namespace m)
      = static_slice_content k (overlay_with_provider p s) (overlay_namespace s)"
    and "slice_keys k (overlay_with_provider p m) = slice_keys k s" and "slice_keys k m = slice_keys k s"
    and "has_gateways (overlay_with_provider p m) = has_gateways s" and "has_gateways m = has_gateways s"
proof -
  show "static_slice_content k (overlay_with_provider p m) (overlay_namespace m)
      = static_slice_content k (overlay_with_provider p s) (overlay_namespace s)"
    using slice_cong(1) [OF assms, of k p] slice_cong(3,4,5) [OF assms]
    by (simp add: static_slice_content_def slice_content_def fun_eq_iff cong: option.case_cong)
qed (use assms in \<open>simp_all add: slice_provider_def overlay_with_provider_def slice_ident_def slice_keys_def
      slice_key_def slice_nodes_def has_gateways_def\<close>)

lemma network_run_wants:
  assumes laws: "system_laws h k works networks overlays \<and> profile_laws h k profiles"
    and run: "network_Reconcile h (Some (ocm_client k)) req w = (w', None)"
  defines "want v \<equiv> network_wants k (profiles v) (networks v (rq_namespace req, rq_name req))"
  shows "works w' = overwrite (works w) (want w) \<and> want w' \<subseteq>\<^sub>m want w \<and> profiles w' = profiles w"
proof -
  have sys: "system_laws h k works networks overlays" using laws by simp
  have wl: "work_laws k works" using system_lawsD(1) [OF sys] by simp
  have fin: "network_ContainsFinalizer h n = guarded_network n" for n
    by (simp add: network_ContainsFinalizer_def guarded_network_def system_lawsD(2) [OF sys])
  have prof: "profiles w' = profiles w" using net_pr.others_kept [OF laws run] by simp
  from laws run show ?thesis
  proof (cases rule: net_pr.outcome)
    case absent
    with prof show ?thesis by (simp add: want_def network_wants_def overwrite_def)
  next
    case (released n)
    with prof show ?thesis by (simp add: want_def network_wants_def overwrite_def fin)
  next
    case (cleaned n)
    have w: "want w = wants_at (network_keys k n) (\<lambda>c. None)"
      using cleaned by (simp add: want_def network_wants_def fin)
    have "works w' = put_works (network_keys k n) (\<lambda>c. None) (works w)"
      using cleaned(4,5) by (intro put_works_eqI)
    moreover have "want w' = Map.empty"
      using cleaned(6) by (auto simp: want_def network_wants_def fin)
    ultimately show ?thesis using prof by (simp add: w overwrite_wants_at)
  next
    case (deployed n m p w2 w3)
    note cong = network_cong [OF deployed(6)]
    have p: "network_provider (profiles w) n = Some p"
      using resolve_profile(1) [OF conjunct2 [OF laws] deployed(10)] deployed(8) by (simp add: cong(1))
    then have w: "want w = wants_at (network_keys k n) (\<lambda>c. network_content k (network_with_provider p n) (net_namespace n))"
      using deployed(1,2) by (simp add: want_def network_wants_def)
    have "run_op (ocm_client k) (OpApplyNetwork (network_with_provider p m) (net_namespace m)) w3 = (w', None)"
      using deployed(11) by simp
    from run_op_refines [OF wl this] deployed(9) have "works w' = overwrite (works w) (want w)"
      by (simp add: w overwrite_wants_at cong)
    moreover have "want w' = want w"
      using deployed(3,4) p prof unfolding w by (simp add: want_def network_wants_def cong)
    ultimately show ?thesis using prof by simp
  qed
qed

lemma slice_run_wants:
  assumes laws: "system_laws h k works networks overlays \<and> profile_laws h k profiles"
    and run: "overlay_Reconcile h (Some (ocm_client k)) req w = (w', None)"
  defines "want v \<equiv> slice_wants k (profiles v) (overlays v (rq_namespace req, rq_name req))"
  shows "(request_fine overlays w (SliceRequest req) \<longrightarrow> works w' = overwrite (works w) (want w))
    \<and> (request_fine overlays w (SliceRequest req) \<longrightarrow> request_fine overlays w' (SliceRequest req))
    \<and> want w' \<subseteq>\<^sub>m want w \<and> profiles w' = profiles w"
proof -
  have sys: "system_laws h k works networks overlays" using laws by simp
  have wl: "work_laws k works" using system_lawsD(1) [OF sys] by simp
  have fin: "overlay_ContainsFinalizer h s = guarded_overlay s" for s
    by (simp add: overlay_ContainsFinalizer_def guarded_overlay_def system_lawsD(2) [OF sys])
  have prof: "profiles w' = profiles w" using ov_pr.others_kept [OF laws run] by simp
  from laws run show ?thesis
  proof (cases rule: ov_pr.outcome)
    case absent
    with prof show ?thesis by (simp add: want_def slice_wants_def overwrite_def)
  next
    case (released s)
    with prof show ?thesis by (simp add: want_def slice_wants_def overwrite_def fin)
  next
    case (cleaned s)
    have w: "want w = wants_at (slice_keys k s) (\<lambda>c. None)"
      using cleaned by (simp add: want_def slice_wants_def fin)
    have "works w' = put_works (slice_keys k s) (\<lambda>c. None) (works w)"
      using cleaned(4,5) by (intro put_works_eqI)
    moreover have "want w' = Map.empty" "request_fine overlays w' (SliceRequest req)"
      using cleaned(6) by (auto simp: want_def slice_wants_def fin)
    ultimately show ?thesis using prof by (simp add: w overwrite_wants_at)
  next
    case (deployed s m p w2 w3)
    note cong = slice_wants_cong [OF deployed(6)]
    have p: "slice_provider (profiles w) s = Some p"
      using resolve_profile(2) [OF conjunct2 [OF laws] deployed(10)] deployed(8) by (simp add: cong(1))
    then have w: "want w = wants_at (slice_keys k s) (static_slice_content k (overlay_with_provider p s) (overlay_namespace s))"
      using deployed(1,2) by (simp add: want_def slice_wants_def)
    have app: "run_op (ocm_client k) (OpApplySlice (overlay_with_provider p m) (overlay_namespace m)) w3 = (w', None)"
      using deployed(11) by simp
    have "works w' = overwrite (works w) (want w)" if "has_gateways s"
    proof -
      have "static_op (OpApplySlice (overlay_with_provider p m) (overlay_namespace m))"
        using that cong(5) [of p] by (simp add: has_gateways_def)
      from run_op_refines [OF wl app this] deployed(9) show ?thesis
        by (simp add: w overwrite_wants_at cong)
    qed
    moreover have "want w' = want w"
      using deployed(3,4) p prof unfolding w by (simp add: want_def slice_wants_def cong)
    ultimately show ?thesis using prof deployed(1-4) cong(6) by simp
  qed
qed

text \<open>A live object is ready when its provider is known and each of its manifests can be made.\<close>

definition live_ready :: "provider_spec option \<Rightarrow> work_wants \<Rightarrow> bool" where
  "live_ready provider m \<longleftrightarrow> provider \<noteq> None \<and> (\<forall>key. m key \<noteq> Some None)"

fun request_ready :: "'w kube \<Rightarrow> ('w \<Rightarrow> string \<times> string \<rightharpoonup> slice_network) \<Rightarrow> ('w \<Rightarrow> string \<times> string \<rightharpoonup> slice_overlay)
    \<Rightarrow> ('w \<Rightarrow> string \<times> string \<rightharpoonup> provider_profile) \<Rightarrow> 'w \<Rightarrow> object_request \<Rightarrow> bool" where
  "request_ready k networks overlays profiles w (NetworkRequest req) =
     (case networks w (rq_namespace req, rq_name req) of
        None \<Rightarrow> True
      | Some n \<Rightarrow> deletion_is_zero (sn_meta n) \<longrightarrow>
          live_ready (network_provider (profiles w) n) (network_wants k (profiles w) (Some n)))"
| "request_ready k networks overlays profiles w (SliceRequest req) =
     (case overlays w (rq_namespace req, rq_name req) of
        None \<Rightarrow> True
      | Some s \<Rightarrow> deletion_is_zero (so_meta s) \<longrightarrow>
          live_ready (slice_provider (profiles w) s) (slice_wants k (profiles w) (Some s)))"

lemma network_wants_keys: "network_wants k P (Some n) key \<noteq> None \<Longrightarrow> key \<in> network_keys k n"
  by (auto simp: network_wants_def wants_at_def split: if_splits option.splits)

lemma slice_wants_keys: "slice_wants k P (Some s) key \<noteq> None \<Longrightarrow> key \<in> slice_keys k s"
  by (auto simp: slice_wants_def wants_at_def split: if_splits option.splits)

lemma network_wants_live:
  "network_wants k P stored key = Some (Some c) \<Longrightarrow>
     \<exists>n. stored = Some n \<and> deletion_is_zero (sn_meta n) \<and> key \<in> network_keys k n"
  by (auto simp: network_wants_def wants_at_def split: if_splits option.splits)

lemma slice_wants_live:
  "slice_wants k P stored key = Some (Some c) \<Longrightarrow>
     \<exists>s. stored = Some s \<and> deletion_is_zero (so_meta s) \<and> key \<in> slice_keys k s"
  by (auto simp: slice_wants_def wants_at_def split: if_splits option.splits)

lemma network_run_ready:
  assumes laws: "system_laws h k works networks overlays \<and> profile_laws h k profiles"
    and run: "network_Reconcile h (Some (ocm_client k)) req w = (w', None)"
  shows "request_ready k networks overlays profiles w (NetworkRequest req)"
proof -
  have "live_ready (network_provider (profiles w) n) (network_wants k (profiles w) (Some n))"
    if n: "networks w (rq_namespace req, rq_name req) = Some n" "deletion_is_zero (sn_meta n)" for n
  proof -
    have live: "\<not> \<not> deletion_is_zero (sn_meta n)" using n(2) by simp
    from laws run have "network_provider (profiles w) n \<noteq> None"
    proof (cases rule: net_pr.outcome)
      case (deployed x m p w2 w3)
      then have "network_provider (profiles w) x = Some p"
        using resolve_profile(1) [OF conjunct2 [OF laws] deployed(10)] by (simp add: network_cong(1) [OF deployed(6)])
      with deployed(1) n show ?thesis by simp
    qed (use n in auto)
    moreover have "network_wants k (profiles w) (Some n) key \<noteq> Some None" for key
    proof
      assume want: "network_wants k (profiles w) (Some n) key = Some None"
      then have "key \<in> network_keys k n" by (intro network_wants_keys [of k "profiles w"]) simp
      then have "works w' key \<noteq> None" using net_pr.deploys [OF laws run n(1) live, of key] by blast
      moreover have "works w' = overwrite (works w) (network_wants k (profiles w) (Some n))"
        using network_run_wants [OF laws run] n(1) by simp
      ultimately show False using want by simp
    qed
    ultimately show ?thesis unfolding live_ready_def by blast
  qed
  then show ?thesis by (auto split: option.splits)
qed

lemma slice_run_ready:
  assumes laws: "system_laws h k works networks overlays \<and> profile_laws h k profiles"
    and run: "overlay_Reconcile h (Some (ocm_client k)) req w = (w', None)"
    and fine: "request_fine overlays w (SliceRequest req)"
  shows "request_ready k networks overlays profiles w (SliceRequest req)"
proof -
  have "live_ready (slice_provider (profiles w) s) (slice_wants k (profiles w) (Some s))"
    if s: "overlays w (rq_namespace req, rq_name req) = Some s" "deletion_is_zero (so_meta s)" for s
  proof -
    have live: "\<not> \<not> deletion_is_zero (so_meta s)" using s(2) by simp
    from laws run have "slice_provider (profiles w) s \<noteq> None"
    proof (cases rule: ov_pr.outcome)
      case (deployed x m p w2 w3)
      then have "slice_provider (profiles w) x = Some p"
        using resolve_profile(2) [OF conjunct2 [OF laws] deployed(10)] by (simp add: slice_wants_cong(1) [OF deployed(6)])
      with deployed(1) s show ?thesis by simp
    qed (use s in auto)
    moreover have "slice_wants k (profiles w) (Some s) key \<noteq> Some None" for key
    proof
      assume want: "slice_wants k (profiles w) (Some s) key = Some None"
      then have "key \<in> slice_keys k s" by (intro slice_wants_keys [of k "profiles w"]) simp
      then have "works w' key \<noteq> None" using ov_pr.deploys [OF laws run s(1) live, of key] by blast
      moreover have "works w' = overwrite (works w) (slice_wants k (profiles w) (Some s))"
        using slice_run_wants [OF laws run] fine s(1) by simp
      ultimately show False using want by simp
    qed
    ultimately show ?thesis unfolding live_ready_def by blast
  qed
  then show ?thesis by (auto split: option.splits)
qed

section \<open>Both reconcilers settle\<close>

lemma network_run_others:
  assumes laws: "system_laws h k works networks overlays \<and> profile_laws h k profiles"
    and run: "network_Reconcile h (Some (ocm_client k)) req w = (w', r)"
  shows "profiles w' = profiles w" and "overlays w' = overlays w"
    and "o_key \<noteq> (rq_namespace req, rq_name req) \<Longrightarrow> networks w' o_key = networks w o_key"
proof -
  note o = net_pr.others_kept [OF laws run]
  show "profiles w' = profiles w" "overlays w' = overlays w" using o by simp_all
  have "(networks w')((rq_namespace req, rq_name req) := None) = (networks w)((rq_namespace req, rq_name req) := None)"
    using o by simp
  then show "o_key \<noteq> (rq_namespace req, rq_name req) \<Longrightarrow> networks w' o_key = networks w o_key"
    by (rule map_at(3))
qed

lemma slice_run_others:
  assumes laws: "system_laws h k works networks overlays \<and> profile_laws h k profiles"
    and run: "overlay_Reconcile h (Some (ocm_client k)) req w = (w', r)"
  shows "profiles w' = profiles w" and "networks w' = networks w"
    and "o_key \<noteq> (rq_namespace req, rq_name req) \<Longrightarrow> overlays w' o_key = overlays w o_key"
proof -
  note o = ov_pr.others_kept [OF laws run]
  show "profiles w' = profiles w" "networks w' = networks w" using o by simp_all
  have "(overlays w')((rq_namespace req, rq_name req) := None) = (overlays w)((rq_namespace req, rq_name req) := None)"
    using o by simp
  then show "o_key \<noteq> (rq_namespace req, rq_name req) \<Longrightarrow> overlays w' o_key = overlays w o_key"
    by (rule map_at(3))
qed

lemma request_key: "(q :: request) \<noteq> req \<Longrightarrow> (rq_namespace q, rq_name q) \<noteq> (rq_namespace req, rq_name req)"
  by (cases q; cases req) auto

interpretation passes: settling "system_laws h k works networks overlays \<and> profile_laws h k profiles"
    "run_request h k" works "request_wants k networks overlays profiles" "request_fine overlays"
    "request_ready k networks overlays profiles"
  for h :: "'w hub" and k :: "'w kube" and works networks overlays profiles
proof
  fix w q w'
  assume laws: "system_laws h k works networks overlays \<and> profile_laws h k profiles"
    and run: "run_request h k q w = (w', None)"
  show "works w' = overwrite (works w) (request_wants k networks overlays profiles w q)" if "request_fine overlays w q"
    using run that network_run_wants [OF laws] slice_run_wants [OF laws] by (cases q) auto
  show "request_wants k networks overlays profiles w' q \<subseteq>\<^sub>m request_wants k networks overlays profiles w q"
  proof (cases q)
    case (NetworkRequest req)
    with run have "network_Reconcile h (Some (ocm_client k)) req w = (w', None)" by simp
    from network_run_wants [OF laws this] show ?thesis unfolding NetworkRequest request_wants.simps by blast
  next
    case (SliceRequest req)
    with run have "overlay_Reconcile h (Some (ocm_client k)) req w = (w', None)" by simp
    from slice_run_wants [OF laws this] show ?thesis unfolding SliceRequest request_wants.simps by blast
  qed
  show "request_ready k networks overlays profiles w q" if "request_fine overlays w q"
    using run that network_run_ready [OF laws] slice_run_ready [OF laws] by (cases q) auto
  fix q'
  show "request_fine overlays w' q'" if fine: "request_fine overlays w q'"
  proof (cases "q' = q")
    case True
    then show ?thesis
      using run fine slice_run_wants [OF laws] by (cases q) auto
  next
    case False
    then show ?thesis
      using run fine network_run_others [OF laws] slice_run_others [OF laws] request_key
      by (cases q; cases q') (simp_all del: Pair_inject)
  qed
  show "request_wants k networks overlays profiles w' q' = request_wants k networks overlays profiles w q'
      \<and> request_ready k networks overlays profiles w' q' = request_ready k networks overlays profiles w q'"
    if "q' \<noteq> q"
    using run that network_run_others [OF laws] slice_run_others [OF laws] request_key
    by (cases q; cases q') (simp_all del: Pair_inject cong: option.case_cong)
qed

end
