(* ===== verification/Converge.thy ===== *)
theory Converge
  imports Settle
begin

text \<open>
  Convergence: what a pass of both controllers over the stored objects leaves on the clusters, that
  further runs change nothing, and that from any state the system can reach one complete pass leaves
  exactly the ManifestWorks of the live objects.
\<close>

section \<open>The example system\<close>

lemma mem_profile_laws: "profile_laws mem_hub mem_kube (\<lambda>w. obj_find pp_meta (hs_profiles w))"
proof -
  have "hub_untouched mem_kube (\<lambda>w. obj_find pp_meta (hs_profiles w))"
    by (auto simp: hub_untouched_def kube_keeps_def retry_law_def mem_kube_def mem_get_work_def
        mem_delete_work_def mem_create_work_def mem_update_work_def mem_put_def split: option.splits)
  then show ?thesis
    by (auto simp: profile_laws_def mem_hub_def mem_get_def on_networks_def on_overlays_def
        split: option.splits prod.splits)
qed

lemma mem_pass_laws: "system_laws mem_hub mem_kube s_works mem_networks mem_overlays
    \<and> profile_laws mem_hub mem_kube (\<lambda>w. obj_find pp_meta (hs_profiles w))"
  using mem_system_laws mem_profile_laws by blast

definition example_pass :: "object_request list" where
  "example_pass = [NetworkRequest net_request, SliceRequest slice_request]"

lemma example_pass_runs:
  "\<exists>w'. for_each (run_request mem_hub mem_kube) example_pass example_hub = (w', None)"
proof -
  obtain w1 where w1: "network_Reconcile mem_hub (Some (ocm_client mem_kube)) net_request example_hub = (w1, None)"
    using example_network_run by blast
  have "mem_overlays w1 = mem_overlays example_hub"
    by (rule network_run_others(2) [OF mem_pass_laws w1])
  then have "mem_overlays w1 (rq_namespace slice_request, rq_name slice_request) = Some hub_slice"
    using example_slice_stored by simp
  from slice_run_anywhere [OF this] w1 show ?thesis by (auto simp: example_pass_def)
qed

lemma example_pass_fine: "\<forall>q \<in> set example_pass. request_fine mem_overlays example_hub q"
  using example_slice_stored
  by (simp add: example_pass_def has_gateways_def slice_nodes_def gateway_address_def hub_slice_def
      example_slice_def example_topology_def)

lemma example_compatible:
  fixes w :: "'a hub_store_scheme"
  assumes "networks w (rq_namespace net_request, rq_name net_request) = Some hub_network"
    "overlays w (rq_namespace slice_request, rq_name slice_request) = Some hub_slice"
  shows "compatible (request_wants mem_kube networks overlays profiles w) (set example_pass)"
proof -
  let ?k = "mem_kube :: 'a hub_store_scheme kube"
  have n: "net_name hub_network = ''net''" and s: "overlay_name hub_slice = ''slc''"
    by (simp_all add: hub_network_def hub_slice_def)
  have "work_name ?k ''slc'' = ''slc''"
    by (simp add: work_name_def mem_work_name is_lower_def code_def)
  then have disjoint: "network_keys ?k hub_network \<inter> slice_keys ?k hub_slice = {}"
    by (auto simp: network_keys_def network_key_def slice_keys_def slice_key_def n s mem_names)
  have apart: False if "network_wants ?k P (Some hub_network) key = Some c"
      "slice_wants ?k P (Some hub_slice) key = Some c'" for P key c c'
  proof -
    have "key \<in> network_keys ?k hub_network" by (rule network_wants_keys [of ?k P]) (simp add: that(1))
    moreover have "key \<in> slice_keys ?k hub_slice" by (rule slice_wants_keys [of ?k P]) (simp add: that(2))
    ultimately show False using disjoint by blast
  qed
  show ?thesis
    unfolding compatible_def example_pass_def
    using apart by (simp add: assms del: split_paired_All) blast
qed

lemma example_pass_compatible:
  "compatible (request_wants mem_kube mem_networks mem_overlays (\<lambda>w. obj_find pp_meta (hs_profiles w)) example_hub)
     (set example_pass)"
  by (rule example_compatible) (rule example_network_stored example_slice_stored)+

section \<open>Passes\<close>

text \<open>C12: a pass of the controllers over a list of requests, each successful, leaves on the clusters
  exactly what the requested objects want, and every other ManifestWork as it was: a live network or
  slice its works with its provider on all its clusters, a dying one with the finalizer none. The
  order of the requests does not matter, and once a pass has succeeded, further successful runs of
  these requests, in any number and order, change no ManifestWork. The objects must not want
  different contents for the same work, and the clusters of live slices have gateway addresses.\<close>

theorem passes_settle:
  assumes laws: "system_laws h k works networks overlays" "profile_laws h k profiles"
    and pass: "for_each (run_request h k) qs w = (w', None)" "distinct qs"
    and objects: "\<forall>q \<in> set qs. request_fine overlays w q"
      "compatible (request_wants k networks overlays profiles w) (set qs)"
  shows "(\<forall>q \<in> set qs. \<forall>key c. request_wants k networks overlays profiles w q key = Some c \<longrightarrow> works w' key = c)
    \<and> (\<forall>key. (\<forall>q \<in> set qs. request_wants k networks overlays profiles w q key = None) \<longrightarrow> works w' key = works w key)
    \<and> (\<forall>ps w2. distinct ps \<longrightarrow> set ps = set qs \<longrightarrow> for_each (run_request h k) ps w = (w2, None) \<longrightarrow> works w2 = works w')
    \<and> (\<forall>ps w2. set ps \<subseteq> set qs \<longrightarrow> for_each (run_request h k) ps w' = (w2, None) \<longrightarrow> works w2 = works w')"
proof (intro conjI)
  note l = conjI [OF laws]
  note p = passes.pass_works [OF l pass objects]
  show "\<forall>q \<in> set qs. \<forall>key c. request_wants k networks overlays profiles w q key = Some c \<longrightarrow> works w' key = c"
    using conjunct1 [OF p] unfolding satisfied_def .
  show "\<forall>key. (\<forall>q \<in> set qs. request_wants k networks overlays profiles w q key = None) \<longrightarrow> works w' key = works w key"
    by (rule conjunct2 [OF p])
  show "\<forall>ps w2. distinct ps \<longrightarrow> set ps = set qs \<longrightarrow> for_each (run_request h k) ps w = (w2, None) \<longrightarrow> works w2 = works w'"
    using passes.order_irrelevant [OF l pass(1) _ pass(2) _ _ objects] by metis
  have fine: "\<forall>q \<in> set ps. request_fine overlays w' q" if "set ps \<subseteq> set qs" for ps
    using passes.pass_wants [OF l pass(1)] objects(1) that by blast
  show "\<forall>ps w2. set ps \<subseteq> set qs \<longrightarrow> for_each (run_request h k) ps w' = (w2, None) \<longrightarrow> works w2 = works w'"
    by (intro allI impI) (rule passes.stays [OF l _ fine passes.pass_leaves_satisfied [OF l pass objects]])
qed

lemma passes_settle_witness:
  "\<exists>w'. for_each (run_request mem_hub mem_kube) example_pass example_hub = (w', None)
     \<and> (\<forall>w2. for_each (run_request mem_hub mem_kube) (rev example_pass) w' = (w2, None) \<longrightarrow> s_works w2 = s_works w')"
proof -
  obtain w' where run: "for_each (run_request mem_hub mem_kube) example_pass example_hub = (w', None)"
    using example_pass_runs by blast
  have "distinct example_pass" by (simp add: example_pass_def)
  note p = passes_settle [OF mem_system_laws mem_profile_laws run this example_pass_fine example_pass_compatible]
  have "s_works w2 = s_works w'" if "for_each (run_request mem_hub mem_kube) (rev example_pass) w' = (w2, None)" for w2
    using conjunct2 [OF conjunct2 [OF conjunct2 [OF p]], rule_format, OF _ that] by simp
  with run show ?thesis by blast
qed

section \<open>Convergence of the system\<close>

text \<open>The requests cover every stored object.\<close>

definition covers :: "object_request set \<Rightarrow> (string \<times> string \<rightharpoonup> slice_network) \<Rightarrow> (string \<times> string \<rightharpoonup> slice_overlay) \<Rightarrow> bool" where
  "covers qs ns os \<longleftrightarrow>
     (\<forall>o_key. ns o_key \<noteq> None \<longrightarrow> NetworkRequest \<lparr>rq_namespace = fst o_key, rq_name = snd o_key\<rparr> \<in> qs)
     \<and> (\<forall>o_key. os o_key \<noteq> None \<longrightarrow> SliceRequest \<lparr>rq_namespace = fst o_key, rq_name = snd o_key\<rparr> \<in> qs)"

lemma coversD:
  assumes "covers qs ns os"
  shows "ns o_key = Some n \<Longrightarrow> NetworkRequest \<lparr>rq_namespace = fst o_key, rq_name = snd o_key\<rparr> \<in> qs"
    and "os o_key = Some s \<Longrightarrow> SliceRequest \<lparr>rq_namespace = fst o_key, rq_name = snd o_key\<rparr> \<in> qs"
proof -
  note c = assms [unfolded covers_def]
  show "ns o_key = Some n \<Longrightarrow> NetworkRequest \<lparr>rq_namespace = fst o_key, rq_name = snd o_key\<rparr> \<in> qs"
    by (rule conjunct1 [OF c, rule_format]) simp
  show "os o_key = Some s \<Longrightarrow> SliceRequest \<lparr>rq_namespace = fst o_key, rq_name = snd o_key\<rparr> \<in> qs"
    by (rule conjunct2 [OF c, rule_format]) simp
qed

text \<open>What a live object wants, when it is ready.\<close>

lemma live_network_wants:
  assumes "deletion_is_zero (sn_meta n)" "live_ready (network_provider P n) (network_wants k P (Some n))"
  obtains p where "network_provider P n = Some p"
    "\<And>c. c \<in> set (sns_clusters (sn_spec n)) \<Longrightarrow> \<exists>j.
       toManifest k (ObjL2Network (network_object k (network_with_provider p n) (net_namespace n))) = Inr j
       \<and> network_wants k P (Some n) (c, work_name k (net_name n)) = Some (Some (deployed j))"
proof -
  from assms(2) obtain p where p: "network_provider P n = Some p" unfolding live_ready_def by blast
  note content = network_content_def [of k "network_with_provider p n" "net_namespace n"]
  have "\<exists>j. toManifest k (ObjL2Network (network_object k (network_with_provider p n) (net_namespace n))) = Inr j
       \<and> network_wants k P (Some n) (c, work_name k (net_name n)) = Some (Some (deployed j))"
    if c: "c \<in> set (sns_clusters (sn_spec n))" for c
  proof -
    have "(c, work_name k (net_name n)) \<in> network_keys k n" using c by (auto simp: network_keys_def network_key_def)
    then have w: "network_wants k P (Some n) (c, work_name k (net_name n))
        = Some (network_content k (network_with_provider p n) (net_namespace n))"
      using assms(1) p by (simp add: network_wants_def wants_at_def)
    then have "network_content k (network_with_provider p n) (net_namespace n) \<noteq> None"
      using assms(2) unfolding live_ready_def by metis
    with w show ?thesis by (auto simp: content result_of_def split: sum.splits)
  qed
  with p that show thesis by blast
qed

lemma live_slice_wants:
  assumes "deletion_is_zero (so_meta s)" "live_ready (slice_provider P s) (slice_wants k P (Some s))"
  obtains p where "slice_provider P s = Some p"
    "\<And>c. c \<in> set (slice_nodes s) \<Longrightarrow> \<exists>content.
       static_slice_content k (overlay_with_provider p s) (overlay_namespace s) (oc_name c) = Some content
       \<and> slice_wants k P (Some s) (oc_name c, work_name k (overlay_name s)) = Some (Some content)"
proof -
  from assms(2) obtain p where p: "slice_provider P s = Some p" unfolding live_ready_def by blast
  have "\<exists>content. static_slice_content k (overlay_with_provider p s) (overlay_namespace s) (oc_name c) = Some content
       \<and> slice_wants k P (Some s) (oc_name c, work_name k (overlay_name s)) = Some (Some content)"
    if c: "c \<in> set (slice_nodes s)" for c
  proof -
    have "(oc_name c, work_name k (overlay_name s)) \<in> slice_keys k s" using c by (auto simp: slice_keys_def slice_key_def)
    then have w: "slice_wants k P (Some s) (oc_name c, work_name k (overlay_name s))
        = Some (static_slice_content k (overlay_with_provider p s) (overlay_namespace s) (oc_name c))"
      using assms(1) p by (simp add: slice_wants_def wants_at_def)
    then have "static_slice_content k (overlay_with_provider p s) (overlay_namespace s) (oc_name c) \<noteq> None"
      using assms(2) unfolding live_ready_def by metis
    with w show ?thesis by auto
  qed
  with p that show thesis by blast
qed

text \<open>What the clusters hold for a live object that is ready and has what it wants.\<close>

lemma satisfied_network:
  assumes sat: "satisfied (request_wants k networks overlays profiles w) Q v" and q: "NetworkRequest req \<in> Q"
    and ready: "request_ready k networks overlays profiles w (NetworkRequest req)"
    and n: "networks w (rq_namespace req, rq_name req) = Some n" "deletion_is_zero (sn_meta n)"
  shows "\<exists>p. network_provider (profiles w) n = Some p \<and> (\<forall>c. c \<in> set (sns_clusters (sn_spec n)) \<longrightarrow>
           (\<exists>j. toManifest k (ObjL2Network (network_object k (network_with_provider p n) (net_namespace n))) = Inr j
              \<and> v (c, work_name k (net_name n)) = Some ([''app'' \<mapsto> ''l2sm''], [j])))"
proof -
  have "live_ready (network_provider (profiles w) n) (network_wants k (profiles w) (Some n))"
    using ready n by simp
  with n(2) obtain p where p: "network_provider (profiles w) n = Some p"
    and c: "\<And>c. c \<in> set (sns_clusters (sn_spec n)) \<Longrightarrow> \<exists>j.
       toManifest k (ObjL2Network (network_object k (network_with_provider p n) (net_namespace n))) = Inr j
       \<and> network_wants k (profiles w) (Some n) (c, work_name k (net_name n)) = Some (Some (deployed j))"
    by (rule live_network_wants) (rule that)
  show ?thesis
  proof (rule exI [of _ p], intro conjI allI impI, rule p)
    fix a assume "a \<in> set (sns_clusters (sn_spec n))"
    from c [OF this] obtain j where j: "toManifest k (ObjL2Network (network_object k (network_with_provider p n) (net_namespace n))) = Inr j"
      "network_wants k (profiles w) (Some n) (a, work_name k (net_name n)) = Some (Some (deployed j))" by blast
    then have "request_wants k networks overlays profiles w (NetworkRequest req) (a, work_name k (net_name n)) = Some (Some (deployed j))"
      using n(1) by simp
    with sat q have "v (a, work_name k (net_name n)) = Some (deployed j)" unfolding satisfied_def by blast
    with j(1) show "\<exists>j. toManifest k (ObjL2Network (network_object k (network_with_provider p n) (net_namespace n))) = Inr j
        \<and> v (a, work_name k (net_name n)) = Some ([''app'' \<mapsto> ''l2sm''], [j])"
      unfolding deployed_def by (intro exI conjI)
  qed
qed

lemma satisfied_slice:
  assumes sat: "satisfied (request_wants k networks overlays profiles w) Q v" and q: "SliceRequest req \<in> Q"
    and ready: "request_ready k networks overlays profiles w (SliceRequest req)"
    and s: "overlays w (rq_namespace req, rq_name req) = Some s" "deletion_is_zero (so_meta s)"
  shows "\<exists>p. slice_provider (profiles w) s = Some p \<and> (\<forall>c. c \<in> set (slice_nodes s) \<longrightarrow>
           (\<exists>content. static_slice_content k (overlay_with_provider p s) (overlay_namespace s) (oc_name c) = Some content
              \<and> v (oc_name c, work_name k (overlay_name s)) = Some content))"
proof -
  have "live_ready (slice_provider (profiles w) s) (slice_wants k (profiles w) (Some s))"
    using ready s by simp
  with s(2) obtain p where p: "slice_provider (profiles w) s = Some p"
    and c: "\<And>c. c \<in> set (slice_nodes s) \<Longrightarrow> \<exists>content.
       static_slice_content k (overlay_with_provider p s) (overlay_namespace s) (oc_name c) = Some content
       \<and> slice_wants k (profiles w) (Some s) (oc_name c, work_name k (overlay_name s)) = Some (Some content)"
    by (rule live_slice_wants) (rule that)
  show ?thesis
  proof (rule exI [of _ p], intro conjI allI impI, rule p)
    fix a assume "a \<in> set (slice_nodes s)"
    from c [OF this] obtain content where j: "static_slice_content k (overlay_with_provider p s) (overlay_namespace s) (oc_name a) = Some content"
      "slice_wants k (profiles w) (Some s) (oc_name a, work_name k (overlay_name s)) = Some (Some content)" by blast
    then have "request_wants k networks overlays profiles w (SliceRequest req) (oc_name a, work_name k (overlay_name s)) = Some (Some content)"
      using s(1) by simp
    with sat q have "v (oc_name a, work_name k (overlay_name s)) = Some content" unfolding satisfied_def by blast
    with j(1) show "\<exists>content. static_slice_content k (overlay_with_provider p s) (overlay_namespace s) (oc_name a) = Some content
        \<and> v (oc_name a, work_name k (overlay_name s)) = Some content"
      by (intro exI conjI)
  qed
qed

text \<open>When every work had a guarded owner and all objects have what they want, only works of live objects
  are left.\<close>

lemma satisfied_live:
  assumes sat: "satisfied (request_wants k networks overlays profiles w) Q v"
    and frame: "\<forall>key. (\<forall>q \<in> Q. request_wants k networks overlays profiles w q key = None) \<longrightarrow> v key = works w key"
    and cover: "covers Q (networks w) (overlays w)" and inv: "no_orphans k works networks overlays w"
    and key: "v key \<noteq> None"
  shows "(\<exists>o_key n. networks w o_key = Some n \<and> deletion_is_zero (sn_meta n) \<and> key \<in> network_keys k n)
    \<or> (\<exists>o_key s. overlays w o_key = Some s \<and> deletion_is_zero (so_meta s) \<and> key \<in> slice_keys k s)"
proof (cases "\<forall>q \<in> Q. request_wants k networks overlays profiles w q key = None")
  case False
  then obtain q c where q: "q \<in> Q" "request_wants k networks overlays profiles w q key = Some c" by auto
  with sat have "v key = c" unfolding satisfied_def by blast
  with key have c: "c \<noteq> None" by simp
  show ?thesis
  proof (cases q)
    case (NetworkRequest req)
    with q c show ?thesis
      using network_wants_live [of k "profiles w" "networks w (rq_namespace req, rq_name req)" key] by (cases c) (simp_all, blast)
  next
    case (SliceRequest req)
    with q c show ?thesis
      using slice_wants_live [of k "profiles w" "overlays w (rq_namespace req, rq_name req)" key] by (cases c) (simp_all, blast)
  qed
next
  case True
  then have "v key = works w key" using spec [OF frame, of key] by blast
  then have "owned k networks overlays w key" using key no_orphansD [OF inv, of key] by simp
  then show ?thesis
    unfolding owned_def
  proof
    assume "\<exists>o_key n. networks w o_key = Some n \<and> guarded_network n \<and> key \<in> network_keys k n"
    then obtain o_key n where n: "networks w o_key = Some n" "guarded_network n" "key \<in> network_keys k n" by blast
    have "network_wants k (profiles w) (Some n) key = None"
      using bspec [OF True coversD(1) [OF cover n(1)]] n(1) by simp
    with n(2,3) have "deletion_is_zero (sn_meta n)"
      by (cases "deletion_is_zero (sn_meta n)") (simp_all add: network_wants_def wants_at_def)
    with n show ?thesis by blast
  next
    assume "\<exists>o_key s. overlays w o_key = Some s \<and> guarded_overlay s \<and> key \<in> slice_keys k s"
    then obtain o_key s where s: "overlays w o_key = Some s" "guarded_overlay s" "key \<in> slice_keys k s" by blast
    have "slice_wants k (profiles w) (Some s) key = None"
      using bspec [OF True coversD(2) [OF cover s(1)]] s(1) by simp
    with s(2,3) have "deletion_is_zero (so_meta s)"
      by (cases "deletion_is_zero (so_meta s)") (simp_all add: slice_wants_def wants_at_def)
    with s show ?thesis by blast
  qed
qed

text \<open>The clusters hold the ManifestWorks \<open>v\<close> that the objects stored in \<open>w\<close> ask for, and no other.\<close>

definition converged :: "'w kube \<Rightarrow> ('w \<Rightarrow> string \<times> string \<rightharpoonup> slice_network) \<Rightarrow> ('w \<Rightarrow> string \<times> string \<rightharpoonup> slice_overlay)
    \<Rightarrow> ('w \<Rightarrow> string \<times> string \<rightharpoonup> provider_profile) \<Rightarrow> 'w \<Rightarrow> work_view \<Rightarrow> bool" where
  "converged k networks overlays profiles w v \<longleftrightarrow>
     (\<forall>o_key n. networks w o_key = Some n \<longrightarrow> deletion_is_zero (sn_meta n) \<longrightarrow>
        (\<exists>p. network_provider (profiles w) n = Some p \<and> (\<forall>c. c \<in> set (sns_clusters (sn_spec n)) \<longrightarrow>
           (\<exists>j. toManifest k (ObjL2Network (network_object k (network_with_provider p n) (net_namespace n))) = Inr j
              \<and> v (c, work_name k (net_name n)) = Some ([''app'' \<mapsto> ''l2sm''], [j])))))
    \<and> (\<forall>o_key s. overlays w o_key = Some s \<longrightarrow> deletion_is_zero (so_meta s) \<longrightarrow>
        (\<exists>p. slice_provider (profiles w) s = Some p \<and> (\<forall>c. c \<in> set (slice_nodes s) \<longrightarrow>
           (\<exists>content. static_slice_content k (overlay_with_provider p s) (overlay_namespace s) (oc_name c) = Some content
              \<and> v (oc_name c, work_name k (overlay_name s)) = Some content))))
    \<and> (\<forall>key. v key \<noteq> None \<longrightarrow>
          (\<exists>o_key n. networks w o_key = Some n \<and> deletion_is_zero (sn_meta n) \<and> key \<in> network_keys k n)
        \<or> (\<exists>o_key s. overlays w o_key = Some s \<and> deletion_is_zero (so_meta s) \<and> key \<in> slice_keys k s))"

lemma convergence:
  assumes sat: "satisfied (request_wants k networks overlays profiles w) Q v"
    and frame: "\<forall>key. (\<forall>q \<in> Q. request_wants k networks overlays profiles w q key = None) \<longrightarrow> v key = works w key"
    and ready: "\<forall>q \<in> Q. request_ready k networks overlays profiles w q"
    and cover: "covers Q (networks w) (overlays w)" and inv: "no_orphans k works networks overlays w"
  shows "converged k networks overlays profiles w v"
  unfolding converged_def
proof (intro conjI allI impI)
  show "\<exists>p. network_provider (profiles w) n = Some p \<and> (\<forall>c. c \<in> set (sns_clusters (sn_spec n)) \<longrightarrow>
      (\<exists>j. toManifest k (ObjL2Network (network_object k (network_with_provider p n) (net_namespace n))) = Inr j
         \<and> v (c, work_name k (net_name n)) = Some ([''app'' \<mapsto> ''l2sm''], [j])))"
    if "networks w o_key = Some n" "deletion_is_zero (sn_meta n)" for o_key n
    using that by (intro satisfied_network [OF sat coversD(1) [OF cover that(1)] bspec [OF ready coversD(1) [OF cover that(1)]]]) simp_all
  show "\<exists>p. slice_provider (profiles w) s = Some p \<and> (\<forall>c. c \<in> set (slice_nodes s) \<longrightarrow>
      (\<exists>content. static_slice_content k (overlay_with_provider p s) (overlay_namespace s) (oc_name c) = Some content
         \<and> v (oc_name c, work_name k (overlay_name s)) = Some content))"
    if "overlays w o_key = Some s" "deletion_is_zero (so_meta s)" for o_key s
    using that by (intro satisfied_slice [OF sat coversD(2) [OF cover that(1)] bspec [OF ready coversD(2) [OF cover that(1)]]]) simp_all
  show "(\<exists>o_key n. networks w o_key = Some n \<and> deletion_is_zero (sn_meta n) \<and> key \<in> network_keys k n)
      \<or> (\<exists>o_key s. overlays w o_key = Some s \<and> deletion_is_zero (so_meta s) \<and> key \<in> slice_keys k s)"
    if "v key \<noteq> None" for key
    by (rule satisfied_live [OF sat frame cover inv that])
qed

text \<open>C2: convergence. From any state the system reaches from one without ManifestWorks (runs of both
  controllers, failed ones included, requests, changes by others that keep the guards), one successful
  pass over all stored objects brings the clusters exactly to what the hub asks for: every live network
  is deployed with its provider on each of its clusters, every live slice has its edge device on each
  cluster of its topology, and there is no other ManifestWork on any cluster. Two conditions: the clusters
  of live slices have gateway addresses, and no two stored objects want different contents for the same
  ManifestWork, as a slice and a network of the same sanitized name on a common cluster would.\<close>

theorem system_converges:
  assumes laws: "system_laws h k works networks overlays" "api_laws h works networks overlays" "profile_laws h k profiles"
    and reach: "(system_step h k gv works networks overlays)\<^sup>*\<^sup>* w0 w" and start: "works w0 = Map.empty"
    and pass: "for_each (run_request h k) qs w = (w', None)" "distinct qs"
    and objects: "covers (set qs) (networks w) (overlays w)" "\<forall>q \<in> set qs. request_fine overlays w q"
      "compatible (request_wants k networks overlays profiles w) (set qs)"
  shows "(\<forall>o_key n. networks w o_key = Some n \<longrightarrow> deletion_is_zero (sn_meta n) \<longrightarrow>
        (\<exists>p. network_provider (profiles w) n = Some p \<and> (\<forall>c. c \<in> set (sns_clusters (sn_spec n)) \<longrightarrow>
           (\<exists>j. toManifest k (ObjL2Network (network_object k (network_with_provider p n) (net_namespace n))) = Inr j
              \<and> works w' (c, work_name k (net_name n)) = Some ([''app'' \<mapsto> ''l2sm''], [j])))))
    \<and> (\<forall>o_key s. overlays w o_key = Some s \<longrightarrow> deletion_is_zero (so_meta s) \<longrightarrow>
        (\<exists>p. slice_provider (profiles w) s = Some p \<and> (\<forall>c. c \<in> set (slice_nodes s) \<longrightarrow>
           (\<exists>content. static_slice_content k (overlay_with_provider p s) (overlay_namespace s) (oc_name c) = Some content
              \<and> works w' (oc_name c, work_name k (overlay_name s)) = Some content))))
    \<and> (\<forall>key. works w' key \<noteq> None \<longrightarrow>
          (\<exists>o_key n. networks w o_key = Some n \<and> deletion_is_zero (sn_meta n) \<and> key \<in> network_keys k n)
        \<or> (\<exists>o_key s. overlays w o_key = Some s \<and> deletion_is_zero (so_meta s) \<and> key \<in> slice_keys k s))"
proof -
  note l = conjI [OF laws(1,3)]
  note eff = passes.pass_works [OF l pass objects(2,3)] and ready = passes.pass_ready [OF l pass objects(2)]
  have "no_orphans k works networks overlays w" by (rule steps_no_orphans [OF laws(1,2) reach start])
  from convergence [OF conjunct1 [OF eff] conjunct2 [OF eff] ready objects(1) this]
  show ?thesis unfolding converged_def .
qed

lemma system_converges_witness:
  "\<exists>w' j. for_each (run_request mem_hub mem_kube) example_pass example_hub = (w', None)
     \<and> s_works w' (''b'', ''net'') = Some ([''app'' \<mapsto> ''l2sm''], [j])"
proof -
  obtain w' where run: "for_each (run_request mem_hub mem_kube) example_pass example_hub = (w', None)"
    using example_pass_runs by blast
  have d: "distinct example_pass" by (simp add: example_pass_def)
  have start: "s_works example_hub = Map.empty" by (simp add: example_hub_def)
  have cover: "covers (set example_pass) (mem_networks example_hub) (mem_overlays example_hub)"
    by (simp add: covers_def example_pass_def obj_find_def key_of_def net_request_def slice_request_def example_hub_simps)
  have b: "''b'' \<in> set (sns_clusters (sn_spec hub_network))" "net_name hub_network = ''net''"
    by (simp_all add: hub_network_def example_network_def)
  from conjunct1 [OF system_converges [OF mem_system_laws mem_api_laws mem_profile_laws rtranclp.rtrancl_refl start run d cover
        example_pass_fine example_pass_compatible], rule_format, OF example_network_stored example_network_live] b
  have "\<exists>j. s_works w' (''b'', ''net'') = Some ([''app'' \<mapsto> ''l2sm''], [j])"
    by (auto simp: mem_names)
  with run show ?thesis by blast
qed

end
