(* ===== verification/Watch.thy ===== *)
theory Watch
  imports Converge
begin

text \<open>
  The watch on ProviderProfiles: \<open>requestsForProviderProfile\<close> of both controllers, composed with their
  \<open>Reconcile\<close>. When a profile is stored, changed or removed while everything else is settled, the
  requests the watch makes are enough to settle the system again.
\<close>

section \<open>What the watch requests\<close>

definition watch_requests :: "'w hub \<Rightarrow> provider_profile \<Rightarrow> 'w \<Rightarrow> object_request list" where
  "watch_requests h profile w =
     map NetworkRequest (snd (requestsForProviderProfile_network h (Some profile) w))
     @ map SliceRequest (snd (requestsForProviderProfile_overlay h (Some profile) w))"

text \<open>The lists the API server answers with hold the stored objects, each once.\<close>

definition lists_stored :: "'w hub \<Rightarrow> ('w \<Rightarrow> string \<times> string \<rightharpoonup> slice_network) \<Rightarrow> ('w \<Rightarrow> string \<times> string \<rightharpoonup> slice_overlay)
    \<Rightarrow> 'w \<Rightarrow> bool" where
  "lists_stored h networks overlays w \<longleftrightarrow>
     (\<exists>w' ns. h_list_networks h w = (w', Inr ns) \<and> distinct (map (key_of sn_meta) ns)
        \<and> (\<forall>o_key n. networks w o_key = Some n \<longleftrightarrow> n \<in> set ns \<and> key_of sn_meta n = o_key))
     \<and> (\<exists>w' os. h_list_overlays h w = (w', Inr os) \<and> distinct (map (key_of so_meta) os)
        \<and> (\<forall>o_key s. overlays w o_key = Some s \<longleftrightarrow> s \<in> set os \<and> key_of so_meta s = o_key))"

abbreviation network_reads :: "slice_network \<Rightarrow> (string \<times> string) option" where
  "network_reads n \<equiv> profile_read (sns_provider (sn_spec n)) (net_namespace n) (sns_providerRef (sn_spec n))"

abbreviation slice_reads :: "slice_overlay \<Rightarrow> (string \<times> string) option" where
  "slice_reads s \<equiv> profile_read (sos_provider (so_spec s)) (overlay_namespace s) (sos_providerRef (so_spec s))"

definition request_at :: "string \<times> string \<Rightarrow> request" where
  "request_at key = \<lparr>rq_namespace = fst key, rq_name = snd key\<rparr>"

lemma request_at_iff: "req = request_at key \<longleftrightarrow> key = (rq_namespace req, rq_name req)"
  by (cases req; cases key) (auto simp: request_at_def)

lemma request_list_iff:
  "req \<in> set (map (\<lambda>x. request_at (f x)) (filter P xs))
     \<longleftrightarrow> (\<exists>x. (x \<in> set xs \<and> f x = (rq_namespace req, rq_name req)) \<and> P x)"
  by (simp add: image_iff request_at_iff) blast

lemma request_list_distinct:
  assumes "distinct (map f xs)"
  shows "distinct (map (\<lambda>x. request_at (f x)) (filter P xs))"
  using assms by (induction xs) (auto simp: request_at_def prod_eq_iff)

text \<open>Exactly the objects that read the profile, each once.\<close>

lemma network_watch:
  fixes profile :: provider_profile
  assumes l: "h_list_networks h w = (w', Inr items)" "distinct (map (key_of sn_meta) items)"
    and all: "\<forall>o_key x. stored o_key = Some x \<longleftrightarrow> x \<in> set items \<and> key_of sn_meta x = o_key"
  defines "reqs \<equiv> snd (requestsForProviderProfile_network h (Some profile) w)"
  shows "distinct reqs"
    and "req \<in> set reqs \<longleftrightarrow> (\<exists>x. stored (rq_namespace req, rq_name req) = Some x
           \<and> network_reads x = Some (key_of pp_meta profile))"
proof -
  have reqs: "reqs = map (\<lambda>x. request_at (key_of sn_meta x)) (filter (\<lambda>x. network_reads x = Some (key_of pp_meta profile)) items)"
    using conjunct1 [OF requestsForProviderProfile_exact, rule_format, OF l(1), of profile]
    by (simp add: reqs_def request_at_def key_of_def)
  show "distinct reqs" unfolding reqs by (rule request_list_distinct [OF l(2)])
  show "req \<in> set reqs \<longleftrightarrow> (\<exists>x. stored (rq_namespace req, rq_name req) = Some x
           \<and> network_reads x = Some (key_of pp_meta profile))"
    unfolding reqs all [rule_format] by (rule request_list_iff)
qed

lemma slice_watch:
  fixes profile :: provider_profile
  assumes l: "h_list_overlays h w = (w', Inr items)" "distinct (map (key_of so_meta) items)"
    and all: "\<forall>o_key x. stored o_key = Some x \<longleftrightarrow> x \<in> set items \<and> key_of so_meta x = o_key"
  defines "reqs \<equiv> snd (requestsForProviderProfile_overlay h (Some profile) w)"
  shows "distinct reqs"
    and "req \<in> set reqs \<longleftrightarrow> (\<exists>x. stored (rq_namespace req, rq_name req) = Some x
           \<and> slice_reads x = Some (key_of pp_meta profile))"
proof -
  have reqs: "reqs = map (\<lambda>x. request_at (key_of so_meta x)) (filter (\<lambda>x. slice_reads x = Some (key_of pp_meta profile)) items)"
    using conjunct2 [OF requestsForProviderProfile_exact, rule_format, OF l(1), of profile]
    by (simp add: reqs_def request_at_def key_of_def)
  show "distinct reqs" unfolding reqs by (rule request_list_distinct [OF l(2)])
  show "req \<in> set reqs \<longleftrightarrow> (\<exists>x. stored (rq_namespace req, rq_name req) = Some x
           \<and> slice_reads x = Some (key_of pp_meta profile))"
    unfolding reqs all [rule_format] by (rule request_list_iff)
qed

lemma watched:
  assumes "lists_stored h networks overlays w"
  shows "distinct (watch_requests h profile w)"
    and "NetworkRequest req \<in> set (watch_requests h profile w) \<longleftrightarrow>
      (\<exists>n. networks w (rq_namespace req, rq_name req) = Some n \<and> network_reads n = Some (key_of pp_meta profile))"
    and "SliceRequest req \<in> set (watch_requests h profile w) \<longleftrightarrow>
      (\<exists>s. overlays w (rq_namespace req, rq_name req) = Some s \<and> slice_reads s = Some (key_of pp_meta profile))"
proof -
  from assms obtain v v' ns os where
    n: "h_list_networks h w = (v, Inr ns)" "distinct (map (key_of sn_meta) ns)"
      "\<forall>o_key n. networks w o_key = Some n \<longleftrightarrow> n \<in> set ns \<and> key_of sn_meta n = o_key"
    and o: "h_list_overlays h w = (v', Inr os)" "distinct (map (key_of so_meta) os)"
      "\<forall>o_key s. overlays w o_key = Some s \<longleftrightarrow> s \<in> set os \<and> key_of so_meta s = o_key"
    unfolding lists_stored_def by (elim exE conjE) (rule that)
  note nw = network_watch [where stored = "networks w" and profile = profile, OF n]
    and sw = slice_watch [where stored = "overlays w" and profile = profile, OF o]
  show "distinct (watch_requests h profile w)"
    using nw(1) sw(1) by (auto simp: watch_requests_def distinct_map inj_on_def)
  show "NetworkRequest req \<in> set (watch_requests h profile w) \<longleftrightarrow>
      (\<exists>n. networks w (rq_namespace req, rq_name req) = Some n \<and> network_reads n = Some (key_of pp_meta profile))"
    unfolding nw(2) [symmetric] by (auto simp: watch_requests_def)
  show "SliceRequest req \<in> set (watch_requests h profile w) \<longleftrightarrow>
      (\<exists>s. overlays w (rq_namespace req, rq_name req) = Some s \<and> slice_reads s = Some (key_of pp_meta profile))"
    unfolding sw(2) [symmetric] by (auto simp: watch_requests_def)
qed


section \<open>The watch is enough\<close>

text \<open>Objects that read another profile, or none, have the provider they had.\<close>

lemma provider_unread:
  assumes "\<forall>k. k \<noteq> key \<longrightarrow> P' k = P k" "profile_read inline ns ref \<noteq> Some key"
  shows "provider_of P' inline ns ref = provider_of P inline ns ref"
  using assms by (cases "profile_read inline ns ref") (simp_all add: provider_of_def del: split_paired_All)

lemma wants_unread:
  assumes "\<forall>k. k \<noteq> key \<longrightarrow> P' k = P k"
  shows "network_reads n \<noteq> Some key \<Longrightarrow> network_wants kube P' (Some n) = network_wants kube P (Some n)"
    and "slice_reads s \<noteq> Some key \<Longrightarrow> slice_wants kube P' (Some s) = slice_wants kube P (Some s)"
proof -
  assume "network_reads n \<noteq> Some key"
  from provider_unread [OF assms this] have "network_provider P' n = network_provider P n"
    by (simp add: network_provider_def)
  then show "network_wants kube P' (Some n) = network_wants kube P (Some n)" by (simp add: network_wants_def)
next
  assume "slice_reads s \<noteq> Some key"
  from provider_unread [OF assms this] have "slice_provider P' s = slice_provider P s"
    by (simp add: slice_provider_def)
  then show "slice_wants kube P' (Some s) = slice_wants kube P (Some s)" by (simp add: slice_wants_def)
qed

text \<open>The state \<open>w\<close> is \<open>w0\<close> with another profile, or none, stored at \<open>key\<close>.\<close>

definition profile_changed :: "('w \<Rightarrow> work_view) \<Rightarrow> ('w \<Rightarrow> string \<times> string \<rightharpoonup> slice_network)
    \<Rightarrow> ('w \<Rightarrow> string \<times> string \<rightharpoonup> slice_overlay) \<Rightarrow> ('w \<Rightarrow> string \<times> string \<rightharpoonup> provider_profile)
    \<Rightarrow> string \<times> string \<Rightarrow> 'w \<Rightarrow> 'w \<Rightarrow> bool" where
  "profile_changed works networks overlays profiles key w0 w \<longleftrightarrow>
     works w = works w0 \<and> networks w = networks w0 \<and> overlays w = overlays w0
   \<and> (\<forall>k. k \<noteq> key \<longrightarrow> profiles w k = profiles w0 k)"

lemma unrequested_wants:
  assumes changed: "profile_changed works networks overlays profiles (key_of pp_meta profile) w0 w"
    and lists: "lists_stored h networks overlays w" and q: "q \<notin> set (watch_requests h profile w)"
  shows "request_wants k networks overlays profiles w q = request_wants k networks overlays profiles w0 q"
proof -
  have same: "networks w = networks w0" "overlays w = overlays w0"
    and other: "\<forall>key. key \<noteq> key_of pp_meta profile \<longrightarrow> profiles w key = profiles w0 key"
    using changed unfolding profile_changed_def by blast+
  note unread = wants_unread [OF other]
  show ?thesis
  proof (cases q)
    case (NetworkRequest req)
    note watch = watched(2) [OF lists, of req profile]
    have "network_reads n \<noteq> Some (key_of pp_meta profile)" if "networks w0 (rq_namespace req, rq_name req) = Some n" for n
      using that q watch unfolding same NetworkRequest by simp
    then show ?thesis
      using unread(1) unfolding NetworkRequest request_wants.simps same
      by (cases "networks w0 (rq_namespace req, rq_name req)") (simp_all add: network_wants_def [of _ _ None])
  next
    case (SliceRequest req)
    note watch = watched(3) [OF lists, of req profile]
    have "slice_reads s \<noteq> Some (key_of pp_meta profile)" if "overlays w0 (rq_namespace req, rq_name req) = Some s" for s
      using that q watch unfolding same SliceRequest by simp
    then show ?thesis
      using unread(2) unfolding SliceRequest request_wants.simps same
      by (cases "overlays w0 (rq_namespace req, rq_name req)") (simp_all add: slice_wants_def [of _ _ None])
  qed
qed

text \<open>C11: watching profiles is enough. Let every stored object have what it wants, and let then one profile
  be stored, changed or removed. The requests that \<open>requestsForProviderProfile\<close> of both controllers makes
  for it are distinct, every object they leave out wants what it wanted, and when their runs succeed every
  stored object has what it wants again, with the provider of the profiles as they are now. Works that no
  requested object wants are not touched. The objects must not want different contents for one work, and
  the clusters of live slices have gateway addresses. When the lists fail, nothing is requested.\<close>

theorem profile_watch_suffices:
  assumes laws: "system_laws h k works networks overlays" "profile_laws h k profiles"
    and settled: "satisfied (request_wants k networks overlays profiles w0) UNIV (works w0)"
    and changed: "profile_changed works networks overlays profiles (key_of pp_meta profile) w0 w"
    and lists: "lists_stored h networks overlays w"
    and pass: "for_each (run_request h k) (watch_requests h profile w) w = (w', None)"
    and objects: "\<forall>q \<in> set (watch_requests h profile w). request_fine overlays w q"
      "compatible (request_wants k networks overlays profiles w) UNIV"
  shows "satisfied (request_wants k networks overlays profiles w') UNIV (works w')
    \<and> distinct (watch_requests h profile w)
    \<and> (\<forall>q. q \<notin> set (watch_requests h profile w) \<longrightarrow>
         request_wants k networks overlays profiles w q = request_wants k networks overlays profiles w0 q)
    \<and> (\<forall>key. (\<forall>q \<in> set (watch_requests h profile w). request_wants k networks overlays profiles w q key = None) \<longrightarrow>
         works w' key = works w0 key)
    \<and> (\<forall>u v v' e e'. h_list_networks h u = (v, Inl e) \<longrightarrow> h_list_overlays h u = (v', Inl e') \<longrightarrow>
         watch_requests h profile u = [])"
proof -
  let ?qs = "watch_requests h profile w" and ?want = "request_wants k networks overlays profiles"
  note l = conjI [OF laws] and d = watched(1) [OF lists, of profile]
  have comp: "compatible (?want w) (set ?qs)" using objects(2) unfolding compatible_def by blast
  note eff = passes.pass_works [OF l pass d objects(1) comp]
  have works: "works w = works w0" using changed unfolding profile_changed_def by blast
  have frame: "works w' key = works w0 key" if "\<forall>q \<in> set ?qs. ?want w q key = None" for key
    using spec [OF conjunct2 [OF eff], of key] that works by simp
  have left: "?want w q = ?want w0 q" if "q \<notin> set ?qs" for q
    by (rule unrequested_wants [OF changed lists that])
  have after: "works w' key = c" if c: "?want w q key = Some c" for q key c
  proof (cases "\<exists>q' \<in> set ?qs. ?want w q' key \<noteq> None")
    case True
    then obtain q' c' where q': "q' \<in> set ?qs" "?want w q' key = Some c'" by blast
    have "c' = c" using objects(2) q'(2) c unfolding compatible_def by blast
    with q' conjunct1 [OF eff] show ?thesis unfolding satisfied_def by blast
  next
    case False
    then have "q \<notin> set ?qs" and "\<forall>q \<in> set ?qs. ?want w q key = None" using c by auto
    with frame left [of q] settled c show ?thesis unfolding satisfied_def by (metis UNIV_I)
  qed
  have "satisfied (?want w') UNIV (works w')"
    unfolding satisfied_def
  proof (intro ballI allI impI)
    fix q key c assume "?want w' q key = Some c"
    moreover have "?want w' q \<subseteq>\<^sub>m ?want w q" using passes.pass_wants [OF l pass] by blast
    ultimately have "?want w q key = Some c" unfolding map_le_def by (metis domI)
    then show "works w' key = c" by (rule after)
  qed
  moreover have "watch_requests h profile u = []" if "h_list_networks h u = (v, Inl e)" "h_list_overlays h u = (v', Inl e')"
    for u v v' e e'
    using that by (simp add: watch_requests_def requestsForProviderProfile_network_def requestsForProviderProfile_overlay_def)
  ultimately show ?thesis using d left frame by (intro conjI allI impI)
qed

text \<open>A network deployed with the default profile, which then changes.\<close>

definition new_profile :: provider_profile where
  "new_profile = example_profile\<lparr>pp_spec := \<lparr>pps_provider = empty_provider\<lparr>ps_name := ''sdn2''\<rparr>\<rparr>\<rparr>"

definition watch_hub :: "provider_profile \<Rightarrow> hub_store" where
  "watch_hub current =
     \<lparr>s_works = overwrite Map.empty (network_wants (mem_kube :: hub_store kube) (obj_find pp_meta [example_profile]) (Some hub_network)),
      s_urls = Map.empty, hs_networks = [hub_network], hs_overlays = [], hs_profiles = [current]\<rparr>"

abbreviation mem_profiles :: "hub_store \<Rightarrow> string \<times> string \<rightharpoonup> provider_profile" where
  "mem_profiles w \<equiv> obj_find pp_meta (hs_profiles w)"

lemma watch_hub_wants:
  "request_wants mem_kube mem_networks mem_overlays mem_profiles (watch_hub p) q =
     (if q = NetworkRequest net_request then network_wants (mem_kube :: hub_store kube) (obj_find pp_meta [p]) (Some hub_network)
      else Map.empty)"
proof (cases q)
  case (NetworkRequest req)
  have "mem_networks (watch_hub p) (rq_namespace req, rq_name req) = (if req = net_request then Some hub_network else None)"
    by (cases req) (auto simp: watch_hub_def obj_find_def key_of_def hub_network_def net_request_def empty_meta_def)
  then show ?thesis by (simp add: NetworkRequest network_wants_def [of _ _ None] watch_hub_def)
next
  case (SliceRequest req)
  then show ?thesis by (simp add: watch_hub_def obj_find_def slice_wants_def)
qed

lemma watch_hub_facts:
  shows "satisfied (request_wants mem_kube mem_networks mem_overlays mem_profiles (watch_hub example_profile)) UNIV
      (s_works (watch_hub example_profile))"
    and "compatible (request_wants mem_kube mem_networks mem_overlays mem_profiles (watch_hub p)) UNIV"
    and "lists_stored mem_hub mem_networks mem_overlays (watch_hub p)"
    and "profile_changed s_works mem_networks mem_overlays mem_profiles (key_of pp_meta new_profile)
      (watch_hub example_profile) (watch_hub new_profile)"
    and "watch_requests mem_hub new_profile (watch_hub new_profile) = [NetworkRequest net_request]"
proof -
  show "satisfied (request_wants mem_kube mem_networks mem_overlays mem_profiles (watch_hub example_profile)) UNIV
      (s_works (watch_hub example_profile))"
    by (simp add: satisfied_def watch_hub_wants) (simp add: watch_hub_def)
  show "compatible (request_wants mem_kube mem_networks mem_overlays mem_profiles (watch_hub p)) UNIV"
    by (simp add: compatible_def watch_hub_wants)
  show "lists_stored mem_hub mem_networks mem_overlays (watch_hub p)"
    by (auto simp: lists_stored_def mem_hub_def watch_hub_def obj_find_def)
  show "profile_changed s_works mem_networks mem_overlays mem_profiles (key_of pp_meta new_profile)
      (watch_hub example_profile) (watch_hub new_profile)"
    by (auto simp: profile_changed_def watch_hub_def obj_find_def new_profile_def key_of_def)
  show "watch_requests mem_hub new_profile (watch_hub new_profile) = [NetworkRequest net_request]"
    by (simp add: watch_requests_def requestsForProviderProfile_network_def requestsForProviderProfile_overlay_def mem_hub_def
        watch_hub_def profile_concerns_def new_profile_def net_request_def defaultProviderProfileName_def Let_def example_hub_simps)
qed

lemma watch_hub_run:
  "\<exists>w'. for_each (run_request mem_hub mem_kube) [NetworkRequest net_request] (watch_hub new_profile) = (w', None)"
proof -
  have "mem_networks (watch_hub new_profile) (rq_namespace net_request, rq_name net_request) = Some hub_network"
    by (simp add: watch_hub_def obj_find_def key_of_def hub_network_def net_request_def empty_meta_def)
  moreover have "resolveNetworkProvider mem_hub hub_network v = (v, Inr (pps_provider (pp_spec new_profile)))"
    if "hs_profiles v = hs_profiles (watch_hub new_profile)" for v
    using that by (simp add: resolveNetworkProvider_def resolveProviderReference_def mem_hub_def mem_get_def obj_find_def
        key_of_def watch_hub_def new_profile_def defaultProviderProfileName_def Let_def example_hub_simps)
  ultimately obtain w' where
    "network_Reconcile mem_hub (Some (ocm_client mem_kube)) net_request (watch_hub new_profile) = (w', None)"
    using mem_network_resolved_runs [OF _ example_network_live] by blast
  then show ?thesis by simp
qed

theorem profile_watch_suffices_witness:
  "\<exists>w'. for_each (run_request mem_hub mem_kube) (watch_requests mem_hub new_profile (watch_hub new_profile)) (watch_hub new_profile) = (w', None)
     \<and> satisfied (request_wants mem_kube mem_networks mem_overlays mem_profiles w') UNIV (s_works w')"
proof -
  obtain w' where run: "for_each (run_request mem_hub mem_kube) (watch_requests mem_hub new_profile (watch_hub new_profile))
      (watch_hub new_profile) = (w', None)"
    unfolding watch_hub_facts(5) using watch_hub_run by blast
  have "\<forall>q \<in> set (watch_requests mem_hub new_profile (watch_hub new_profile)). request_fine mem_overlays (watch_hub new_profile) q"
    unfolding watch_hub_facts(5) by simp
  from profile_watch_suffices [OF mem_system_laws mem_profile_laws watch_hub_facts(1,4,3) run this watch_hub_facts(2)] run
  show ?thesis by blast
qed

end
