(* ===== verification/Requeue.thy ===== *)
theory Requeue
  imports Settle
begin

text \<open>
  Termination of the requeue loop. A Reconcile that returns an error is run again; the loop could go on
  forever. When only finitely many calls to the hub and the clusters fail (the measure \<open>faults\<close>), it
  ends: the locale \<open>transient\<close> proves it for what the two reconcilers have in common, and it is
  interpreted on both.
\<close>

section \<open>The loop\<close>

text \<open>What controller-runtime does with a request whose run returned an error. \<open>None\<close> is a loop that
  never ends.\<close>

partial_function (option) requeue :: "('w, 'e) action \<Rightarrow> 'w \<Rightarrow> 'w option" where
  [code]: "requeue run w = (case run w of (w', None) \<Rightarrow> Some w' | (w', Some e) \<Rightarrow> requeue run w')"

text \<open>\<open>lowers faults failed w w'\<close>: the step used up a fault if it failed, and made none.\<close>

definition lowers :: "('w \<Rightarrow> nat) \<Rightarrow> bool \<Rightarrow> 'w \<Rightarrow> 'w \<Rightarrow> bool" where
  "lowers faults failed w w' \<longleftrightarrow> faults w' \<le> faults w \<and> (failed \<longrightarrow> faults w' < faults w)"

lemma lowers_refl [simp]: "lowers faults False w w"
  by (simp add: lowers_def)

lemma lowers_trans: "lowers faults a w w' \<Longrightarrow> lowers faults b w' w'' \<Longrightarrow> c \<longrightarrow> a \<or> b \<Longrightarrow> lowers faults c w w''"
  by (auto simp: lowers_def)

lemma lowers_weaken: "lowers faults a w w' \<Longrightarrow> b \<longrightarrow> a \<Longrightarrow> lowers faults b w w'"
  by (auto simp: lowers_def)

lemma for_each_lowers:
  assumes "for_each f xs w = (w', r)"
    and "\<And>x v v' q. x \<in> set xs \<Longrightarrow> f x v = (v', q) \<Longrightarrow> lowers faults (q \<noteq> None) v v'"
  shows "lowers faults (r \<noteq> None) w w'"
  using assms
proof (induction xs arbitrary: w)
  case Nil
  then show ?case by simp
next
  case (Cons x xs)
  obtain w1 q where one: "f x w = (w1, q)" by fastforce
  have first: "lowers faults (q \<noteq> None) w w1" by (rule Cons.prems(2) [OF _ one]) simp
  show ?case
  proof (cases q)
    case None
    with Cons.prems(1) one have "for_each f xs w1 = (w', r)" by simp
    then have "lowers faults (r \<noteq> None) w1 w'" by (rule Cons.IH) (rule Cons.prems(2), simp_all)
    with first show ?thesis by (rule lowers_trans) simp
  next
    case (Some e)
    with Cons.prems(1) one first show ?thesis by simp
  qed
qed

lemma retry_steps_lowers:
  assumes "\<And>v v' q. f v = (v', q) \<Longrightarrow> lowers faults (q \<noteq> None) v v'"
  shows "retry_steps n f w = (w', r) \<Longrightarrow> lowers faults (r \<noteq> None) w w'"
proof (induction n arbitrary: w)
  case 0
  then show ?case using assms by simp
next
  case (Suc n)
  obtain v q where f: "f w = (v, q)" by fastforce
  note step = assms [OF f]
  show ?case
  proof (cases "q = Some KConflict")
    case True
    with f Suc.prems have "retry_steps n f v = (w', r)" by simp
    from step Suc.IH [OF this] show ?thesis by (rule lowers_trans) simp
  next
    case False
    with f Suc.prems have "w' = v" "r = q" by (auto split: option.splits kerr.splits)
    with step show ?thesis by simp
  qed
qed

text \<open>The loop ends when every failed run uses up a fault; the last run succeeded, from a state that the
  runs before it can reach.\<close>

lemma requeue_terminates:
  assumes step: "\<And>v v' q. Inv v \<Longrightarrow> run v = (v', q) \<Longrightarrow> lowers faults (q \<noteq> None) v v'"
    and keep: "\<And>v v' e. Inv v \<Longrightarrow> run v = (v', Some e) \<Longrightarrow> Inv v'"
    and start: "Inv w"
  shows "\<exists>v w'. requeue run w = Some w' \<and> Inv v \<and> run v = (w', None)"
  using start
proof (induction "faults w" arbitrary: w rule: less_induct)
  case less
  obtain w1 q where one: "run w = (w1, q)" by fastforce
  show ?case
  proof (cases q)
    case None
    with one have "requeue run w = Some w1" by (simp add: requeue.simps [of run w])
    with one None less.prems show ?thesis by blast
  next
    case (Some e)
    have "faults w1 < faults w" using step [OF less.prems one] Some by (simp add: lowers_def)
    moreover have "Inv w1" using keep [OF less.prems] one Some by simp
    ultimately obtain v w' where "requeue run w1 = Some w' \<and> Inv v \<and> run v = (w', None)"
      using less.hyps by blast
    moreover have "requeue run w = requeue run w1" using one Some by (simp add: requeue.simps [of run w])
    ultimately show ?thesis by metis
  qed
qed

text \<open>Conversely, a loop that ends does so with a successful run, from a state the failed ones kept.\<close>

lemma requeue_last:
  assumes loop: "requeue run w = Some w'"
    and keep: "\<And>v v' e. P v \<Longrightarrow> run v = (v', Some e) \<Longrightarrow> P v'" and start: "P w"
  shows "\<exists>v. P v \<and> run v = (w', None)"
proof -
  have "(\<forall>v v' e. P v \<longrightarrow> run v = (v', Some e) \<longrightarrow> P v') \<longrightarrow> P w \<longrightarrow> (\<exists>v. P v \<and> run v = (w', None))"
  proof (rule requeue.raw_induct [OF _ loop, where P = "\<lambda>run w w'.
      (\<forall>v v' e. P v \<longrightarrow> run v = (v', Some e) \<longrightarrow> P v') \<longrightarrow> P w \<longrightarrow> (\<exists>v. P v \<and> run v = (w', None))"],
      intro impI)
    fix loop run w w'
    assume IH: "\<And>run w w'. loop run w = Some w' \<Longrightarrow> (\<forall>v v' e. P v \<longrightarrow> run v = (v', Some e) \<longrightarrow> P v') \<longrightarrow> P w
        \<longrightarrow> (\<exists>v. P v \<and> run v = (w', None))"
      and eq: "(case run w of (v, None) \<Rightarrow> Some v | (v, Some e) \<Rightarrow> loop run v) = Some w'"
      and keep: "\<forall>v v' e. P v \<longrightarrow> run v = (v', Some e) \<longrightarrow> P v'" and P: "P w"
    obtain v r where one: "run w = (v, r)" by fastforce
    show "\<exists>v. P v \<and> run v = (w', None)"
    proof (cases r)
      case None
      with eq P one show ?thesis by auto
    next
      case (Some e)
      with eq one have "loop run v = Some w'" by simp
      moreover have "P v" using keep P one Some by blast
      ultimately show ?thesis using IH keep by blast
    qed
  qed
  with keep start show ?thesis by blast
qed

lemma requeue_never:
  assumes keep: "\<And>v v' e. P v \<Longrightarrow> run v = (v', Some e) \<Longrightarrow> P v'" and fails: "\<And>v v'. P v \<Longrightarrow> run v \<noteq> (v', None)" and start: "P w"
  shows "requeue run w = None"
proof (cases "requeue run w")
  case (Some w')
  from requeue_last [OF Some, of P] keep start fails show ?thesis by blast
qed

section \<open>A reconciler among transient faults\<close>

text \<open>\<open>deployable r x\<close>: with the rest of the world being \<open>r\<close>, nothing but faults keeps the live object \<open>x\<close>
  from being deployed.\<close>

locale transient = reconciler ok get update deleting has_fin add_fin rem_fin resolve with_provider apply_obj
    delete_obj reconcile mine stored works keys ident others
  for ok :: bool
    and get :: "'w \<Rightarrow> 'w \<times> (kerr + 'o)"
    and update :: "'o \<Rightarrow> 'w \<Rightarrow> 'w \<times> (kerr + 'o)"
    and deleting has_fin :: "'o \<Rightarrow> bool"
    and add_fin rem_fin :: "'o \<Rightarrow> 'o"
    and resolve :: "'o \<Rightarrow> 'w \<Rightarrow> 'w \<times> (resolve_error + provider_spec)"
    and with_provider :: "provider_spec \<Rightarrow> 'o \<Rightarrow> 'o"
    and apply_obj delete_obj :: "'o \<Rightarrow> ('w, md_error) action"
    and reconcile :: "('w, rec_error) action"
    and mine :: "'o \<Rightarrow> bool"
    and stored :: "'w \<Rightarrow> 'o option"
    and works :: "'w \<Rightarrow> work_view"
    and keys :: "'o \<Rightarrow> (string \<times> string) set"
    and ident :: "'o \<Rightarrow> 'i"
    and others :: "'w \<Rightarrow> 'r" +
  fixes faults :: "'w \<Rightarrow> nat"
    and deployable :: "'r \<Rightarrow> 'o \<Rightarrow> bool"
  assumes get_lowers: "ok \<Longrightarrow> get w = (w', r) \<Longrightarrow> lowers faults (\<exists>e. r = Inl e \<and> e \<noteq> KNotFound) w w'"
    and update_lowers: "ok \<Longrightarrow> mine x \<Longrightarrow> stored w \<noteq> None \<Longrightarrow> update x w = (w', r) \<Longrightarrow>
      lowers faults (\<exists>e. r = Inl e) w w'"
    and delete_lowers: "ok \<Longrightarrow> delete_obj x w = (w', s) \<Longrightarrow> lowers faults (s \<noteq> None) w w'"
    and resolve_lowers: "ok \<Longrightarrow> deployable (others w) x \<Longrightarrow> resolve x w = (w', q) \<Longrightarrow> lowers faults (\<exists>e. q = Inl e) w w'"
    and apply_lowers: "ok \<Longrightarrow> deployable (others w) x \<Longrightarrow> resolve x v = (w, Inr p) \<Longrightarrow>
      apply_obj (with_provider p x) w = (w', s) \<Longrightarrow> lowers faults (s \<noteq> None) w w'"
    and deployable_ident: "ident y = ident x \<Longrightarrow> deployable rest y = deployable rest x"
begin

text \<open>A live object goes through the stages of a run; each failure is a fault.\<close>

lemma live_run_lowers:
  assumes ok: "ok" and get: "get w = (w1, Inr x)" and live: "\<not> deleting x" and ready: "deployable (others w) x"
    and run: "reconcile w = (w', r)"
  shows "lowers faults (r \<noteq> None) w1 w'"
proof -
  note reads = get_reads [OF ok get]
  then have x: "stored w1 = Some x" "mine x" "others w1 = others w" by simp_all
  obtain w2 g2 where a: "(if \<not> has_fin x then update (add_fin x) w1 else (w1, Inr x)) = (w2, g2)"
    by fastforce
  have "lowers faults (\<exists>e. g2 = Inl e) w1 w2 \<and> others w2 = others w \<and> (\<forall>y. g2 = Inr y \<longrightarrow> ident y = ident x)"
  proof (cases "has_fin x")
    case True
    with a x show ?thesis by auto
  next
    case False
    with a have u: "update (add_fin x) w1 = (w2, g2)" by simp
    note add = add_fin [OF ok, of x]
    from add x have mine: "mine (add_fin x)" by simp
    from update_writes [OF ok mine u] add x update_lowers [OF ok mine _ u] show ?thesis
      by (auto simp: upd_def)
  qed
  then have up: "lowers faults (\<exists>e. g2 = Inl e) w1 w2" "others w2 = others w" "\<And>y. g2 = Inr y \<Longrightarrow> ident y = ident x"
    by blast+
  show ?thesis
  proof (cases g2)
    case (Inl e)
    with run get live a up(1) show ?thesis by (auto simp: reconcile_flow)
  next
    case (Inr y)
    obtain w3 q where res: "resolve y w2 = (w3, q)" by fastforce
    have flow: "reconcile w = (case q of Inl e \<Rightarrow> (w3, Some (ResolveFailed e))
        | Inr p \<Rightarrow> (case apply_obj (with_provider p y) w3 of (w4, Some err) \<Rightarrow> (w4, Some (MDFailed err)) | (w4, None) \<Rightarrow> (w4, None)))"
      unfolding reconcile_flow get prod.case sum.case using live a Inr res by simp
    have dep: "deployable (others w2) y" "deployable (others w3) y"
      using ready up(2) deployable_ident [OF up(3) [OF Inr]] resolve_reads [OF ok res] by simp_all
    have l: "lowers faults (\<exists>e. q = Inl e) w1 w3"
      by (rule lowers_trans [OF up(1) resolve_lowers [OF ok dep(1) res]]) simp
    show ?thesis
    proof (cases q)
      case e: (Inl e)
      with run flow l show ?thesis by auto
    next
      case p: (Inr p)
      obtain w4 s where ap: "apply_obj (with_provider p y) w3 = (w4, s)" by fastforce
      have "lowers faults (s \<noteq> None) w3 w4" by (rule apply_lowers [OF ok dep(2) res [unfolded p] ap])
      with l have "lowers faults (s \<noteq> None) w1 w4" by (rule lowers_trans) simp
      with run flow p ap show ?thesis by (auto split: option.splits)
    qed
  qed
qed

lemma run_lowers:
  assumes ok: "ok" and run: "reconcile w = (w', r)"
    and ready: "\<And>x. stored w = Some x \<Longrightarrow> \<not> deleting x \<Longrightarrow> deployable (others w) x"
  shows "lowers faults (r \<noteq> None) w w'"
proof -
  obtain w1 g where get: "get w = (w1, g)" by fastforce
  note l1 = get_lowers [OF ok get]
  show ?thesis
  proof (cases g)
    case (Inl e)
    with run get l1 show ?thesis by (cases "e = KNotFound") (auto simp: reconcile_flow)
  next
    case (Inr x)
    with get_reads [OF ok get] have x: "stored w = Some x" "stored w1 = Some x" "mine x" by simp_all
    have "lowers faults (r \<noteq> None) w1 w'"
    proof (cases "deleting x")
      case False
      with x(1) ready show ?thesis by (intro live_run_lowers [OF ok get [unfolded Inr] False _ run]) simp
    next
      case True
      obtain w2 s where d: "delete_obj x w1 = (w2, s)" by fastforce
      note l2 = delete_lowers [OF ok d]
      obtain w3 q where u: "update (rem_fin x) w2 = (w3, q)" by fastforce
      have "mine (rem_fin x)" "stored w2 \<noteq> None" using rem_fin [OF ok] x delete_writesD(1) [OF ok d] by simp_all
      note l3 = update_lowers [OF ok this u]
      from run get Inr True d u have "w' = w1 \<and> r = None \<or> s \<noteq> None \<and> w' = w2
          \<or> s = None \<and> w' = w3 \<and> (r \<noteq> None \<longrightarrow> (\<exists>e. q = Inl e))"
        by (auto simp: reconcile_flow split: if_splits option.splits sum.splits)
      then show ?thesis
        using l2 lowers_trans [OF l2 l3, of "r \<noteq> None"] by (auto intro: lowers_weaken)
    qed
    with l1 show ?thesis by (rule lowers_trans) simp
  qed
qed

text \<open>What a run, failed or not, keeps of a live object and of one that is being deleted.\<close>

lemma live_kept:
  assumes "ok" "reconcile w = (w', r)" "stored w = Some x" "\<not> deleting x"
  shows "\<exists>y. stored w' = Some y \<and> \<not> deleting y \<and> ident y = ident x"
  using assms(1,2)
proof (cases rule: stages)
  case (add_failed x' w1 e)
  note add = add_fin [OF assms(1), of x']
  then have "mine (add_fin x')" using add_failed(2) by simp
  from update_writes [OF assms(1) this add_failed(7)] add add_failed assms show ?thesis
    by (auto simp: upd_def)
next
  case (guarded x' y w2 w3 q)
  have "stored w' = Some y" by (rule guarded_end(1) [OF assms(1) guarded(9,7,10)])
  with guarded assms show ?thesis by auto
qed (use assms in auto)

text \<open>Deleted but for the finalizer, or cleaned up.\<close>

definition cleaned_up :: "(string \<times> string) set \<Rightarrow> 'w \<Rightarrow> bool" where
  "cleaned_up ks w \<longleftrightarrow> (\<forall>key. key \<in> ks \<longrightarrow> works w key = None)
     \<and> (stored w = None \<or> (\<exists>z. stored w = Some z \<and> deleting z \<and> \<not> has_fin z))"

definition dying :: "(string \<times> string) set \<Rightarrow> 'w \<Rightarrow> bool" where
  "dying ks w \<longleftrightarrow> cleaned_up ks w \<or> (\<exists>y. stored w = Some y \<and> deleting y \<and> has_fin y \<and> keys y = ks)"

lemma cleaned_up_kept:
  assumes "ok" "reconcile w = (w', r)" "cleaned_up ks w"
  shows "cleaned_up ks w'"
  using assms(1,2) by (cases rule: stages) (use assms(3) in \<open>auto simp: cleaned_up_def simp del: split_paired_All\<close>)

lemma dying_kept:
  assumes ok: "ok" and run: "reconcile w = (w', r)" and dying: "dying ks w"
  shows "dying ks w' \<and> (r = None \<longrightarrow> cleaned_up ks w')"
proof (cases "cleaned_up ks w")
  case True
  with cleaned_up_kept [OF ok run] show ?thesis by (simp add: dying_def)
next
  case False
  with dying obtain x where x: "stored w = Some x" "deleting x" "has_fin x" "keys x = ks"
    unfolding dying_def by blast
  from ok run show ?thesis
  proof (cases rule: stages)
    case unread
    then have "r \<noteq> None" using get_reads [OF ok] x(1) by fastforce
    with unread x show ?thesis by (auto simp: dying_def)
  next
    case (delete_failed x' w1 e)
    then have "stored w' = Some x" using delete_writesD(1) [OF ok delete_failed(6)] x(1) by simp
    with delete_failed x show ?thesis by (simp add: dying_def)
  next
    case (deleted x' w1 w2 q)
    with x have x': "x' = x" by simp
    note e = deleted_end [OF ok deleted(2,7,8)]
    have none: "\<forall>key. key \<in> ks \<longrightarrow> works w' key = None" using e(1) x' x(4) by blast
    have "mine (rem_fin x')" using rem_fin [OF ok] deleted(2) by simp
    note u = update_writes [OF ok this deleted(8)]
    have "stored w2 = Some x" using delete_writesD(1) [OF ok deleted(7)] deleted(5) x(1) by simp
    then have "stored w' = Some x \<and> (\<exists>e. q = Inl e)
        \<or> stored w' = None \<or> (\<exists>z. stored w' = Some z \<and> deleting z \<and> \<not> has_fin z)"
      using u rem_fin [OF ok] deleted(3) by (cases q) (auto simp: upd_def)
    then show ?thesis
    proof
      assume "stored w' = Some x \<and> (\<exists>e. q = Inl e)"
      with x deleted(9) show ?thesis by (auto simp: dying_def)
    next
      assume "stored w' = None \<or> (\<exists>z. stored w' = Some z \<and> deleting z \<and> \<not> has_fin z)"
      with none have "cleaned_up ks w'" unfolding cleaned_up_def by (intro conjI)
      then show ?thesis by (simp add: dying_def)
    qed
  qed (use x in auto)
qed

text \<open>The requeue loop ends: a dying object is cleaned up, a live one deployed.\<close>

lemma deletion_terminates:
  assumes ok: "ok" and x: "stored w = Some x" "deleting x" "has_fin x"
  shows "\<exists>w'. requeue reconcile w = Some w' \<and> cleaned_up (keys x) w'"
proof -
  have "\<exists>v w'. requeue reconcile w = Some w' \<and> dying (keys x) v \<and> reconcile v = (w', None)"
  proof (rule requeue_terminates)
    show "dying (keys x) w" using x by (simp add: dying_def)
    show "lowers faults (q \<noteq> None) v v'" if "dying (keys x) v" "reconcile v = (v', q)" for v v' q
      by (rule run_lowers [OF ok that(2)]) (use that(1) in \<open>auto simp: dying_def cleaned_up_def\<close>)
    show "dying (keys x) v'" if "dying (keys x) v" "reconcile v = (v', Some e)" for v v' e
      using dying_kept [OF ok that(2,1)] by simp
  qed
  then obtain v w' where v: "requeue reconcile w = Some w'" "dying (keys x) v" "reconcile v = (w', None)" by blast
  from dying_kept [OF ok v(3,2)] v(1) show ?thesis by blast
qed

lemma deployment_terminates:
  assumes ok: "ok" and x: "stored w = Some x" "\<not> deleting x" "deployable (others w) x"
  shows "\<exists>v y w'. requeue reconcile w = Some w' \<and> reconcile v = (w', None) \<and> stored v = Some y \<and> \<not> deleting y
    \<and> ident y = ident x \<and> others v = others w"
proof -
  let ?Inv = "\<lambda>v. others v = others w \<and> (\<exists>y. stored v = Some y \<and> \<not> deleting y \<and> ident y = ident x)"
  have "\<exists>v w'. requeue reconcile w = Some w' \<and> ?Inv v \<and> reconcile v = (w', None)"
  proof (rule requeue_terminates)
    show "?Inv w" using x by simp
    show "lowers faults (q \<noteq> None) v v'" if inv: "?Inv v" and run: "reconcile v = (v', q)" for v v' q
    proof (rule run_lowers [OF ok run])
      fix z
      assume "stored v = Some z"
      with inv have "ident z = ident x" "others v = others w" by auto
      with x(3) show "deployable (others v) z" by (simp add: deployable_ident [of z x])
    qed
    show "?Inv v'" if inv: "?Inv v" and run: "reconcile v = (v', Some e)" for v v' e
    proof -
      from inv obtain y where y: "stored v = Some y" "\<not> deleting y" "ident y = ident x" by blast
      from live_kept [OF ok run y(1,2)] y(3) others_kept [OF ok run] inv show ?thesis by auto
    qed
  qed
  then obtain v w' y where "requeue reconcile w = Some w'" "reconcile v = (w', None)" "others v = others w"
    "stored v = Some y" "\<not> deleting y" "ident y = ident x" by (elim exE conjE) (rule that)
  then show ?thesis by (intro exI conjI)
qed

end

section \<open>The hub and the clusters among transient faults\<close>

text \<open>Every failed call uses up a fault: reading, except that an object that is not stored is reported so;
  updating and creating what can be updated and created; deleting. Nothing makes faults.\<close>

definition kube_faults :: "'w kube \<Rightarrow> ('w \<Rightarrow> work_view) \<Rightarrow> ('w \<Rightarrow> nat) \<Rightarrow> bool" where
  "kube_faults k works faults \<longleftrightarrow>
     (\<forall>ns name w w' r. k_get_work k ns name w = (w', r) \<longrightarrow> lowers faults (\<exists>e. r = Inl e \<and> e \<noteq> KNotFound) w w')
     \<and> (\<forall>mw w w' r. k_create_work k mw w = (w', r) \<longrightarrow> lowers faults (works w (work_key mw) = None \<and> r \<noteq> None) w w')
     \<and> (\<forall>mw w w' r. k_update_work k mw w = (w', r) \<longrightarrow> lowers faults (works w (work_key mw) \<noteq> None \<and> r \<noteq> None) w w')
     \<and> (\<forall>ns name w w' r. k_delete_work k ns name w = (w', r) \<longrightarrow> lowers faults (ignore_not_found r \<noteq> None) w w')"

definition hub_faults :: "'w hub \<Rightarrow> ('w \<Rightarrow> string \<times> string \<rightharpoonup> slice_network) \<Rightarrow> ('w \<Rightarrow> string \<times> string \<rightharpoonup> slice_overlay)
    \<Rightarrow> ('w \<Rightarrow> string \<times> string \<rightharpoonup> provider_profile) \<Rightarrow> ('w \<Rightarrow> nat) \<Rightarrow> bool" where
  "hub_faults h networks overlays profiles faults \<longleftrightarrow>
     (\<forall>ns name w w' r. h_get_network h ns name w = (w', r) \<longrightarrow> lowers faults (\<exists>e. r = Inl e \<and> e \<noteq> KNotFound) w w')
     \<and> (\<forall>ns name w w' r. h_get_overlay h ns name w = (w', r) \<longrightarrow> lowers faults (\<exists>e. r = Inl e \<and> e \<noteq> KNotFound) w w')
     \<and> (\<forall>ns name w w' r. h_get_profile h ns name w = (w', r) \<longrightarrow>
          lowers faults (profiles w (ns, name) \<noteq> None \<and> (\<exists>e. r = Inl e)) w w')
     \<and> (\<forall>x w w' r. h_update_network h x w = (w', r) \<longrightarrow>
          lowers faults (networks w (net_namespace x, net_name x) \<noteq> None \<and> (\<exists>e. r = Inl e)) w w')
     \<and> (\<forall>x w w' r. h_update_overlay h x w = (w', r) \<longrightarrow>
          lowers faults (overlays w (overlay_namespace x, overlay_name x) \<noteq> None \<and> (\<exists>e. r = Inl e)) w w')"

lemma kube_faultsD:
  assumes "kube_faults k works faults"
  shows "k_get_work k ns name w = (w', g) \<Longrightarrow> lowers faults (\<exists>e. g = Inl e \<and> e \<noteq> KNotFound) w w'"
    and "k_create_work k mw w = (w', r) \<Longrightarrow> lowers faults (works w (work_key mw) = None \<and> r \<noteq> None) w w'"
    and "k_update_work k mw w = (w', r) \<Longrightarrow> lowers faults (works w (work_key mw) \<noteq> None \<and> r \<noteq> None) w w'"
    and "k_delete_work k ns name w = (w', r) \<Longrightarrow> lowers faults (ignore_not_found r \<noteq> None) w w'"
  using assms unfolding kube_faults_def by blast+

lemma hub_faultsD:
  assumes "hub_faults h networks overlays profiles faults"
  shows "h_get_network h ns name w = (w', gn) \<Longrightarrow> lowers faults (\<exists>e. gn = Inl e \<and> e \<noteq> KNotFound) w w'"
    and "h_get_overlay h ns name w = (w', go) \<Longrightarrow> lowers faults (\<exists>e. go = Inl e \<and> e \<noteq> KNotFound) w w'"
    and "h_get_profile h ns name w = (w', gp) \<Longrightarrow> lowers faults (profiles w (ns, name) \<noteq> None \<and> (\<exists>e. gp = Inl e)) w w'"
    and "h_update_network h n w = (w', un) \<Longrightarrow>
      lowers faults (networks w (net_namespace n, net_name n) \<noteq> None \<and> (\<exists>e. un = Inl e)) w w'"
    and "h_update_overlay h s w = (w', uo) \<Longrightarrow>
      lowers faults (overlays w (overlay_namespace s, overlay_name s) \<noteq> None \<and> (\<exists>e. uo = Inl e)) w w'"
proof -
  note f = assms [unfolded hub_faults_def]
  show "h_get_network h ns name w = (w', gn) \<Longrightarrow> lowers faults (\<exists>e. gn = Inl e \<and> e \<noteq> KNotFound) w w'"
    by (rule conjunct1 [OF f, rule_format])
  show "h_get_overlay h ns name w = (w', go) \<Longrightarrow> lowers faults (\<exists>e. go = Inl e \<and> e \<noteq> KNotFound) w w'"
    by (rule conjunct1 [OF conjunct2 [OF f], rule_format])
  show "h_get_profile h ns name w = (w', gp) \<Longrightarrow> lowers faults (profiles w (ns, name) \<noteq> None \<and> (\<exists>e. gp = Inl e)) w w'"
    by (rule conjunct1 [OF conjunct2 [OF conjunct2 [OF f]], rule_format])
  show "h_update_network h n w = (w', un) \<Longrightarrow>
      lowers faults (networks w (net_namespace n, net_name n) \<noteq> None \<and> (\<exists>e. un = Inl e)) w w'"
    by (rule conjunct1 [OF conjunct2 [OF conjunct2 [OF conjunct2 [OF f]]], rule_format])
  show "h_update_overlay h s w = (w', uo) \<Longrightarrow>
      lowers faults (overlays w (overlay_namespace s, overlay_name s) \<noteq> None \<and> (\<exists>e. uo = Inl e)) w w'"
    by (rule conjunct2 [OF conjunct2 [OF conjunct2 [OF conjunct2 [OF f]]], rule_format])
qed

lemma applyManifestWork_lowers:
  assumes laws: "work_laws k works" and f: "kube_faults k works faults"
    and run: "applyManifestWork k d w = (w', r)"
  shows "lowers faults (r \<noteq> None) w w'"
proof -
  have attempt: "lowers faults (q \<noteq> None) v v'" if a: "apply_attempt k d v = (v', q)" for v v' q
  proof -
    obtain v1 g where get: "k_get_work k (mw_namespace d) (mw_name d) v = (v1, g)" by fastforce
    note l1 = kube_faultsD(1) [OF f get] and read = get_lawD [OF laws get]
    show ?thesis
    proof (cases g)
      case (Inl e)
      show ?thesis
      proof (cases "e = KNotFound")
        case True
        with a get Inl have c: "k_create_work k d v1 = (v', q)" by (simp add: apply_attempt_def ignore_not_found_def)
        have "works v1 (work_key d) = None" using read(1,2) Inl True by (simp add: work_key_def)
        with kube_faultsD(2) [OF f c] have "lowers faults (q \<noteq> None) v1 v'" by simp
        with l1 show ?thesis by (rule lowers_trans) simp
      next
        case False
        with a get Inl l1 show ?thesis by (auto simp: apply_attempt_def ignore_not_found_def)
      qed
    next
      case (Inr cur)
      let ?u = "cur\<lparr>mw_labels := mw_labels d, mw_manifests := mw_manifests d\<rparr>"
      have u: "k_update_work k ?u v1 = (v', q)" using a get Inr by (simp add: apply_attempt_def)
      have "work_key ?u = work_key cur" by (simp add: work_key_def)
      then have "works v1 (work_key ?u) \<noteq> None" using read(1) read(3) [OF Inr] by simp
      with kube_faultsD(3) [OF f u] have "lowers faults (q \<noteq> None) v1 v'" by simp
      with l1 show ?thesis by (rule lowers_trans) simp
    qed
  qed
  obtain n where "k_retry_on_conflict k (apply_attempt k d) w = retry_steps n (apply_attempt k d) w"
    using laws unfolding work_laws_def retry_law_def by meson
  with run have "retry_steps n (apply_attempt k d) w = (w', r)" by (simp add: applyManifestWork_def)
  with attempt show ?thesis by (rule retry_steps_lowers)
qed

lemma delete_works_lower:
  assumes f: "kube_faults k works faults" and run: "for_each (delete_work_step k name) cs w = (w', r)"
  shows "lowers faults (r \<noteq> None) w w'"
proof (rule for_each_lowers [OF run])
  fix c v v' q
  assume step: "delete_work_step k name c v = (v', q)"
  obtain v1 e where d: "k_delete_work k c name v = (v1, e)" by fastforce
  from step d have "v' = v1" "q \<noteq> None \<longrightarrow> ignore_not_found e \<noteq> None"
    by (auto simp: delete_work_step_def split: option.splits if_splits)
  with kube_faultsD(4) [OF f d] show "lowers faults (q \<noteq> None) v v'" by (auto intro: lowers_weaken)
qed

lemma delete_lowers:
  assumes f: "kube_faults k works faults"
  shows "ocm_DeleteNetwork k n ns w = (w', r) \<Longrightarrow> lowers faults (r \<noteq> None) w w'"
    and "ocm_DeleteSlice k s ns w = (w', r) \<Longrightarrow> lowers faults (r \<noteq> None) w w'"
  by (auto simp: ocm_DeleteNetwork_def ocm_DeleteSlice_def split: option.splits
      dest: delete_works_lower [OF f])

lemma apply_network_lowers:
  assumes laws: "work_laws k works" and f: "kube_faults k works faults"
    and run: "ocm_ApplyNetwork k n ns w = (w', r)" and content: "network_content k n ns \<noteq> None"
  shows "lowers faults (r \<noteq> None) w w'"
proof (rule for_each_lowers [OF run [unfolded ocm_ApplyNetwork_loop]])
  fix c v v' q
  let ?obj = "network_object k n ns"
  assume step: "apply_network_step k (projr (ConstructL2NetworkFromL2smmd (k_lib k) n)) (DefaultIfEmpty ns ''default'') c v = (v', q)"
  have obj: "(projr (ConstructL2NetworkFromL2smmd (k_lib k) n))\<lparr>l2_meta :=
      (l2_meta (projr (ConstructL2NetworkFromL2smmd (k_lib k) n)))\<lparr>m_namespace := DefaultIfEmpty ns ''default''\<rparr>\<rparr> = ?obj"
    by (simp add: ConstructL2NetworkFromL2smmd_def network_object_def GetKind_def empty_meta_def)
  from content obtain m where m: "toManifest k (ObjL2Network ?obj) = Inr m"
    by (auto simp: network_content_def result_of_def split: sum.splits)
  obtain v1 e where a: "applyManifestWork k (newManifestWork k c (m_name (l2_meta ?obj)) [m]) v = (v1, e)" by fastforce
  have "v' = v1" "q \<noteq> None \<longleftrightarrow> e \<noteq> None"
    using step a unfolding apply_network_step_def Let_def obj m by (auto split: option.splits)
  with applyManifestWork_lowers [OF laws f a] show "lowers faults (q \<noteq> None) v v'" by simp
qed

end
