(* ===== verification/RequeueEnds.thy ===== *)
theory RequeueEnds
  imports Requeue
begin

text \<open>
  The requeue loop of both controllers with the OCM client: the locale \<open>transient\<close> interpreted on
  \<open>SliceNetworkReconciler.Reconcile\<close> and \<open>SliceOverlayReconciler.Reconcile\<close>, the claims that the loop
  ends, and a hub with faults for their witnesses.
\<close>

section \<open>Slices\<close>

lemma apply_slice_lowers:
  assumes laws: "work_laws k works" and f: "kube_faults k works faults"
    and run: "ocm_ApplySlice k s ns w = (w', r)" and gw: "has_gateways s"
    and t: "sos_topology (so_spec s) = Some t" "slice_monitoring k s (ot_nodes t) = Some (Inr (gen, nodes))"
    and content: "\<And>c. c \<in> set (ot_nodes t) \<Longrightarrow> static_slice_content k s ns (oc_name c) \<noteq> None"
  shows "lowers faults (r \<noteq> None) w w'"
proof -
  let ?ns = "DefaultIfEmpty ns ''he-codeco-netma''"
  let ?maps = "static_maps (ot_nodes t) Map.empty"
  have res: "resolve_clusters k (ot_nodes t) Map.empty w = (w, Inr ?maps)"
    using gw t(1) by (intro resolve_static) (simp add: has_gateways_def slice_nodes_def)
  have loop: "for_each (apply_slice_step k gen nodes ?maps (slice_links t) (overlay_name s) ?ns) (ot_nodes t) w = (w', r)"
    using run t res by (simp add: ocm_ApplySlice_def)
  show ?thesis
  proof (rule for_each_lowers [OF loop])
    fix c v v' q
    assume c: "c \<in> set (ot_nodes t)"
      and step: "apply_slice_step k gen nodes ?maps (slice_links t) (overlay_name s) ?ns c v = (v', q)"
    have "slice_content k gen nodes ?maps (slice_links t) ?ns (oc_name c) \<noteq> None"
      using content [OF c] by (simp add: static_slice_content_def t)
    from slice_content_ok [OF this] obtain ned j where
      ned: "ConstructNED (k_lib k) gen (ned_values ?maps nodes (slice_links t) (oc_name c)) = Some ned"
      and j: "toManifest k (ObjNED (in_namespace ?ns ned)) = Inr j" by blast
    obtain v1 e where a: "applyManifestWork k (newManifestWork k (oc_name c) (overlay_name s) [j]) v = (v1, e)" by fastforce
    have "v' = v1" "q \<noteq> None \<longleftrightarrow> e \<noteq> None"
      using step ned j a unfolding apply_slice_step_def ned_values_def [symmetric] in_namespace_def [symmetric] Let_def
      by (auto split: option.splits)
    with applyManifestWork_lowers [OF laws f a] show "lowers faults (q \<noteq> None) v v'" by simp
  qed
qed

section \<open>Objects that nothing but faults keeps from being deployed\<close>

definition network_deployable :: "'w kube \<Rightarrow> (string \<times> string \<rightharpoonup> provider_profile) \<Rightarrow> slice_network \<Rightarrow> bool" where
  "network_deployable k profiles n \<longleftrightarrow>
     (\<exists>p. network_provider profiles n = Some p \<and> network_content k (network_with_provider p n) (net_namespace n) \<noteq> None)"

text \<open>A slice with a topology, gateway addresses, a monitoring CIDR with room, and manifests for its devices.\<close>

definition slice_deployable :: "'w kube \<Rightarrow> (string \<times> string \<rightharpoonup> provider_profile) \<Rightarrow> slice_overlay \<Rightarrow> bool" where
  "slice_deployable k profiles s \<longleftrightarrow> has_gateways s
     \<and> (\<exists>p t gen nodes. slice_provider profiles s = Some p \<and> sos_topology (so_spec s) = Some t
          \<and> slice_monitoring k (overlay_with_provider p s) (ot_nodes t) = Some (Inr (gen, nodes))
          \<and> (\<forall>c \<in> set (ot_nodes t). static_slice_content k (overlay_with_provider p s) (overlay_namespace s) (oc_name c) \<noteq> None))"

definition transient_laws :: "'w hub \<Rightarrow> 'w kube \<Rightarrow> ('w \<Rightarrow> work_view) \<Rightarrow> ('w \<Rightarrow> string \<times> string \<rightharpoonup> slice_network)
    \<Rightarrow> ('w \<Rightarrow> string \<times> string \<rightharpoonup> slice_overlay) \<Rightarrow> ('w \<Rightarrow> string \<times> string \<rightharpoonup> provider_profile) \<Rightarrow> ('w \<Rightarrow> nat) \<Rightarrow> bool" where
  "transient_laws h k works networks overlays profiles faults \<longleftrightarrow>
     (system_laws h k works networks overlays \<and> profile_laws h k profiles)
     \<and> kube_faults k works faults \<and> hub_faults h networks overlays profiles faults"

lemma transient_lawsD:
  assumes "transient_laws h k works networks overlays profiles faults"
  shows "system_laws h k works networks overlays" and "profile_laws h k profiles"
    and "kube_faults k works faults" and "hub_faults h networks overlays profiles faults" and "work_laws k works"
  using assms system_lawsD(1) unfolding transient_laws_def by blast+

lemma resolve_reference_lowers:
  assumes f: "hub_faults h networks overlays profiles faults" and run: "resolveProviderReference h ns ref w = (w', q)"
    and known: "provider_of (profiles w) None ns ref = Some p"
  shows "lowers faults (\<exists>e. q = Inl e) w w'"
proof -
  obtain pns pname where read: "profile_read None ns ref = Some (pns, pname)" by (simp add: profile_read_def)
  obtain w1 g where g: "h_get_profile h pns pname w = (w1, g)" by fastforce
  have "profiles w (pns, pname) \<noteq> None" using known by (auto simp: provider_of_def read)
  moreover have "w' = w1" "(\<exists>e. q = Inl e) \<longrightarrow> (\<exists>e. g = Inl e)"
    using run g unfolding resolveProviderReference_read [OF read] by (auto split: sum.splits)
  ultimately show ?thesis using hub_faultsD(3) [OF f g] by (auto intro: lowers_weaken)
qed

lemma resolve_lowers:
  assumes "hub_faults h networks overlays profiles faults"
  shows "resolveNetworkProvider h n w = (w', q) \<Longrightarrow> network_provider (profiles w) n = Some p \<Longrightarrow>
      lowers faults (\<exists>e. q = Inl e) w w'"
    and "resolveOverlayProvider h s w = (w', q) \<Longrightarrow> slice_provider (profiles w) s = Some p \<Longrightarrow>
      lowers faults (\<exists>e. q = Inl e) w w'"
  using resolve_reference_lowers [OF assms]
  by (auto simp: resolveNetworkProvider_def network_provider_def resolveOverlayProvider_def slice_provider_def
      split: option.splits)

interpretation net_tr: transient "transient_laws h k works networks overlays profiles faults"
    "h_get_network h (rq_namespace req) (rq_name req)" "h_update_network h"
    "\<lambda>n. \<not> deletion_is_zero (sn_meta n)" "network_ContainsFinalizer h" "network_AddFinalizer h"
    "network_RemoveFinalizer h" "resolveNetworkProvider h" network_with_provider
    "\<lambda>n. ocm_ApplyNetwork k n (net_namespace n)" "\<lambda>n. ocm_DeleteNetwork k n (net_namespace n)"
    "network_Reconcile h (Some (ocm_client k)) req"
    "\<lambda>n. net_namespace n = rq_namespace req \<and> net_name n = rq_name req"
    "\<lambda>w. networks w (rq_namespace req, rq_name req)" works "network_keys k" network_ident
    "\<lambda>w. (((networks w)((rq_namespace req, rq_name req) := None), overlays w), profiles w)"
    faults "\<lambda>rest. network_deployable k (snd rest)"
  for h :: "'w hub" and k :: "'w kube" and works networks overlays profiles faults req
proof (intro transient.intro transient_axioms.intro)
  show "reconciler (transient_laws h k works networks overlays profiles faults)
      (h_get_network h (rq_namespace req) (rq_name req)) (h_update_network h)
      (\<lambda>n. \<not> deletion_is_zero (sn_meta n)) (network_ContainsFinalizer h) (network_AddFinalizer h)
      (network_RemoveFinalizer h) (resolveNetworkProvider h) network_with_provider
      (\<lambda>n. ocm_ApplyNetwork k n (net_namespace n)) (\<lambda>n. ocm_DeleteNetwork k n (net_namespace n))
      (network_Reconcile h (Some (ocm_client k)) req)
      (\<lambda>n. net_namespace n = rq_namespace req \<and> net_name n = rq_name req)
      (\<lambda>w. networks w (rq_namespace req, rq_name req)) works (network_keys k) network_ident
      (\<lambda>w. (((networks w)((rq_namespace req, rq_name req) := None), overlays w), profiles w))"
    by (rule net_rec.extend, erule transient_lawsD,
        (rule profile_lawsD(2) [OF transient_lawsD(2)] profile_lawsD(4) [OF transient_lawsD(2)]
          resolve_profile(1) [OF transient_lawsD(2), THEN conjunct1] profiles_kept(1,2) [OF transient_lawsD(2)]; assumption)+)
next
  fix w w' r
  assume laws: "transient_laws h k works networks overlays profiles faults"
  note f = transient_lawsD(4) [OF laws]
  show "h_get_network h (rq_namespace req) (rq_name req) w = (w', r) \<Longrightarrow>
      lowers faults (\<exists>e. r = Inl e \<and> e \<noteq> KNotFound) w w'" by (rule hub_faultsD(1) [OF f])
  fix x
  show "lowers faults (\<exists>e. r = Inl e) w w'"
    if "net_namespace x = rq_namespace req \<and> net_name x = rq_name req"
      "networks w (rq_namespace req, rq_name req) \<noteq> None" "h_update_network h x w = (w', r)"
    using hub_faultsD(4) [OF f that(3)] that(1,2) by simp
  show "ocm_DeleteNetwork k x (net_namespace x) w = (w', s) \<Longrightarrow> lowers faults (s \<noteq> None) w w'" for s
    by (rule delete_lowers(1) [OF transient_lawsD(3) [OF laws]])
  show "lowers faults (\<exists>e. q = Inl e) w w'"
    if dep: "network_deployable k (snd (((networks w)((rq_namespace req, rq_name req) := None), overlays w), profiles w)) x"
      and run: "resolveNetworkProvider h x w = (w', q)" for q
    using dep resolve_lowers(1) [OF f run] by (auto simp: network_deployable_def)
  show "lowers faults (s \<noteq> None) w w'"
    if dep: "network_deployable k (snd (((networks w)((rq_namespace req, rq_name req) := None), overlays w), profiles w)) x"
      and res: "resolveNetworkProvider h x v = (w, Inr p)"
      and run: "ocm_ApplyNetwork k (network_with_provider p x) (net_namespace (network_with_provider p x)) w = (w', s)" for v p s
  proof (rule apply_network_lowers [OF transient_lawsD(5,3) [OF laws] run])
    have "network_provider (profiles w) x = Some p"
      using resolve_profile(1) [OF transient_lawsD(2) [OF laws] res] by simp
    with dep show "network_content k (network_with_provider p x) (net_namespace (network_with_provider p x)) \<noteq> None"
      by (simp add: network_deployable_def)
  qed
next
  fix x y :: slice_network and rest :: "((string \<times> string \<Rightarrow> slice_network option) \<times> (string \<times> string \<Rightarrow> slice_overlay option))
      \<times> (string \<times> string \<Rightarrow> provider_profile option)"
  assume i: "network_ident y = network_ident x"
  show "network_deployable k (snd rest) y = network_deployable k (snd rest) x"
    by (simp add: network_deployable_def network_cong [OF i])
qed

interpretation ov_tr: transient "transient_laws h k works networks overlays profiles faults"
    "h_get_overlay h (rq_namespace req) (rq_name req)" "h_update_overlay h"
    "\<lambda>n. \<not> deletion_is_zero (so_meta n)" "overlay_ContainsFinalizer h" "overlay_AddFinalizer h"
    "overlay_RemoveFinalizer h" "resolveOverlayProvider h" overlay_with_provider
    "\<lambda>n. ocm_ApplySlice k n (overlay_namespace n)" "\<lambda>n. ocm_DeleteSlice k n (overlay_namespace n)"
    "overlay_Reconcile h (Some (ocm_client k)) req"
    "\<lambda>n. overlay_namespace n = rq_namespace req \<and> overlay_name n = rq_name req"
    "\<lambda>w. overlays w (rq_namespace req, rq_name req)" works "slice_keys k" slice_ident
    "\<lambda>w. (((overlays w)((rq_namespace req, rq_name req) := None), networks w), profiles w)"
    faults "\<lambda>rest. slice_deployable k (snd rest)"
  for h :: "'w hub" and k :: "'w kube" and works networks overlays profiles faults req
proof (intro transient.intro transient_axioms.intro)
  show "reconciler (transient_laws h k works networks overlays profiles faults)
      (h_get_overlay h (rq_namespace req) (rq_name req)) (h_update_overlay h)
      (\<lambda>n. \<not> deletion_is_zero (so_meta n)) (overlay_ContainsFinalizer h) (overlay_AddFinalizer h)
      (overlay_RemoveFinalizer h) (resolveOverlayProvider h) overlay_with_provider
      (\<lambda>n. ocm_ApplySlice k n (overlay_namespace n)) (\<lambda>n. ocm_DeleteSlice k n (overlay_namespace n))
      (overlay_Reconcile h (Some (ocm_client k)) req)
      (\<lambda>n. overlay_namespace n = rq_namespace req \<and> overlay_name n = rq_name req)
      (\<lambda>w. overlays w (rq_namespace req, rq_name req)) works (slice_keys k) slice_ident
      (\<lambda>w. (((overlays w)((rq_namespace req, rq_name req) := None), networks w), profiles w))"
    by (rule ov_rec.extend, erule transient_lawsD,
        (rule profile_lawsD(3) [OF transient_lawsD(2)] profile_lawsD(5) [OF transient_lawsD(2)]
          resolve_profile(2) [OF transient_lawsD(2), THEN conjunct1] profiles_kept(3,4) [OF transient_lawsD(2)]; assumption)+)
next
  fix w w' r
  assume laws: "transient_laws h k works networks overlays profiles faults"
  note f = transient_lawsD(4) [OF laws]
  show "h_get_overlay h (rq_namespace req) (rq_name req) w = (w', r) \<Longrightarrow>
      lowers faults (\<exists>e. r = Inl e \<and> e \<noteq> KNotFound) w w'" by (rule hub_faultsD(2) [OF f])
  fix x
  show "lowers faults (\<exists>e. r = Inl e) w w'"
    if "overlay_namespace x = rq_namespace req \<and> overlay_name x = rq_name req"
      "overlays w (rq_namespace req, rq_name req) \<noteq> None" "h_update_overlay h x w = (w', r)"
    using hub_faultsD(5) [OF f that(3)] that(1,2) by simp
  show "ocm_DeleteSlice k x (overlay_namespace x) w = (w', s) \<Longrightarrow> lowers faults (s \<noteq> None) w w'" for s
    by (rule delete_lowers(2) [OF transient_lawsD(3) [OF laws]])
  show "lowers faults (\<exists>e. q = Inl e) w w'"
    if dep: "slice_deployable k (snd (((overlays w)((rq_namespace req, rq_name req) := None), networks w), profiles w)) x"
      and run: "resolveOverlayProvider h x w = (w', q)" for q
    using dep resolve_lowers(2) [OF f run] by (auto simp: slice_deployable_def)
  show "lowers faults (s \<noteq> None) w w'"
    if dep: "slice_deployable k (snd (((overlays w)((rq_namespace req, rq_name req) := None), networks w), profiles w)) x"
      and res: "resolveOverlayProvider h x v = (w, Inr p)"
      and run: "ocm_ApplySlice k (overlay_with_provider p x) (overlay_namespace (overlay_with_provider p x)) w = (w', s)" for v p s
  proof -
    have "slice_provider (profiles w) x = Some p"
      using resolve_profile(2) [OF transient_lawsD(2) [OF laws] res] by simp
    with dep obtain t gen nodes where d: "has_gateways x" "sos_topology (so_spec x) = Some t"
      "slice_monitoring k (overlay_with_provider p x) (ot_nodes t) = Some (Inr (gen, nodes))"
      "\<And>c. c \<in> set (ot_nodes t) \<Longrightarrow> static_slice_content k (overlay_with_provider p x) (overlay_namespace x) (oc_name c) \<noteq> None"
      by (auto simp: slice_deployable_def)
    show ?thesis
      by (rule apply_slice_lowers [OF transient_lawsD(5,3) [OF laws] run _ _ d(3)])
         (use d slice_wants_cong(5) [of x x p] in simp_all)
  qed
next
  fix x y :: slice_overlay and rest :: "((string \<times> string \<Rightarrow> slice_overlay option) \<times> (string \<times> string \<Rightarrow> slice_network option))
      \<times> (string \<times> string \<Rightarrow> provider_profile option)"
  assume i: "slice_ident y = slice_ident x"
  show "slice_deployable k (snd rest) y = slice_deployable k (snd rest) x"
    by (simp add: slice_deployable_def slice_wants_cong [OF i] slice_cong(1,5) [OF i])
qed

section \<open>The loop ends\<close>

text \<open>C7: termination for networks. When only finitely many calls to the hub and the clusters fail, running
  the reconciler of a stored network again after every error comes to an end. A network that is being
  deleted with the finalizer is cleaned up then: none of its ManifestWorks is left and it is gone, or
  stored without the finalizer. A live network whose provider is known and whose manifest can be made
  is deployed on every one of its clusters.\<close>

theorem network_requeue_ends:
  assumes laws: "transient_laws h k works networks overlays profiles faults"
    and n: "networks w (rq_namespace req, rq_name req) = Some n"
  shows "(\<not> deletion_is_zero (sn_meta n) \<longrightarrow> sliceNetworkFinalizer \<in> set (m_finalizers (sn_meta n)) \<longrightarrow>
        (\<exists>w'. requeue (network_Reconcile h (Some (ocm_client k)) req) w = Some w'
           \<and> (\<forall>key. key \<in> network_keys k n \<longrightarrow> works w' key = None)
           \<and> (\<forall>m. networks w' (rq_namespace req, rq_name req) = Some m \<longrightarrow>
                sliceNetworkFinalizer \<notin> set (m_finalizers (sn_meta m)))))
    \<and> (deletion_is_zero (sn_meta n) \<longrightarrow> network_deployable k (profiles w) n \<longrightarrow>
        (\<exists>w' p j. requeue (network_Reconcile h (Some (ocm_client k)) req) w = Some w'
           \<and> network_provider (profiles w) n = Some p
           \<and> toManifest k (ObjL2Network (network_object k (network_with_provider p n) (net_namespace n))) = Inr j
           \<and> (\<forall>c. c \<in> set (sns_clusters (sn_spec n)) \<longrightarrow>
                works w' (c, work_name k (net_name n)) = Some ([''app'' \<mapsto> ''l2sm''], [j]))))"
proof (intro conjI impI)
  have fin: "network_ContainsFinalizer h m \<longleftrightarrow> sliceNetworkFinalizer \<in> set (m_finalizers (sn_meta m))" for m
    by (simp add: network_ContainsFinalizer_def system_lawsD(2) [OF transient_lawsD(1) [OF laws]])
  assume d: "\<not> deletion_is_zero (sn_meta n)" "sliceNetworkFinalizer \<in> set (m_finalizers (sn_meta n))"
  from net_tr.deletion_terminates [OF laws n d(1) d(2) [folded fin]]
  show "\<exists>w'. requeue (network_Reconcile h (Some (ocm_client k)) req) w = Some w'
      \<and> (\<forall>key. key \<in> network_keys k n \<longrightarrow> works w' key = None)
      \<and> (\<forall>m. networks w' (rq_namespace req, rq_name req) = Some m \<longrightarrow>
           sliceNetworkFinalizer \<notin> set (m_finalizers (sn_meta m)))"
    unfolding net_tr.cleaned_up_def fin by (elim exE conjE) (intro exI conjI; assumption?; auto)
next
  assume live: "deletion_is_zero (sn_meta n)" and dep: "network_deployable k (profiles w) n"
  from dep obtain p where p: "network_provider (profiles w) n = Some p"
    and "network_content k (network_with_provider p n) (net_namespace n) \<noteq> None"
    unfolding network_deployable_def by (elim exE conjE) (rule that)
  from network_content_ok [OF this(2)] obtain j where
    j: "toManifest k (ObjL2Network (network_object k (network_with_provider p n) (net_namespace n))) = Inr j"
    and content: "network_content k (network_with_provider p n) (net_namespace n) = Some (deployed j)" by blast
  have "\<not> \<not> deletion_is_zero (sn_meta n)" using live by simp
  from net_tr.deployment_terminates [OF laws n this] dep
  obtain v m w' where run: "requeue (network_Reconcile h (Some (ocm_client k)) req) w = Some w'"
      "network_Reconcile h (Some (ocm_client k)) req v = (w', None)"
    and m: "networks v (rq_namespace req, rq_name req) = Some m" "deletion_is_zero (sn_meta m)"
      "network_ident m = network_ident n" "profiles v = profiles w" by auto
  note cong = network_cong [OF m(3)] network_object_cong(3,5) [OF m(3)]
  have "works w' = overwrite (works v) (network_wants k (profiles w) (Some m))"
    using network_run_wants [OF conjI [OF transient_lawsD(1,2) [OF laws]] run(2)] m(1,4) by simp
  moreover have "network_wants k (profiles w) (Some m) (c, work_name k (net_name n)) = Some (Some (deployed j))"
    if "c \<in> set (sns_clusters (sn_spec n))" for c
  proof -
    have "(c, work_name k (net_name n)) \<in> network_keys k n" using that by (auto simp: network_keys_def network_key_def)
    then show ?thesis
      using m(2) p by (simp add: network_wants_def wants_at_def cong content)
  qed
  ultimately have "\<forall>c. c \<in> set (sns_clusters (sn_spec n)) \<longrightarrow>
      works w' (c, work_name k (net_name n)) = Some ([''app'' \<mapsto> ''l2sm''], [j])" by (simp add: deployed_def)
  with run(1) p j show "\<exists>w' p j. requeue (network_Reconcile h (Some (ocm_client k)) req) w = Some w'
      \<and> network_provider (profiles w) n = Some p
      \<and> toManifest k (ObjL2Network (network_object k (network_with_provider p n) (net_namespace n))) = Inr j
      \<and> (\<forall>c. c \<in> set (sns_clusters (sn_spec n)) \<longrightarrow>
           works w' (c, work_name k (net_name n)) = Some ([''app'' \<mapsto> ''l2sm''], [j]))"
    by (intro exI conjI)
qed

text \<open>A slice that can never be applied: without a topology, or with a monitoring CIDR that has no addresses
  for its clusters.\<close>

definition slice_hopeless :: "slice_overlay \<Rightarrow> bool" where
  "slice_hopeless s \<longleftrightarrow> sos_topology (so_spec s) = None
     \<or> (\<exists>t mon e. sos_topology (so_spec s) = Some t \<and> sos_monitoring (so_spec s) = Some mon
          \<and> allocateMonitoringNodeIPs (monitoring_cidr mon) (ot_nodes t) = Some (Inl e))"

lemma hopeless_not_applied:
  assumes "work_laws k view" "slice_hopeless s"
  shows "ocm_ApplySlice k s ns w \<noteq> (w', None)"
proof
  assume "ocm_ApplySlice k s ns w = (w', None)"
  with assms(1) obtain t gen nodes where "sos_topology (so_spec s) = Some t"
    "slice_monitoring k s (ot_nodes t) = Some (Inr (gen, nodes))"
    by (rule ocm_ApplySlice_ok) (rule that)
  with assms(2) show False by (auto simp: slice_hopeless_def slice_monitoring_def Let_def)
qed

lemma hopeless_never_ends:
  assumes laws: "transient_laws h k works networks overlays profiles faults"
    and s: "overlays w (rq_namespace req, rq_name req) = Some s" "deletion_is_zero (so_meta s)" "slice_hopeless s"
  shows "requeue (overlay_Reconcile h (Some (ocm_client k)) req) w = None"
proof -
  let ?P = "\<lambda>v. \<exists>y. overlays v (rq_namespace req, rq_name req) = Some y \<and> \<not> \<not> deletion_is_zero (so_meta y)
      \<and> slice_ident y = slice_ident s"
  have start: "?P w" using s by simp
  have keep: "?P v'" if inv: "?P v" and run: "overlay_Reconcile h (Some (ocm_client k)) req v = (v', Some e)" for v v' e
  proof -
    from inv obtain y where y: "overlays v (rq_namespace req, rq_name req) = Some y" "\<not> \<not> deletion_is_zero (so_meta y)"
      "slice_ident y = slice_ident s" by blast
    from ov_tr.live_kept [OF laws run y(1,2)] y(3) show ?thesis by auto
  qed
  have fails: "overlay_Reconcile h (Some (ocm_client k)) req v \<noteq> (v', None)" if inv: "?P v" for v v'
  proof
    assume run: "overlay_Reconcile h (Some (ocm_client k)) req v = (v', None)"
    from inv obtain y where y: "overlays v (rq_namespace req, rq_name req) = Some y" "\<not> \<not> deletion_is_zero (so_meta y)"
      "slice_ident y = slice_ident s" by blast
    from ov_tr.deploys_by [OF laws run y(1,2)] obtain x p w3 where x: "slice_ident x = slice_ident y"
      "ocm_ApplySlice k (overlay_with_provider p x) (overlay_namespace (overlay_with_provider p x)) w3 = (v', None)" by blast
    have "slice_hopeless (overlay_with_provider p x)"
      using s(3) slice_cong(5) [of x s] x(1) y(3) by (simp add: slice_hopeless_def overlay_with_provider_def)
    from hopeless_not_applied [OF transient_lawsD(5) [OF laws] this] x(2) show False by blast
  qed
  show ?thesis by (rule requeue_never [where P = ?P, OF keep fails start])
qed

text \<open>C8: termination for slices, likewise: a dying slice with the finalizer is cleaned up, and a live one
  with a topology, gateway addresses, a known provider, room for its monitoring addresses and
  manifests for its edge devices is deployed on every cluster. These conditions matter: a live slice
  without a topology, or whose monitoring CIDR has no room for its clusters, is run again forever, even
  when no call fails.\<close>

theorem slice_requeue_ends:
  assumes laws: "transient_laws h k works networks overlays profiles faults"
    and s: "overlays w (rq_namespace req, rq_name req) = Some s"
  shows "(\<not> deletion_is_zero (so_meta s) \<longrightarrow> sliceOverlayFinalizer \<in> set (m_finalizers (so_meta s)) \<longrightarrow>
        (\<exists>w'. requeue (overlay_Reconcile h (Some (ocm_client k)) req) w = Some w'
           \<and> (\<forall>key. key \<in> slice_keys k s \<longrightarrow> works w' key = None)
           \<and> (\<forall>m. overlays w' (rq_namespace req, rq_name req) = Some m \<longrightarrow>
                sliceOverlayFinalizer \<notin> set (m_finalizers (so_meta m)))))
    \<and> (deletion_is_zero (so_meta s) \<longrightarrow> slice_deployable k (profiles w) s \<longrightarrow>
        (\<exists>w' p. requeue (overlay_Reconcile h (Some (ocm_client k)) req) w = Some w'
           \<and> slice_provider (profiles w) s = Some p
           \<and> (\<forall>c. c \<in> set (slice_nodes s) \<longrightarrow> (\<exists>content.
                static_slice_content k (overlay_with_provider p s) (overlay_namespace s) (oc_name c) = Some content
              \<and> works w' (oc_name c, work_name k (overlay_name s)) = Some content))))
    \<and> (deletion_is_zero (so_meta s) \<longrightarrow> sos_topology (so_spec s) = None
          \<or> (\<exists>t mon e. sos_topology (so_spec s) = Some t \<and> sos_monitoring (so_spec s) = Some mon
               \<and> allocateMonitoringNodeIPs (monitoring_cidr mon) (ot_nodes t) = Some (Inl e)) \<longrightarrow>
        requeue (overlay_Reconcile h (Some (ocm_client k)) req) w = None)"
proof (intro conjI; (intro impI)?)
  have fin: "overlay_ContainsFinalizer h m \<longleftrightarrow> sliceOverlayFinalizer \<in> set (m_finalizers (so_meta m))" for m
    by (simp add: overlay_ContainsFinalizer_def system_lawsD(2) [OF transient_lawsD(1) [OF laws]])
  assume d: "\<not> deletion_is_zero (so_meta s)" "sliceOverlayFinalizer \<in> set (m_finalizers (so_meta s))"
  from ov_tr.deletion_terminates [OF laws s d(1) d(2) [folded fin]]
  show "\<exists>w'. requeue (overlay_Reconcile h (Some (ocm_client k)) req) w = Some w'
      \<and> (\<forall>key. key \<in> slice_keys k s \<longrightarrow> works w' key = None)
      \<and> (\<forall>m. overlays w' (rq_namespace req, rq_name req) = Some m \<longrightarrow>
           sliceOverlayFinalizer \<notin> set (m_finalizers (so_meta m)))"
    unfolding ov_tr.cleaned_up_def fin by (elim exE conjE) (intro exI conjI; assumption?; auto)
next
  assume live: "deletion_is_zero (so_meta s)" and dep: "slice_deployable k (profiles w) s"
  from dep obtain p t where p: "slice_provider (profiles w) s = Some p" and gw: "has_gateways s"
    and t: "sos_topology (so_spec s) = Some t"
    and content: "\<forall>c \<in> set (ot_nodes t). static_slice_content k (overlay_with_provider p s) (overlay_namespace s) (oc_name c) \<noteq> None"
    unfolding slice_deployable_def by (elim exE conjE) (rule that)
  have "\<not> \<not> deletion_is_zero (so_meta s)" using live by simp
  from ov_tr.deployment_terminates [OF laws s this] dep
  obtain v m w' where run: "requeue (overlay_Reconcile h (Some (ocm_client k)) req) w = Some w'"
      "overlay_Reconcile h (Some (ocm_client k)) req v = (w', None)"
    and m: "overlays v (rq_namespace req, rq_name req) = Some m" "deletion_is_zero (so_meta m)"
      "slice_ident m = slice_ident s" "profiles v = profiles w" by auto
  note cong = slice_wants_cong [OF m(3)]
  have "request_fine overlays v (SliceRequest req)" using m(1) cong(6) gw by simp
  then have "works w' = overwrite (works v) (slice_wants k (profiles w) (Some m))"
    using slice_run_wants [OF conjI [OF transient_lawsD(1,2) [OF laws]] run(2)] m(1,4) by simp
  moreover have "slice_wants k (profiles w) (Some m) (oc_name c, work_name k (overlay_name s))
      = Some (static_slice_content k (overlay_with_provider p s) (overlay_namespace s) (oc_name c))"
    if "c \<in> set (slice_nodes s)" for c
  proof -
    have "(oc_name c, work_name k (overlay_name s)) \<in> slice_keys k s" using that by (auto simp: slice_keys_def slice_key_def)
    then show ?thesis using m(2) p by (simp add: slice_wants_def wants_at_def cong)
  qed
  ultimately have "\<forall>c. c \<in> set (slice_nodes s) \<longrightarrow> (\<exists>content.
        static_slice_content k (overlay_with_provider p s) (overlay_namespace s) (oc_name c) = Some content
      \<and> works w' (oc_name c, work_name k (overlay_name s)) = Some content)"
    using content t by (auto simp: slice_nodes_def)
  with run(1) p show "\<exists>w' p. requeue (overlay_Reconcile h (Some (ocm_client k)) req) w = Some w'
      \<and> slice_provider (profiles w) s = Some p
      \<and> (\<forall>c. c \<in> set (slice_nodes s) \<longrightarrow> (\<exists>content.
           static_slice_content k (overlay_with_provider p s) (overlay_namespace s) (oc_name c) = Some content
         \<and> works w' (oc_name c, work_name k (overlay_name s)) = Some content))"
    by (intro exI conjI)
next
  assume live: "deletion_is_zero (so_meta s)" and hopeless: "sos_topology (so_spec s) = None
      \<or> (\<exists>t mon e. sos_topology (so_spec s) = Some t \<and> sos_monitoring (so_spec s) = Some mon
           \<and> allocateMonitoringNodeIPs (monitoring_cidr mon) (ot_nodes t) = Some (Inl e))"
  show "requeue (overlay_Reconcile h (Some (ocm_client k)) req) w = None"
    by (rule hopeless_never_ends [OF laws s live hopeless [folded slice_hopeless_def]])
qed

section \<open>A hub with faults\<close>

text \<open>The hub in memory of which a number of updates fail with a conflict.\<close>

record flaky_store = hub_store +
  fs_faults :: nat

definition flaky :: "(flaky_store \<Rightarrow> flaky_store \<times> (kerr + 'o)) \<Rightarrow> flaky_store \<Rightarrow> flaky_store \<times> (kerr + 'o)" where
  "flaky f w = (if 0 < fs_faults w then (w\<lparr>fs_faults := fs_faults w - 1\<rparr>, Inl KConflict) else f w)"

definition flaky_hub :: "flaky_store hub" where
  "flaky_hub = memory_hub\<lparr>h_update_network := (\<lambda>n. flaky (h_update_network memory_hub n)),
     h_update_overlay := (\<lambda>s. flaky (h_update_overlay memory_hub s))\<rparr>"

abbreviation flaky_kube :: "flaky_store kube" where "flaky_kube \<equiv> mem_kube"

abbreviation mem_profiles :: "'a hub_store_scheme \<Rightarrow> string \<times> string \<rightharpoonup> provider_profile" where
  "mem_profiles w \<equiv> obj_find pp_meta (hs_profiles w)"

lemma lowers_same [simp]: "faults w' = faults w \<Longrightarrow> lowers faults failed w w' \<longleftrightarrow> \<not> failed"
  by (simp add: lowers_def)

lemma flaky_faults:
  assumes "flaky f w = (w', r)" and "\<And>v v' q. f v = (v', q) \<Longrightarrow> lowers fs_faults (c v \<and> (\<exists>e. q = Inl e)) v v'"
  shows "lowers fs_faults (c w \<and> (\<exists>e. r = Inl e)) w w'"
  using assms(1) assms(2) [of w w' r] by (auto simp: flaky_def lowers_def split: if_splits)

lemma flaky_kube_faults: "kube_faults flaky_kube s_works fs_faults"
  unfolding kube_faults_def
  by (auto simp: mem_kube_def mem_get_work_def mem_create_work_def mem_update_work_def mem_delete_work_def
      mem_put_def ignore_not_found_def split: option.splits if_splits)

lemma memory_update_faults:
  "h_update_network memory_hub x w = (w', r) \<Longrightarrow>
     lowers fs_faults (mem_networks w (net_namespace x, net_name x) \<noteq> None \<and> (\<exists>e. r = Inl e)) w w'"
  "h_update_overlay memory_hub s w = (w', q) \<Longrightarrow>
     lowers fs_faults (mem_overlays w (overlay_namespace s, overlay_name s) \<noteq> None \<and> (\<exists>e. q = Inl e)) w w'"
  by (auto simp: memory_hub_def on_networks_def on_overlays_def obj_update_def key_of_def split: if_splits)

lemma flaky_hub_faults: "hub_faults flaky_hub mem_networks mem_overlays mem_profiles fs_faults"
proof -
  have "h_get_network flaky_hub = h_get_network memory_hub" "h_get_overlay flaky_hub = h_get_overlay memory_hub"
    "h_get_profile flaky_hub = h_get_profile memory_hub"
    "h_update_network flaky_hub = (\<lambda>n. flaky (h_update_network memory_hub n))"
    "h_update_overlay flaky_hub = (\<lambda>s. flaky (h_update_overlay memory_hub s))"
    by (simp_all add: flaky_hub_def)
  note ops = this
  have get: "lowers fs_faults (\<exists>e. r = Inl e \<and> e \<noteq> KNotFound) w w'" if "mem_get f ns name w = (w', r)"
    for f :: "flaky_store \<Rightarrow> string \<times> string \<rightharpoonup> 'o" and ns name w w' r
    using that by (auto simp: mem_get_def split: option.splits)
  show ?thesis
    unfolding hub_faults_def ops
  proof (intro conjI allI impI)
    fix x :: slice_network and w w' r
    assume "flaky (h_update_network memory_hub x) w = (w', r)"
    then show "lowers fs_faults (mem_networks w (net_namespace x, net_name x) \<noteq> None \<and> (\<exists>e. r = Inl e)) w w'"
      by (rule flaky_faults) (rule memory_update_faults)
  next
    fix s :: slice_overlay and w w' r
    assume "flaky (h_update_overlay memory_hub s) w = (w', r)"
    then show "lowers fs_faults (mem_overlays w (overlay_namespace s, overlay_name s) \<noteq> None \<and> (\<exists>e. r = Inl e)) w w'"
      by (rule flaky_faults) (rule memory_update_faults)
  next
    fix ns name r and w w' :: flaky_store
    assume "h_get_profile memory_hub ns name w = (w', r)"
    then show "lowers fs_faults (mem_profiles w (ns, name) \<noteq> None \<and> (\<exists>e. r = Inl e)) w w'"
      by (auto simp: memory_hub_def mem_get_def split: option.splits)
  qed (simp_all add: memory_hub_def get)
qed

lemma flaky_object_laws:
  assumes "object_laws get update meta spec stored works ns name"
    and "\<And>w n. stored (w\<lparr>fs_faults := n\<rparr>) = stored w" "\<And>w n. works (w\<lparr>fs_faults := n\<rparr>) = works w"
  shows "object_laws get (\<lambda>x. flaky (update x)) meta spec stored works ns name"
proof -
  note f = assms(1) [unfolded object_laws_def]
  have "works w' = works w \<and> (case r of
        Inr y \<Rightarrow> update_stores meta spec x (stored w') y
      | Inl e \<Rightarrow> stored w' = stored w \<or> (\<exists>y. update_stores meta spec x (stored w') y))"
    if "m_namespace (meta x) = ns" "m_name (meta x) = name" "flaky (update x) w = (w', r)" for x w w' r
  proof (cases "0 < fs_faults w")
    case True
    with that(3) assms(2,3) show ?thesis by (auto simp: flaky_def)
  next
    case False
    with that(3) have "update x w = (w', r)" by (simp add: flaky_def)
    from conjunct2 [OF f, rule_format, OF that(1,2) this] show ?thesis .
  qed
  with conjunct1 [OF f] show ?thesis unfolding object_laws_def by (intro conjI allI impI) blast+
qed

lemma flaky_hub_laws: "hub_laws flaky_hub s_works mem_networks mem_overlays"
proof -
  let ?m = "memory_hub :: flaky_store hub"
  note m = memory_hub_laws [where 'a = "\<lparr>fs_faults :: nat\<rparr>", unfolded hub_laws_def]
  have ops: "h_contains_finalizer flaky_hub = h_contains_finalizer ?m" "h_add_finalizer flaky_hub = h_add_finalizer ?m"
    "h_remove_finalizer flaky_hub = h_remove_finalizer ?m"
    "h_get_network flaky_hub = h_get_network ?m" "h_get_overlay flaky_hub = h_get_overlay ?m"
    "h_get_profile flaky_hub = h_get_profile ?m"
    "h_update_network flaky_hub = (\<lambda>n. flaky (h_update_network ?m n))"
    "h_update_overlay flaky_hub = (\<lambda>s. flaky (h_update_overlay ?m s))"
    by (simp_all add: flaky_hub_def)
  have "finalizer_laws flaky_hub" using conjunct1 [OF m] by (simp add: finalizer_laws_def ops)
  moreover have "object_laws (h_get_network flaky_hub ns name) (h_update_network flaky_hub) sn_meta sn_spec
      (\<lambda>w. mem_networks w (ns, name)) s_works ns name" for ns name
    unfolding ops by (rule flaky_object_laws) (use m in auto)
  moreover have "object_laws (h_get_overlay flaky_hub ns name) (h_update_overlay flaky_hub) so_meta so_spec
      (\<lambda>w. mem_overlays w (ns, name)) s_works ns name" for ns name
    unfolding ops by (rule flaky_object_laws) (use m in auto)
  moreover have "frame_laws flaky_hub s_works mem_networks mem_overlays"
    using obj_update_find(1) [where meta = sn_meta] obj_update_find(1) [where meta = so_meta]
    by (auto simp: frame_laws_def flaky_hub_def flaky_def memory_hub_def mem_get_def on_networks_def on_overlays_def
        key_of_def split: prod.splits if_splits)
  ultimately show ?thesis unfolding hub_laws_def by (intro conjI allI)
qed

lemma flaky_transient_laws: "transient_laws flaky_hub flaky_kube s_works mem_networks mem_overlays mem_profiles fs_faults"
proof -
  have "hub_untouched flaky_kube (\<lambda>w. (mem_networks w, mem_overlays w))" "hub_untouched flaky_kube mem_profiles"
    by (auto simp: hub_untouched_def kube_keeps_def retry_law_def mem_kube_def mem_get_work_def
        mem_delete_work_def mem_create_work_def mem_update_work_def mem_put_def split: option.splits)
  moreover have "profile_laws flaky_hub flaky_kube mem_profiles"
    using \<open>hub_untouched flaky_kube mem_profiles\<close>
    by (auto simp: profile_laws_def flaky_hub_def memory_hub_def mem_get_def flaky_def on_networks_def on_overlays_def
        split: option.splits prod.splits if_splits)
  ultimately show ?thesis
    by (simp add: transient_laws_def system_laws_def flaky_hub_laws mem_kube_laws flaky_kube_faults flaky_hub_faults)
qed

text \<open>The examples of the controllers, where two updates fail.\<close>

definition flaky_dying :: flaky_store where
  "flaky_dying = \<lparr>s_works = s_works dying_hub, s_urls = s_urls dying_hub, hs_networks = [dying_network],
     hs_overlays = hs_overlays dying_hub, hs_profiles = hs_profiles dying_hub, fs_faults = 2\<rparr>"

definition flaky_live :: flaky_store where
  "flaky_live = \<lparr>s_works = Map.empty, s_urls = Map.empty, hs_networks = [hub_network],
     hs_overlays = [hub_slice], hs_profiles = [example_profile], fs_faults = 2\<rparr>"

lemma network_requeue_ends_witness:
  "\<exists>w'. requeue (network_Reconcile flaky_hub (Some (ocm_client flaky_kube)) net_request) flaky_dying = Some w'
     \<and> (\<forall>key. key \<in> network_keys flaky_kube dying_network \<longrightarrow> s_works w' key = None)"
proof -
  have n: "mem_networks flaky_dying (rq_namespace net_request, rq_name net_request) = Some dying_network"
    using dying_network_facts(1) by (simp add: flaky_dying_def dying_hub_def)
  have "sliceNetworkFinalizer \<in> set (m_finalizers (sn_meta dying_network))" by (simp add: dying_network_facts(3))
  from mp [OF mp [OF conjunct1 [OF network_requeue_ends [OF flaky_transient_laws n]] dying_network_facts(2)] this]
  show ?thesis by (elim exE conjE) (intro exI conjI)
qed

lemma hub_slice_deployable: "slice_deployable flaky_kube P hub_slice"
proof -
  let ?s = "overlay_with_provider empty_provider hub_slice" and ?k = flaky_kube
  let ?gen = "NewNEDGenerator (k_env ?k) (provider_controller (Some empty_provider))"
  have prov: "slice_provider P hub_slice = Some empty_provider"
    by (simp add: slice_provider_def provider_of_def profile_read_def hub_slice_def)
  have top: "sos_topology (so_spec hub_slice) = Some example_topology"
    by (simp add: hub_slice_def example_slice_def)
  have mon: "slice_monitoring ?k ?s cs = Some (Inr (?gen, Map.empty))" for cs
    by (simp add: slice_monitoring_def overlay_with_provider_def hub_slice_def example_slice_def)
  have "static_slice_content ?k ?s (overlay_namespace hub_slice) c \<noteq> None" for c
  proof -
    have "ConstructNED (k_lib ?k) ?gen (ned_values maps Map.empty links c) \<noteq> None" for maps links
      by (simp add: ned_values_def ConstructNED_panics)
    moreover have "result_of (toManifest ?k (ObjNED x)) = Some (JStr (m_name (ned_meta x)))" for x
      by (simp add: toManifest_def mem_kube_def result_of_def)
    ultimately have "slice_content ?k ?gen Map.empty maps links ns c \<noteq> None" for maps links ns
      by (simp add: slice_content_def split: option.splits)
    then show ?thesis by (simp add: static_slice_content_def top mon)
  qed
  moreover have "has_gateways hub_slice"
    by (simp add: has_gateways_def slice_nodes_def gateway_address_def top example_topology_def)
  ultimately show ?thesis unfolding slice_deployable_def using prov top mon by blast
qed

lemma slice_requeue_ends_witness:
  "\<exists>w'. requeue (overlay_Reconcile flaky_hub (Some (ocm_client flaky_kube)) slice_request) flaky_live = Some w'
     \<and> s_works w' (''b'', ''slc'') \<noteq> None"
proof -
  have s: "mem_overlays flaky_live (rq_namespace slice_request, rq_name slice_request) = Some hub_slice"
    using example_slice_stored by (simp add: flaky_live_def example_hub_def)
  from mp [OF mp [OF conjunct1 [OF conjunct2 [OF slice_requeue_ends [OF flaky_transient_laws s]]] example_slice_live] hub_slice_deployable]
  obtain w' p where run: "requeue (overlay_Reconcile flaky_hub (Some (ocm_client flaky_kube)) slice_request) flaky_live = Some w'"
    and works: "\<forall>c. c \<in> set (slice_nodes hub_slice) \<longrightarrow> (\<exists>content.
        static_slice_content flaky_kube (overlay_with_provider p hub_slice) (overlay_namespace hub_slice) (oc_name c) = Some content
      \<and> s_works w' (oc_name c, work_name flaky_kube (overlay_name hub_slice)) = Some content)"
    by (elim exE conjE) (rule that)
  have b: "\<lparr>oc_name = ''b'', oc_gateway = Some \<lparr>nc_nodeName = ''n'', nc_ipAddress = ''10.9.0.2''\<rparr>\<rparr> \<in> set (slice_nodes hub_slice)"
    and name: "overlay_name hub_slice = ''slc''"
    by (simp_all add: slice_nodes_def hub_slice_def example_slice_def example_topology_def)
  from mp [OF spec [OF works] b] have "s_works w' (''b'', ''slc'') \<noteq> None"
    unfolding name mem_names by (elim exE conjE) simp
  with run show ?thesis by blast
qed

end
