(* ===== verification/Retry.thy ===== *)
theory Retry
  imports Requeue
begin

text \<open>
  Passes whose requests are run again until they succeed. A failed run may have changed works of its own
  object, but not what a later success leaves: the locale \<open>retrying\<close> lifts this from runs to the requeue
  loop, which then is \<open>settling\<close> again, and shows that a pass of loops ends when each of its loops does.
\<close>

section \<open>The loop as an action\<close>

text \<open>The loop as an action: its error is that it never ends.\<close>

definition again :: "('w, 'e) action \<Rightarrow> ('w, unit) action" where
  "again run w = (case requeue run w of None \<Rightarrow> (w, Some ()) | Some w' \<Rightarrow> (w', None))"

lemma again_ok: "again run w = (w', None) \<longleftrightarrow> requeue run w = Some w'"
  by (simp add: again_def split: option.splits)

section \<open>Requests that are run until they succeed\<close>

text \<open>\<open>able w q\<close>: in \<open>w\<close> nothing but faults keeps the request \<open>q\<close> from succeeding.\<close>

locale retrying = settling ok run works wants fine ready
  for ok :: bool
    and run :: "'q \<Rightarrow> ('w, 'e) action"
    and works :: "'w \<Rightarrow> 'k \<Rightarrow> 'c"
    and wants :: "'w \<Rightarrow> 'q \<Rightarrow> 'k \<rightharpoonup> 'c"
    and fine :: "'w \<Rightarrow> 'q \<Rightarrow> bool"
    and ready :: "'w \<Rightarrow> 'q \<Rightarrow> bool" +
  fixes able :: "'w \<Rightarrow> 'q \<Rightarrow> bool"
  assumes fail_works: "ok \<Longrightarrow> run q w = (w', Some e) \<Longrightarrow>
      overwrite (works w') (wants w' q) = overwrite (works w) (wants w q)"
    and fail_own: "ok \<Longrightarrow> run q w = (w', Some e) \<Longrightarrow> wants w' q \<subseteq>\<^sub>m wants w q \<and> ready w' q = ready w q"
    and fail_other: "ok \<Longrightarrow> run q w = (w', Some e) \<Longrightarrow> q' \<noteq> q
      \<Longrightarrow> wants w' q' = wants w q' \<and> ready w' q' = ready w q'"
    and fail_fine: "ok \<Longrightarrow> run q w = (w', Some e) \<Longrightarrow> fine w q' \<Longrightarrow> fine w' q'"
    and able_other: "ok \<Longrightarrow> run q w = (w', r) \<Longrightarrow> q' \<noteq> q \<Longrightarrow> able w' q' = able w q'"
    and able_ends: "ok \<Longrightarrow> able w q \<Longrightarrow> \<exists>w'. requeue (run q) w = Some w'"
begin

text \<open>What the runs before the last one keep.\<close>

lemma before_last:
  assumes ok: "ok" and loop: "again (run q) w = (w', None)"
  obtains v where "run q v = (w', None)"
    "overwrite (works v) (wants v q) = overwrite (works w) (wants w q)"
    "wants v q \<subseteq>\<^sub>m wants w q" "ready v q = ready w q"
    "\<And>q'. q' \<noteq> q \<Longrightarrow> wants v q' = wants w q' \<and> ready v q' = ready w q' \<and> able v q' = able w q'"
    "\<And>q'. fine w q' \<Longrightarrow> fine v q'"
proof -
  define kept where "kept v \<longleftrightarrow> overwrite (works v) (wants v q) = overwrite (works w) (wants w q)
      \<and> wants v q \<subseteq>\<^sub>m wants w q \<and> ready v q = ready w q
      \<and> (\<forall>q'. q' \<noteq> q \<longrightarrow> wants v q' = wants w q' \<and> ready v q' = ready w q' \<and> able v q' = able w q')
      \<and> (\<forall>q'. fine w q' \<longrightarrow> fine v q')" for v
  have "kept v'" if "kept v" "run q v = (v', Some e)" for v v' e
    using that(1) fail_works [OF ok that(2)] fail_own [OF ok that(2)] fail_other [OF ok that(2)]
      fail_fine [OF ok that(2)] able_other [OF ok that(2)]
    unfolding kept_def by (auto intro: map_le_trans)
  moreover have "kept w" by (simp add: kept_def)
  ultimately obtain v where "kept v" "run q v = (w', None)"
    using requeue_last [OF loop [unfolded again_ok], of kept] by blast
  then show thesis unfolding kept_def by (intro that) blast+
qed

sublocale loop: settling ok "\<lambda>q. again (run q)" works wants fine ready
proof
  fix w q w'
  assume ok: "ok" and run: "again (run q) w = (w', None)"
  obtain v where v: "run q v = (w', None)" "overwrite (works v) (wants v q) = overwrite (works w) (wants w q)"
    "wants v q \<subseteq>\<^sub>m wants w q" "ready v q = ready w q"
    "\<And>q'. q' \<noteq> q \<Longrightarrow> wants v q' = wants w q' \<and> ready v q' = ready w q' \<and> able v q' = able w q'"
    "\<And>q'. fine w q' \<Longrightarrow> fine v q'"
    using before_last [OF ok run] by blast
  show "works w' = overwrite (works w) (wants w q)" if "fine w q"
    using run_works [OF ok v(6) [OF that] v(1)] v(2) by simp
  show "wants w' q \<subseteq>\<^sub>m wants w q" using run_own [OF ok v(1)] v(3) by (rule map_le_trans)
  show "ready w q" if "fine w q" using run_ready [OF ok v(6) [OF that] v(1)] v(4) by simp
  show "wants w' q' = wants w q' \<and> ready w' q' = ready w q'" if "q' \<noteq> q" for q'
    using run_other [OF ok v(1) that] v(5) [OF that] by simp
  show "fine w' q'" if "fine w q'" for q' using run_fine [OF ok v(1) v(6) [OF that]] .
qed

lemma pass_ends:
  assumes "ok" "distinct qs" "\<forall>q \<in> set qs. able w q"
  shows "\<exists>w'. for_each (\<lambda>q. again (run q)) qs w = (w', None)"
  using assms(2,3)
proof (induction qs arbitrary: w)
  case Nil
  then show ?case by simp
next
  case (Cons q qs)
  from able_ends [OF assms(1), of w q] Cons.prems(2) obtain w1 where w1: "requeue (run q) w = Some w1" by auto
  then have one: "again (run q) w = (w1, None)" by (simp add: again_ok)
  obtain v where v: "run q v = (w1, None)" "\<And>q'. q' \<noteq> q \<Longrightarrow> able v q' = able w q'"
    using before_last [OF assms(1) one] by metis
  have "able w1 q' = able w q'" if "q' \<noteq> q" for q'
    using able_other [OF assms(1) v(1) that] v(2) [OF that] by simp
  with Cons.prems have "\<forall>q' \<in> set qs. able w1 q'" by (metis distinct.simps(2) list.set_intros(2))
  with Cons.IH [of w1] Cons.prems(1) one show ?case by auto
qed

end

end
