(* ===== verification/Total.thy ===== *)
theory Total
  imports Converge RequeueEnds Retry
begin

text \<open>
  Total correctness of the controllers: passes of the requeue loop of both reconcilers. What a failed run
  keeps is proved once for \<open>reconciler\<close>; \<open>retrying\<close> is interpreted on the requests of both controllers,
  and from every state the system reaches a pass of loops over the stored objects ends and makes the
  clusters equal to what the hub asks for.
\<close>

section \<open>What a failed run keeps\<close>

text \<open>What a stored object wants, for both kinds.\<close>

definition object_wants :: "('o \<Rightarrow> bool) \<Rightarrow> ('o \<Rightarrow> bool) \<Rightarrow> ('o \<Rightarrow> (string \<times> string) set) \<Rightarrow> ('o \<Rightarrow> provider_spec option)
    \<Rightarrow> (provider_spec \<Rightarrow> 'o \<Rightarrow> string \<Rightarrow> ((string \<rightharpoonup> string) \<times> json list) option) \<Rightarrow> 'o option \<Rightarrow> work_wants" where
  "object_wants deleting has_fin keys prov content st =
     (case st of
        None \<Rightarrow> Map.empty
      | Some x \<Rightarrow>
          if deleting x then (if has_fin x then wants_at (keys x) (\<lambda>c. None) else Map.empty)
          else (case prov x of None \<Rightarrow> Map.empty | Some p \<Rightarrow> wants_at (keys x) (content p x)))"

lemma overwrite_frame:
  "(\<And>key. key \<notin> ks \<Longrightarrow> v' key = v key) \<Longrightarrow> overwrite v' (wants_at ks content) = overwrite v (wants_at ks content)"
  by (simp add: overwrite_def wants_at_def fun_eq_iff)

lemma overwrite_done:
  assumes "\<And>key. key \<in> ks \<Longrightarrow> v' key = None" "\<And>key. key \<notin> ks \<Longrightarrow> v' key = v key"
  shows "v' = overwrite v (wants_at ks (\<lambda>c. None))"
proof
  fix key show "v' key = overwrite v (wants_at ks (\<lambda>c. None)) key"
    using assms by (cases "key \<in> ks") (simp_all add: overwrite_def wants_at_def)
qed

context reconciler
begin

text \<open>The live object at the key is the same one, up to its finalizers, after any run.\<close>

lemma live_iff:
  assumes ok: "ok" and run: "reconcile w = (w', r)"
  shows "(\<exists>x. stored w' = Some x \<and> \<not> deleting x \<and> ident x = i) \<longleftrightarrow> (\<exists>x. stored w = Some x \<and> \<not> deleting x \<and> ident x = i)"
  using ok run
proof (cases rule: stages)
  case (delete_failed x w1 e)
  then show ?thesis using delete_writesD(1) [OF ok delete_failed(6)] by simp
next
  case (deleted x w1 w2 q)
  have "mine (rem_fin x)" using rem_fin [OF ok] deleted(2) by simp
  note u = update_writes [OF ok this deleted(8)]
  have "stored w2 = Some x" using delete_writesD(1) [OF ok deleted(7)] deleted(1,5) by simp
  then have "stored w' = None \<or> (\<exists>z. stored w' = Some z \<and> deleting z)"
    using u rem_fin [OF ok, of x] deleted(3) by (cases q) (auto simp: upd_def)
  with deleted(1,3) show ?thesis by auto
next
  case (add_failed x w1 e)
  note add = add_fin [OF ok, of x]
  then have "mine (add_fin x)" using add_failed(2) by simp
  from update_writes [OF ok this add_failed(7)] add add_failed show ?thesis by (auto simp: upd_def)
next
  case (guarded x y w2 w3 q)
  have "stored w' = Some y" by (rule guarded_end(1) [OF ok guarded(9,7,10)])
  with guarded show ?thesis by auto
qed simp_all

lemma failed_keeps:
  assumes ok: "ok" and run: "reconcile w = (w', Some e)"
    and prov: "\<And>y v v' p. resolve y v = (v', Inr p) \<Longrightarrow> prov (others v) y = Some p"
    and cong: "\<And>x y rest. ident y = ident x \<Longrightarrow> prov rest y = prov rest x"
      "\<And>x y p. ident y = ident x \<Longrightarrow> content p y = content p x"
  defines "want v \<equiv> object_wants deleting has_fin keys (prov (others v)) content (stored v)"
  shows "overwrite (works w') (want w') = overwrite (works w) (want w) \<and> want w' \<subseteq>\<^sub>m want w"
proof -
  have o: "others w' = others w" by (rule others_kept [OF ok run])
  have same: "want w' = want w" if "stored w' = stored w" using that o by (simp add: want_def)
  have alike: "want w' = want w" if "stored w' = Some y" "stored w = Some x" "\<not> deleting x" "\<not> deleting y" "ident y = ident x" for x y
    using that o ident_keys [of y x] cong(1) [of y x] cong(2) [of y x] by (simp add: want_def object_wants_def split: option.split)
  from ok run show ?thesis
  proof (cases rule: stages)
    case unread
    then show ?thesis using same by simp
  next
    case (released x)
    then show ?thesis using same by simp
  next
    case (delete_failed x w1 e)
    have "stored w' = stored w" using delete_writesD(1) [OF ok delete_failed(6)] delete_failed(4) by simp
    moreover have "overwrite (works w') (want w) = overwrite (works w) (want w)"
    proof -
      have want: "want w = wants_at (keys x) (\<lambda>c. None)" using delete_failed(1-3) by (simp add: want_def object_wants_def)
      show ?thesis
        unfolding want by (rule overwrite_frame) (use delete_writesD(2) [OF ok delete_failed(6)] delete_failed(5) in simp)
    qed
    ultimately show ?thesis using same by simp
  next
    case (deleted x w1 w2 q)
    have "mine (rem_fin x)" using rem_fin [OF ok] deleted(2) by simp
    note u = update_writes [OF ok this deleted(8)]
    have st: "stored w2 = Some x" using delete_writesD(1) [OF ok deleted(7)] deleted(1,5) by simp
    have want: "want w = wants_at (keys x) (\<lambda>c. None)" using deleted(1,3,4) by (simp add: want_def object_wants_def)
    note ends = deleted_end [OF ok deleted(2,7,8)]
    have w': "works w' = overwrite (works w) (want w)"
      unfolding want by (rule overwrite_done) (use ends deleted(6) in auto)
    have "stored w' = Some x \<or> stored w' = None \<or> (\<exists>z. stored w' = Some z \<and> deleting z \<and> \<not> has_fin z)"
      using u st rem_fin [OF ok, of x] deleted(3) by (cases q) (auto simp: upd_def)
    then have "want w' = want w \<or> want w' = Map.empty" using deleted(1) o by (auto simp: want_def object_wants_def)
    then show ?thesis
    proof
      assume "want w' = want w"
      moreover have "overwrite (works w') (want w) = overwrite (works w) (want w)"
        unfolding want by (rule overwrite_frame) (use ends(2) deleted(6) in simp)
      ultimately show ?thesis by simp
    next
      assume "want w' = Map.empty"
      with w' show ?thesis by (simp add: overwrite_def)
    qed
  next
    case (add_failed x w1 e)
    note add = add_fin [OF ok, of x]
    then have "mine (add_fin x)" using add_failed(2) by simp
    note u = update_writes [OF ok this add_failed(7)]
    then have "stored w' = stored w \<or> (\<exists>y. stored w' = Some y \<and> \<not> deleting y \<and> ident y = ident x)"
      using add add_failed by (auto simp: upd_def)
    then have "want w' = want w" using same alike add_failed(1,3) by blast
    moreover have "works w' = works w" using u add_failed(6) by simp
    ultimately show ?thesis by simp
  next
    case (guarded x y w2 w3 q)
    have "stored w' = Some y" by (rule guarded_end(1) [OF ok guarded(9,7,10)])
    then have want: "want w' = want w" using alike guarded(1-3,6) by blast
    have "overwrite (works w') (want w) = overwrite (works w) (want w)"
    proof (cases "prov (others w) x")
      case None
      then have "q \<noteq> Inr p" for p using prov [of y w2 w3 p] guarded(9,11) cong(1) [OF guarded(6)] by auto
      then have "works w' = works w" using guarded(8,10) resolve_reads [OF ok guarded(9)] by (cases q) auto
      then show ?thesis by simp
    next
      case (Some p)
      have "works w' key = works w key" if "key \<notin> keys x" for key
        using guarded_end(2) [OF ok guarded(9,7,10)] that guarded(5,8) by simp
      moreover have "want w = wants_at (keys x) (content p x)" using Some guarded(1,2) by (simp add: want_def object_wants_def)
      ultimately show ?thesis using overwrite_frame [of "keys x" "works w'" "works w" "content p x"] by simp
    qed
    with want show ?thesis by simp
  qed
qed

end

context transient
begin

text \<open>The loop ends for whatever is stored, if it can be deployed in case it is live.\<close>

lemma loop_ends:
  assumes ok: "ok" and able: "\<And>x. stored w = Some x \<Longrightarrow> \<not> deleting x \<Longrightarrow> deployable (others w) x"
  shows "\<exists>w'. requeue reconcile w = Some w'"
proof -
  let ?Inv = "\<lambda>v. others v = others w \<and> (\<forall>x. stored v = Some x \<longrightarrow> \<not> deleting x \<longrightarrow> deployable (others w) x)"
  have "\<exists>v w'. requeue reconcile w = Some w' \<and> ?Inv v \<and> reconcile v = (w', None)"
  proof (rule requeue_terminates)
    show "?Inv w" using able by simp
    show "lowers faults (q \<noteq> None) v v'" if "?Inv v" "reconcile v = (v', q)" for v v' q
      by (rule run_lowers [OF ok that(2)]) (use that(1) in auto)
    show "?Inv v'" if inv: "?Inv v" and run: "reconcile v = (v', Some e)" for v v' e
    proof (intro conjI allI impI)
      show "others v' = others w" using others_kept [OF ok run] inv by simp
      fix x assume x: "stored v' = Some x" "\<not> deleting x"
      then obtain y where y: "stored v = Some y" "\<not> deleting y" "ident y = ident x"
        using live_iff [OF ok run, of "ident x"] by blast
      then show "deployable (others w) x" using inv deployable_ident [OF y(3)] by blast
    qed
  qed
  then show ?thesis by blast
qed

end

section \<open>Both reconcilers\<close>

lemma wants_object:
  "network_wants k P = object_wants (\<lambda>n. \<not> deletion_is_zero (sn_meta n)) guarded_network (network_keys k) (network_provider P)
     (\<lambda>p n c. network_content k (network_with_provider p n) (net_namespace n))"
  "slice_wants k P = object_wants (\<lambda>s. \<not> deletion_is_zero (so_meta s)) guarded_overlay (slice_keys k) (slice_provider P)
     (\<lambda>p s. static_slice_content k (overlay_with_provider p s) (overlay_namespace s))"
  by (simp_all add: network_wants_def slice_wants_def object_wants_def fun_eq_iff split: option.split)

lemma network_failed_keeps:
  assumes laws: "system_laws h k works networks overlays \<and> profile_laws h k profiles"
    and run: "network_Reconcile h (Some (ocm_client k)) req w = (w', Some e)"
  defines "want v \<equiv> network_wants k (profiles v) (networks v (rq_namespace req, rq_name req))"
  shows "overwrite (works w') (want w') = overwrite (works w) (want w) \<and> want w' \<subseteq>\<^sub>m want w"
proof -
  have fin: "network_ContainsFinalizer h = guarded_network"
    by (rule ext) (simp add: network_ContainsFinalizer_def guarded_network_def system_lawsD(2) [OF conjunct1 [OF laws]])
  have res: "network_provider (snd (((networks v)((rq_namespace req, rq_name req) := None), overlays v), profiles v)) y = Some p"
    if "resolveNetworkProvider h y v = (v', Inr p)" for y v v' p
    using conjunct2 [OF resolve_profile(1) [OF conjunct2 [OF laws] that]] by simp
  have cong: "network_provider (snd rest) y = network_provider (snd rest) x"
    "(\<lambda>c. network_content k (network_with_provider p y) (net_namespace y)) = (\<lambda>c. network_content k (network_with_provider p x) (net_namespace x))"
    if "network_ident y = network_ident x" for x y p
      and rest :: "((string \<times> string \<rightharpoonup> slice_network) \<times> (string \<times> string \<rightharpoonup> slice_overlay)) \<times> (string \<times> string \<rightharpoonup> provider_profile)"
    using network_cong(1) [OF that] network_cong(2) [OF that, of k] by simp_all
  from net_pr.failed_keeps [OF laws run, of "\<lambda>rest. network_provider (snd rest)"
      "\<lambda>p n c. network_content k (network_with_provider p n) (net_namespace n)", OF res cong]
  show ?thesis unfolding want_def wants_object fin snd_conv .
qed

lemma slice_failed_keeps:
  assumes laws: "system_laws h k works networks overlays \<and> profile_laws h k profiles"
    and run: "overlay_Reconcile h (Some (ocm_client k)) req w = (w', Some e)"
  defines "want v \<equiv> slice_wants k (profiles v) (overlays v (rq_namespace req, rq_name req))"
  shows "overwrite (works w') (want w') = overwrite (works w) (want w) \<and> want w' \<subseteq>\<^sub>m want w"
proof -
  have fin: "overlay_ContainsFinalizer h = guarded_overlay"
    by (rule ext) (simp add: overlay_ContainsFinalizer_def guarded_overlay_def system_lawsD(2) [OF conjunct1 [OF laws]])
  have res: "slice_provider (snd (((overlays v)((rq_namespace req, rq_name req) := None), networks v), profiles v)) y = Some p"
    if "resolveOverlayProvider h y v = (v', Inr p)" for y v v' p
    using conjunct2 [OF resolve_profile(2) [OF conjunct2 [OF laws] that]] by simp
  from ov_pr.failed_keeps [OF laws run, of "\<lambda>rest. slice_provider (snd rest)"
      "\<lambda>p s. static_slice_content k (overlay_with_provider p s) (overlay_namespace s)",
      OF res slice_wants_cong(1) slice_wants_cong(2)]
  show ?thesis unfolding want_def wants_object fin snd_conv .
qed

text \<open>Nothing but faults keeps the stored object from what its request asks for.\<close>

fun request_able :: "'w kube \<Rightarrow> ('w \<Rightarrow> string \<times> string \<rightharpoonup> slice_network) \<Rightarrow> ('w \<Rightarrow> string \<times> string \<rightharpoonup> slice_overlay)
    \<Rightarrow> ('w \<Rightarrow> string \<times> string \<rightharpoonup> provider_profile) \<Rightarrow> 'w \<Rightarrow> object_request \<Rightarrow> bool" where
  "request_able k networks overlays profiles w (NetworkRequest req) \<longleftrightarrow>
     (case networks w (rq_namespace req, rq_name req) of
        None \<Rightarrow> True
      | Some n \<Rightarrow> deletion_is_zero (sn_meta n) \<longrightarrow> network_deployable k (profiles w) n)"
| "request_able k networks overlays profiles w (SliceRequest req) \<longleftrightarrow>
     (case overlays w (rq_namespace req, rq_name req) of
        None \<Rightarrow> True
      | Some s \<Rightarrow> deletion_is_zero (so_meta s) \<longrightarrow> slice_deployable k (profiles w) s)"

lemma live_transfer:
  assumes live: "\<And>i. (\<exists>x. st' = Some x \<and> D x \<and> f x = i) \<longleftrightarrow> (\<exists>x. st = Some x \<and> D x \<and> f x = i)"
    and alike: "\<And>m n. f m = f n \<Longrightarrow> D m \<Longrightarrow> D n \<Longrightarrow> R m = R n"
  shows "(\<forall>x. st' = Some x \<longrightarrow> D x \<longrightarrow> R x) \<longleftrightarrow> (\<forall>x. st = Some x \<longrightarrow> D x \<longrightarrow> R x)"
proof -
  have "\<exists>x. st = Some x \<and> D x \<and> f x = f y" if "st' = Some y" "D y" for y using live [of "f y"] that by blast
  moreover have "\<exists>x. st' = Some x \<and> D x \<and> f x = f y" if "st = Some y" "D y" for y using live [of "f y"] that by blast
  ultimately show ?thesis using alike by metis
qed

text \<open>Being ready and being fine are matters of the live object, up to its finalizers.\<close>

lemma network_own_kept:
  assumes laws: "system_laws h k works networks overlays \<and> profile_laws h k profiles"
    and run: "network_Reconcile h (Some (ocm_client k)) req w = (w', r)"
  shows "request_ready k networks overlays profiles w' (NetworkRequest req) = request_ready k networks overlays profiles w (NetworkRequest req)"
proof -
  let ?at = "(rq_namespace req, rq_name req)"
  have P: "profiles w' = profiles w" by (rule network_run_others(1) [OF laws run])
  have live: "(\<exists>x. networks w' ?at = Some x \<and> deletion_is_zero (sn_meta x) \<and> network_ident x = i)
      \<longleftrightarrow> (\<exists>x. networks w ?at = Some x \<and> deletion_is_zero (sn_meta x) \<and> network_ident x = i)" for i
    using net_pr.live_iff [OF laws run, of i] by simp
  have alike: "live_ready (network_provider P m) (network_wants k P (Some m)) = live_ready (network_provider P n) (network_wants k P (Some n))"
    if "network_ident m = network_ident n" "deletion_is_zero (sn_meta m)" "deletion_is_zero (sn_meta n)" for P m n
    using that(2,3) network_cong(1) [OF that(1)] network_cong(2,4) [OF that(1), of k] by (simp add: network_wants_def split: option.split)
  have iff: "request_ready k networks overlays profiles v (NetworkRequest req) \<longleftrightarrow>
      (\<forall>n. networks v ?at = Some n \<longrightarrow> deletion_is_zero (sn_meta n) \<longrightarrow>
        live_ready (network_provider (profiles v) n) (network_wants k (profiles v) (Some n)))" for v
    by (simp split: option.split)
  show ?thesis unfolding iff P by (rule live_transfer [OF live alike])
qed

lemma slice_own_kept:
  assumes laws: "system_laws h k works networks overlays \<and> profile_laws h k profiles"
    and run: "overlay_Reconcile h (Some (ocm_client k)) req w = (w', r)"
  shows "request_ready k networks overlays profiles w' (SliceRequest req) = request_ready k networks overlays profiles w (SliceRequest req)"
    and "request_fine overlays w' (SliceRequest req) = request_fine overlays w (SliceRequest req)"
proof -
  let ?at = "(rq_namespace req, rq_name req)"
  have P: "profiles w' = profiles w" by (rule slice_run_others(1) [OF laws run])
  have live: "(\<exists>x. overlays w' ?at = Some x \<and> deletion_is_zero (so_meta x) \<and> slice_ident x = i)
      \<longleftrightarrow> (\<exists>x. overlays w ?at = Some x \<and> deletion_is_zero (so_meta x) \<and> slice_ident x = i)" for i
    using ov_pr.live_iff [OF laws run, of i] by simp
  have alike: "live_ready (slice_provider P m) (slice_wants k P (Some m)) = live_ready (slice_provider P n) (slice_wants k P (Some n))"
    if "slice_ident m = slice_ident n" "deletion_is_zero (so_meta m)" "deletion_is_zero (so_meta n)" for P m n
    using that(2,3) slice_wants_cong(1) [OF that(1)] slice_wants_cong(2,4) [OF that(1), of k] by (simp add: slice_wants_def split: option.split)
  have iff: "request_ready k networks overlays profiles v (SliceRequest req) \<longleftrightarrow>
      (\<forall>s. overlays v ?at = Some s \<longrightarrow> deletion_is_zero (so_meta s) \<longrightarrow>
        live_ready (slice_provider (profiles v) s) (slice_wants k (profiles v) (Some s)))"
    "request_fine overlays v (SliceRequest req) \<longleftrightarrow>
      (\<forall>s. overlays v ?at = Some s \<longrightarrow> deletion_is_zero (so_meta s) \<longrightarrow> has_gateways s)" for v
    by (simp_all split: option.split)
  show "request_ready k networks overlays profiles w' (SliceRequest req) = request_ready k networks overlays profiles w (SliceRequest req)"
    unfolding iff P by (rule live_transfer [OF live alike])
  show "request_fine overlays w' (SliceRequest req) = request_fine overlays w (SliceRequest req)"
    unfolding iff by (rule live_transfer [OF live slice_wants_cong(6)])
qed

text \<open>A run leaves the other objects alone.\<close>

lemma run_other_requests:
  assumes laws: "system_laws h k works networks overlays \<and> profile_laws h k profiles"
    and run: "run_request h k q w = (w', r)" and other: "q' \<noteq> q"
  shows "request_wants k networks overlays profiles w' q' = request_wants k networks overlays profiles w q'"
    and "request_ready k networks overlays profiles w' q' = request_ready k networks overlays profiles w q'"
    and "request_able k networks overlays profiles w' q' = request_able k networks overlays profiles w q'"
    and "request_fine overlays w' q' = request_fine overlays w q'"
proof -
  have P: "profiles w' = profiles w"
    using run by (cases q) (auto simp: network_run_others(1) [OF laws] slice_run_others(1) [OF laws])
  have N: "networks w' (rq_namespace req, rq_name req) = networks w (rq_namespace req, rq_name req)"
    if "q' = NetworkRequest req" for req
    using run that other network_run_others(3) [OF laws] slice_run_others(2) [OF laws] request_key
    by (cases q) (simp_all del: Pair_inject)
  have O: "overlays w' (rq_namespace req, rq_name req) = overlays w (rq_namespace req, rq_name req)"
    if "q' = SliceRequest req" for req
    using run that other network_run_others(2) [OF laws] slice_run_others(3) [OF laws] request_key
    by (cases q) (simp_all del: Pair_inject)
  show "request_wants k networks overlays profiles w' q' = request_wants k networks overlays profiles w q'"
    "request_ready k networks overlays profiles w' q' = request_ready k networks overlays profiles w q'"
    "request_able k networks overlays profiles w' q' = request_able k networks overlays profiles w q'"
    "request_fine overlays w' q' = request_fine overlays w q'"
    by (cases q', simp_all only: request_wants.simps request_ready.simps request_able.simps request_fine.simps P N O)+
qed

lemma able_fine: "request_able k networks overlays profiles w q \<Longrightarrow> request_fine overlays w q"
  by (cases q) (auto simp: slice_deployable_def split: option.splits)

interpretation total: retrying "transient_laws h k works networks overlays profiles faults" "run_request h k" works
    "request_wants k networks overlays profiles" "request_fine overlays" "request_ready k networks overlays profiles"
    "request_able k networks overlays profiles"
  for h :: "'w hub" and k :: "'w kube" and works networks overlays profiles faults
proof (intro retrying.intro retrying_axioms.intro)
  show "settling (transient_laws h k works networks overlays profiles faults) (run_request h k) works
      (request_wants k networks overlays profiles) (request_fine overlays) (request_ready k networks overlays profiles)"
    by (rule passes.weaken) (rule conjI; rule transient_lawsD; assumption)
next
  fix w q w' e
  assume laws: "transient_laws h k works networks overlays profiles faults" and run: "run_request h k q w = (w', Some e)"
  note l = conjI [OF transient_lawsD(1,2) [OF laws]]
  have "overwrite (works w') (request_wants k networks overlays profiles w' q) = overwrite (works w) (request_wants k networks overlays profiles w q)
      \<and> request_wants k networks overlays profiles w' q \<subseteq>\<^sub>m request_wants k networks overlays profiles w q
      \<and> request_ready k networks overlays profiles w' q = request_ready k networks overlays profiles w q
      \<and> request_fine overlays w' q = request_fine overlays w q"
  proof (cases q)
    case (NetworkRequest req)
    with run have run: "network_Reconcile h (Some (ocm_client k)) req w = (w', Some e)" by simp
    from network_failed_keeps [OF l run] network_own_kept [OF l run] show ?thesis
      unfolding NetworkRequest request_wants.simps request_fine.simps by blast
  next
    case (SliceRequest req)
    with run have run: "overlay_Reconcile h (Some (ocm_client k)) req w = (w', Some e)" by simp
    from slice_failed_keeps [OF l run] slice_own_kept [OF l run] show ?thesis
      unfolding SliceRequest request_wants.simps by blast
  qed
  note own = this
  from own show "overwrite (works w') (request_wants k networks overlays profiles w' q)
      = overwrite (works w) (request_wants k networks overlays profiles w q)" by blast
  from own show "request_wants k networks overlays profiles w' q \<subseteq>\<^sub>m request_wants k networks overlays profiles w q
      \<and> request_ready k networks overlays profiles w' q = request_ready k networks overlays profiles w q" by blast
  fix q'
  show "request_wants k networks overlays profiles w' q' = request_wants k networks overlays profiles w q'
      \<and> request_ready k networks overlays profiles w' q' = request_ready k networks overlays profiles w q'" if "q' \<noteq> q"
    using run_other_requests(1,2) [OF l run that] by (rule conjI)
  show "request_fine overlays w' q'" if "request_fine overlays w q'"
    using that own run_other_requests(4) [OF l run, of q'] by (cases "q' = q") simp_all
next
  fix w q w' r q'
  assume "transient_laws h k works networks overlays profiles faults" "run_request h k q w = (w', r)" "q' \<noteq> q"
  then show "request_able k networks overlays profiles w' q' = request_able k networks overlays profiles w q'"
    by (intro run_other_requests(3) [where h = h and works = works]) (auto dest: transient_lawsD)
next
  fix w q
  assume laws: "transient_laws h k works networks overlays profiles faults" and able: "request_able k networks overlays profiles w q"
  show "\<exists>w'. requeue (run_request h k q) w = Some w'"
  proof (cases q)
    case (NetworkRequest req)
    have "run_request h k q = network_Reconcile h (Some (ocm_client k)) req" by (rule ext) (simp add: NetworkRequest)
    then show ?thesis
      using able by (auto intro!: net_tr.loop_ends [OF laws] simp: NetworkRequest)
  next
    case (SliceRequest req)
    have "run_request h k q = overlay_Reconcile h (Some (ocm_client k)) req" by (rule ext) (simp add: SliceRequest)
    then show ?thesis
      using able by (auto intro!: ov_tr.loop_ends [OF laws] simp: SliceRequest)
  qed
qed

section \<open>Settling\<close>

text \<open>C1: total correctness. Let only finitely many calls to the hub and the clusters fail, and take any state
  that the system reaches from one without ManifestWorks and in which two conditions hold: every live
  object can be deployed (its provider is known and its manifests can be made; a slice also has a topology,
  gateway addresses and room for its monitoring addresses, without which it would be run again forever),
  and no two objects want different contents for the same ManifestWork. Then a pass over all stored objects
  that runs every request again until it succeeds comes to an end, without anything assumed of the single
  runs. The clusters hold then what the hub asks for and nothing else: every live network with its provider
  on each of its clusters, every live slice on each cluster of its topology, no other ManifestWork. More
  such passes change no ManifestWork. Objects being deleted have no condition of the first kind.\<close>

theorem system_settles:
  assumes laws: "transient_laws h k works networks overlays profiles faults" "api_laws h works networks overlays"
    and reach: "(system_step h k gv works networks overlays)\<^sup>*\<^sup>* w0 w" and start: "works w0 = Map.empty"
    and pass: "distinct qs" "covers (set qs) (networks w) (overlays w)"
    and objects: "\<forall>q \<in> set qs. request_able k networks overlays profiles w q"
      "compatible (request_wants k networks overlays profiles w) (set qs)"
  shows "\<exists>w'. for_each (\<lambda>q. again (run_request h k q)) qs w = (w', None)
    \<and> converged k networks overlays profiles w (works w')
    \<and> (\<forall>ps w2. set ps \<subseteq> set qs \<longrightarrow> for_each (\<lambda>q. again (run_request h k q)) ps w' = (w2, None) \<longrightarrow> works w2 = works w')"
proof -
  have fine: "\<forall>q \<in> set qs. request_fine overlays w q" by (intro ballI able_fine [OF bspec [OF objects(1)]])
  obtain w' where run: "for_each (\<lambda>q. again (run_request h k q)) qs w = (w', None)"
    using total.pass_ends [OF laws(1) pass(1) objects(1)] by blast
  note eff = total.loop.pass_works [OF laws(1) run pass(1) fine objects(2)]
    and ready = total.loop.pass_ready [OF laws(1) run pass(1) fine]
  have "no_orphans k works networks overlays w"
    by (rule steps_no_orphans [OF transient_lawsD(1) [OF laws(1)] laws(2) reach start])
  from convergence [OF conjunct1 [OF eff] conjunct2 [OF eff] ready pass(2) this]
  have "converged k networks overlays profiles w (works w')" .
  moreover have "works w2 = works w'"
    if ps: "set ps \<subseteq> set qs" "for_each (\<lambda>q. again (run_request h k q)) ps w' = (w2, None)" for ps w2
  proof -
    have "\<forall>q \<in> set ps. request_fine overlays w' q"
      using total.loop.pass_wants [OF laws(1) run] fine ps(1) by blast
    then show ?thesis
      by (rule total.loop.stays [OF laws(1) ps(2) _ total.loop.pass_leaves_satisfied [OF laws(1) run pass(1) fine objects(2)] ps(1)])
  qed
  ultimately show ?thesis using run by blast
qed

lemma flaky_api_laws: "api_laws flaky_hub s_works mem_networks mem_overlays"
proof -
  have "h_create_network flaky_hub = h_create_network memory_hub" "h_create_overlay flaky_hub = h_create_overlay memory_hub"
    "h_delete_network flaky_hub = h_delete_network memory_hub" "h_delete_overlay flaky_hub = h_delete_overlay memory_hub"
    by (simp_all add: flaky_hub_def)
  then show ?thesis using memory_api_laws [where 'a = "\<lparr>fs_faults :: nat\<rparr>"] by (simp add: api_laws_def)
qed

lemma hub_network_deployable: "network_deployable flaky_kube (mem_profiles flaky_live) hub_network"
  by (simp add: obj_find_def key_of_def DefaultIfEmpty_def defaultProviderProfileName_def example_profile_def network_deployable_def network_provider_def provider_of_def profile_read_def flaky_live_def
      hub_network_def example_network_def network_content_def mem_kube_def toManifest_def result_of_def)

lemma system_settles_witness:
  "\<exists>w' j. for_each (\<lambda>q. again (run_request flaky_hub flaky_kube q)) example_pass flaky_live = (w', None)
     \<and> s_works w' (''b'', ''net'') = Some ([''app'' \<mapsto> ''l2sm''], [j])"
proof -
  have stored: "mem_networks flaky_live = mem_networks example_hub" "mem_overlays flaky_live = mem_overlays example_hub"
    by (simp_all add: flaky_live_def example_hub_def)
  have d: "distinct example_pass" by (simp add: example_pass_def)
  have start: "s_works flaky_live = Map.empty" by (simp add: flaky_live_def)
  have cover: "covers (set example_pass) (mem_networks flaky_live) (mem_overlays flaky_live)"
    unfolding stored
    by (simp add: covers_def example_pass_def obj_find_def key_of_def net_request_def slice_request_def example_hub_simps)
  have compat: "compatible (request_wants flaky_kube mem_networks mem_overlays mem_profiles flaky_live) (set example_pass)"
    by (rule example_compatible) (use example_network_stored example_slice_stored stored in simp_all)
  have able: "\<forall>q \<in> set example_pass. request_able flaky_kube mem_networks mem_overlays mem_profiles flaky_live q"
    using hub_network_deployable hub_slice_deployable example_network_stored example_slice_stored
    by (simp add: example_pass_def stored)
  obtain w' where w': "for_each (\<lambda>q. again (run_request flaky_hub flaky_kube q)) example_pass flaky_live = (w', None)"
    "converged flaky_kube mem_networks mem_overlays mem_profiles flaky_live (s_works w')"
    using system_settles [OF flaky_transient_laws flaky_api_laws rtranclp.rtrancl_refl start d cover able compat]
    by blast
  have b: "''b'' \<in> set (sns_clusters (sn_spec hub_network))" "net_name hub_network = ''net''"
    by (simp_all add: hub_network_def example_network_def)
  have n: "mem_networks flaky_live (rq_namespace net_request, rq_name net_request) = Some hub_network"
    using example_network_stored by (simp add: stored)
  from conjunct1 [OF w'(2) [unfolded converged_def], rule_format, OF n example_network_live] b
  have "\<exists>j. s_works w' (''b'', ''net'') = Some ([''app'' \<mapsto> ''l2sm''], [j])"
    by (auto simp: mem_names)
  with w'(1) show ?thesis by blast
qed

end
