(* ===== verification/Lifecycle.thy ===== *)
theory Lifecycle
  imports Settle
begin

text \<open>
  End to end: a network or slice requested through the gRPC service, deployed by its controller, deleted
  through the service and cleaned up by the controller. The handlers of \<open>Server\<close>, the reconcilers and
  the OCM client composed, on one state of the world.
\<close>

section \<open>What the controller finds\<close>

lemma copy_ident:
  "copy_of sn_meta sn_spec n m \<Longrightarrow> network_ident m = network_ident n"
  "copy_of so_meta so_spec s t \<Longrightarrow> slice_ident t = slice_ident s"
  by (simp_all add: copy_of_def key_of_def network_ident_def slice_ident_def)

definition network_request :: "pb_L2Network option \<Rightarrow> string \<Rightarrow> request" where
  "network_request m ns = \<lparr>rq_namespace = fst (network_target m ns), rq_name = snd (network_target m ns)\<rparr>"

definition overlay_request :: "pb_Slice option \<Rightarrow> string \<Rightarrow> request" where
  "overlay_request m ns = \<lparr>rq_namespace = fst (slice_target m ns), rq_name = snd (slice_target m ns)\<rparr>"

lemma request_keys [simp]:
  "(rq_namespace (network_request m ns), rq_name (network_request m ns)) = network_target m ns"
  "(rq_namespace (overlay_request s ns), rq_name (overlay_request s ns)) = slice_target s ns"
  by (simp_all add: network_request_def overlay_request_def)

lemma create_network_stores:
  assumes laws: "api_laws h works networks overlays"
    and run: "server_CreateNetwork gv h req w = (w', Inr resp)"
  defines "m \<equiv> CreateNetworkRequest_GetNetwork req" and "ns \<equiv> CreateNetworkRequest_GetNamespace req"
  shows "works w' = works w \<and> networks w (network_target m ns) = None
    \<and> (\<exists>n. networks w' (network_target m ns) = Some n
         \<and> network_ident n = network_ident (sliceNetworkFromProto gv m ns) \<and> deletion_is_zero (sn_meta n))"
proof -
  let ?x = "sliceNetworkFromProto gv m ns"
  from run have c: "h_create_network h ?x w = (w', None)"
    unfolding m_def ns_def by (auto simp: server_CreateNetwork_def Let_def split: prod.splits option.splits)
  from create_lawsD(3) [OF api_lawsD(1) [OF laws] c refl] obtain n where
    n: "networks w (network_target m ns) = None" "networks w' (network_target m ns) = Some n"
      "copy_of sn_meta sn_spec ?x n" "deletion_is_zero (sn_meta ?x) \<longrightarrow> deletion_is_zero (sn_meta n)"
    unfolding sliceNetworkFromProto_key by blast
  with copy_ident(1) [OF n(3)] api_lawsD(5) [OF laws c] show ?thesis by simp
qed

lemma create_slice_stores:
  assumes laws: "api_laws h works networks overlays"
    and run: "server_CreateSlice gv h req w = (w', Inr resp)"
  defines "m \<equiv> CreateSliceRequest_GetSlice req" and "ns \<equiv> CreateSliceRequest_GetNamespace req"
  shows "works w' = works w \<and> overlays w (slice_target m ns) = None
    \<and> (\<exists>s. overlays w' (slice_target m ns) = Some s
         \<and> slice_ident s = slice_ident (sliceOverlayFromProto gv m ns) \<and> deletion_is_zero (so_meta s))"
proof -
  let ?x = "sliceOverlayFromProto gv m ns"
  from run have c: "h_create_overlay h ?x w = (w', None)"
    unfolding m_def ns_def by (auto simp: server_CreateSlice_def Let_def split: prod.splits option.splits)
  from create_lawsD(3) [OF api_lawsD(3) [OF laws] c refl] obtain s where
    s: "overlays w (slice_target m ns) = None" "overlays w' (slice_target m ns) = Some s"
      "copy_of so_meta so_spec ?x s" "deletion_is_zero (so_meta ?x) \<longrightarrow> deletion_is_zero (so_meta s)"
    unfolding sliceOverlayFromProto_key by blast
  with copy_ident(2) [OF s(3)] api_lawsD(7) [OF laws c] show ?thesis by simp
qed

lemma delete_network_marks:
  assumes laws: "api_laws h works networks overlays"
    and run: "server_DeleteNetwork gv h req w = (w', Inr resp)"
    and n: "networks w (network_target (DeleteNetworkRequest_GetNetwork req) (DeleteNetworkRequest_GetNamespace req)) = Some n"
      "guarded_network n"
  shows "works w' = works w
    \<and> (\<exists>m. networks w' (network_target (DeleteNetworkRequest_GetNetwork req) (DeleteNetworkRequest_GetNamespace req)) = Some m
         \<and> network_ident m = network_ident n \<and> guarded_network m \<and> \<not> deletion_is_zero (sn_meta m))"
proof -
  let ?x = "sliceNetworkFromProto gv (DeleteNetworkRequest_GetNetwork req) (DeleteNetworkRequest_GetNamespace req)"
  from run have d: "h_delete_network h (net_namespace ?x) (net_name ?x) w = (w', None)"
    by (auto simp: server_DeleteNetwork_def Let_def split: prod.splits option.splits)
  have key: "(net_namespace ?x, net_name ?x) = network_target (DeleteNetworkRequest_GetNetwork req) (DeleteNetworkRequest_GetNamespace req)"
    by (simp add: key_of_def flip: sliceNetworkFromProto_key [of gv])
  from n(2) have "m_finalizers (sn_meta n) \<noteq> []" by (auto simp: guarded_network_def)
  with delete_lawsD(3) [OF api_lawsD(2) [OF laws] d refl, unfolded key] n(1) obtain m where
    m: "networks w' (network_target (DeleteNetworkRequest_GetNetwork req) (DeleteNetworkRequest_GetNamespace req)) = Some m"
      "copy_of sn_meta sn_spec n m" "\<not> deletion_is_zero (sn_meta m)" by auto
  with copy_ident(1) [OF m(2)] copy_of_network [OF m(2)] n(2) api_lawsD(6) [OF laws d] show ?thesis by blast
qed

lemma delete_slice_marks:
  assumes laws: "api_laws h works networks overlays"
    and run: "server_DeleteSlice gv h req w = (w', Inr resp)"
    and s: "overlays w (slice_target (DeleteSliceRequest_GetSlice req) (DeleteSliceRequest_GetNamespace req)) = Some s"
      "guarded_overlay s"
  shows "works w' = works w
    \<and> (\<exists>m. overlays w' (slice_target (DeleteSliceRequest_GetSlice req) (DeleteSliceRequest_GetNamespace req)) = Some m
         \<and> slice_ident m = slice_ident s \<and> guarded_overlay m \<and> \<not> deletion_is_zero (so_meta m))"
proof -
  let ?x = "sliceOverlayFromProto gv (DeleteSliceRequest_GetSlice req) (DeleteSliceRequest_GetNamespace req)"
  from run have d: "h_delete_overlay h (overlay_namespace ?x) (overlay_name ?x) w = (w', None)"
    by (auto simp: server_DeleteSlice_def Let_def split: prod.splits option.splits)
  have key: "(overlay_namespace ?x, overlay_name ?x) = slice_target (DeleteSliceRequest_GetSlice req) (DeleteSliceRequest_GetNamespace req)"
    by (simp add: key_of_def flip: sliceOverlayFromProto_key [of gv])
  from s(2) have "m_finalizers (so_meta s) \<noteq> []" by (auto simp: guarded_overlay_def)
  with delete_lawsD(3) [OF api_lawsD(4) [OF laws] d refl, unfolded key] s(1) obtain m where
    m: "overlays w' (slice_target (DeleteSliceRequest_GetSlice req) (DeleteSliceRequest_GetNamespace req)) = Some m"
      "copy_of so_meta so_spec s m" "\<not> deletion_is_zero (so_meta m)" by auto
  with copy_ident(2) [OF m(2)] copy_of_overlay [OF m(2)] s(2) api_lawsD(8) [OF laws d] show ?thesis by blast
qed

section \<open>Networks\<close>

text \<open>The clusters and the name a network message speaks of.\<close>

lemma fromProto_network [simp]:
  "sns_clusters (sn_spec (sliceNetworkFromProto gv m ns)) = map Cluster_GetName (L2Network_GetClusters m)"
  "net_name (sliceNetworkFromProto gv m ns) = L2Network_GetName m"
  "net_namespace (sliceNetworkFromProto gv m ns) = DefaultIfEmpty ns ''default''"
  "sns_provider (sn_spec (sliceNetworkFromProto gv m ns)) = providerFromProto (L2Network_GetProvider m)"
  by (simp_all add: sliceNetworkFromProto_def)

lemma network_run_deploys:
  assumes laws: "system_laws h k works networks overlays"
    and run: "network_Reconcile h (Some (ocm_client k)) req w = (w', None)"
    and n: "networks w (rq_namespace req, rq_name req) = Some n" "deletion_is_zero (sn_meta n)"
      "network_ident n = network_ident x"
  shows "\<exists>p. (\<forall>q. sns_provider (sn_spec x) = Some q \<longrightarrow> p = q)
    \<and> (\<forall>c. c \<in> set (sns_clusters (sn_spec x)) \<longrightarrow> (\<exists>j.
          toManifest k (ObjL2Network (network_object k (network_with_provider p x) (net_namespace x))) = Inr j
        \<and> works w' (c, work_name k (net_name x)) = Some ([''app'' \<mapsto> ''l2sm''], [j])))
    \<and> (\<forall>key. key \<notin> network_keys k x \<longrightarrow> works w' key = works w key)
    \<and> (\<exists>m. networks w' (rq_namespace req, rq_name req) = Some m \<and> network_ident m = network_ident x \<and> guarded_network m)"
proof -
  have live: "\<not> \<not> deletion_is_zero (sn_meta n)" using n(2) by simp
  have wl: "work_laws k works" using system_lawsD(1) [OF laws] by simp
  from net_rec.deploys_by [OF laws run n(1) live] obtain m p w2 w3 where
    m: "networks w' (rq_namespace req, rq_name req) = Some m" "network_ContainsFinalizer h m"
      "network_ident m = network_ident n" "works w3 = works w" "resolveNetworkProvider h m w2 = (w3, Inr p)"
    and app: "ocm_ApplyNetwork k (network_with_provider p m) (net_namespace (network_with_provider p m)) w3 = (w', None)"
    by (elim exE conjE) (rule that)
  have i: "network_ident m = network_ident x" using m(3) n(3) by simp
  note cong = network_cong [OF i] network_object_cong(3-5) [OF i]
  have prov: "p = q" if "sns_provider (sn_spec x) = Some q" for q
    using m(5) that cong(7) by (simp add: resolveNetworkProvider_def)
  note eff = ocm_ApplyNetwork_effect [OF wl app]
  have content: "\<exists>j. toManifest k (ObjL2Network (network_object k (network_with_provider p x) (net_namespace x))) = Inr j
        \<and> works w' (c, work_name k (net_name x)) = Some ([''app'' \<mapsto> ''l2sm''], [j])"
    if c: "c \<in> set (sns_clusters (sn_spec x))" for c
  proof -
    have c': "c \<in> set (sns_clusters (sn_spec (network_with_provider p m)))" using c cong(7) by simp
    have st: "works w' (c, work_name k (net_name x)) = network_content k (network_with_provider p x) (net_namespace x)"
      and "network_content k (network_with_provider p x) (net_namespace x) \<noteq> None"
      using eff(2) [OF refl c'] ocm_ApplyNetwork_content [OF app c'] by (simp_all add: network_key_def cong(2,5))
    from network_content_ok [OF this(2)] st show ?thesis by (auto simp: deployed_def)
  qed
  have frame: "works w' key = works w key" if "key \<notin> network_keys k x" for key
    using eff(1) [folded network_keys_def, unfolded cong(3), OF that] m(4) by simp
  have g: "guarded_network m"
    using m(2) by (simp add: network_ContainsFinalizer_def guarded_network_def system_lawsD(2) [OF laws])
  show ?thesis
    by (rule exI [of _ p]) (intro conjI allI impI, erule prov, erule content, erule frame, rule exI, intro conjI, rule m(1), rule i, rule g)
qed

lemma network_run_cleans:
  assumes laws: "system_laws h k works networks overlays"
    and run: "network_Reconcile h (Some (ocm_client k)) req w = (w', None)"
    and n: "networks w (rq_namespace req, rq_name req) = Some n" "\<not> deletion_is_zero (sn_meta n)"
      "guarded_network n" "network_ident n = network_ident x"
  shows "(\<forall>key. works w' key = (if key \<in> network_keys k x then None else works w key))
    \<and> (\<forall>m. networks w' (rq_namespace req, rq_name req) = Some m \<longrightarrow> \<not> guarded_network m)"
proof -
  have fin: "network_ContainsFinalizer h m = guarded_network m" for m
    by (simp add: network_ContainsFinalizer_def guarded_network_def system_lawsD(2) [OF laws])
  from laws run show ?thesis
  proof (cases rule: net_rec.outcome)
    case (cleaned y)
    then have "y = n" using n(1) by simp
    then have keys: "network_keys k y = network_keys k x" using network_cong(4) [OF n(4)] by simp
    show ?thesis using cleaned(4,5) [unfolded keys] cleaned(6) by (auto simp: fin simp del: split_paired_All)
  qed (use n in \<open>auto simp: fin\<close>)
qed

lemma message_network_keys:
  "(c, name) \<in> network_keys k (sliceNetworkFromProto gv m ns) \<longleftrightarrow>
     c \<in> set (map Cluster_GetName (L2Network_GetClusters m)) \<and> name = work_name k (L2Network_GetName m)"
  by (auto simp: network_keys_def network_key_def)

text \<open>The first half of a network's life, from the request to its ManifestWorks, and the second.\<close>

lemma network_created:
  assumes laws: "system_laws h k works networks overlays" "api_laws h works networks overlays"
    and create: "server_CreateNetwork gv h creq w = (w1, Inr cresp)"
    and deploy: "network_Reconcile h (Some (ocm_client k)) (network_request m ns) w1 = (w2, None)"
    and req: "m = CreateNetworkRequest_GetNetwork creq" "ns = CreateNetworkRequest_GetNamespace creq"
  shows "(\<exists>p. (\<forall>q. providerFromProto (L2Network_GetProvider m) = Some q \<longrightarrow> p = q)
      \<and> (\<forall>c. c \<in> set (map Cluster_GetName (L2Network_GetClusters m)) \<longrightarrow> (\<exists>j.
          toManifest k (ObjL2Network (network_object k (network_with_provider p (sliceNetworkFromProto gv m ns))
            (DefaultIfEmpty ns ''default''))) = Inr j
        \<and> works w2 (c, work_name k (L2Network_GetName m)) = Some ([''app'' \<mapsto> ''l2sm''], [j])))
      \<and> (\<forall>c name. c \<notin> set (map Cluster_GetName (L2Network_GetClusters m)) \<longrightarrow> works w2 (c, name) = works w (c, name)))"
    and "\<forall>key. key \<notin> network_keys k (sliceNetworkFromProto gv m ns) \<longrightarrow> works w2 key = works w key"
    and "\<exists>n. networks w2 (network_target m ns) = Some n \<and> network_ident n = network_ident (sliceNetworkFromProto gv m ns)
           \<and> guarded_network n"
proof -
  let ?x = "sliceNetworkFromProto gv m ns"
  from create_network_stores [OF laws(2) create, folded req] obtain n where
    n: "works w1 = works w" "networks w1 (network_target m ns) = Some n" "network_ident n = network_ident ?x"
      "deletion_is_zero (sn_meta n)" by blast
  from network_run_deploys [OF laws(1) deploy n(2) [folded request_keys(1)] n(4,3)] obtain p where
    p: "\<forall>q. sns_provider (sn_spec ?x) = Some q \<longrightarrow> p = q"
      "\<forall>c. c \<in> set (sns_clusters (sn_spec ?x)) \<longrightarrow> (\<exists>j.
          toManifest k (ObjL2Network (network_object k (network_with_provider p ?x) (net_namespace ?x))) = Inr j
        \<and> works w2 (c, work_name k (net_name ?x)) = Some ([''app'' \<mapsto> ''l2sm''], [j]))"
    and frame: "\<forall>key. key \<notin> network_keys k ?x \<longrightarrow> works w2 key = works w1 key"
    and stored: "\<exists>n. networks w2 (network_target m ns) = Some n \<and> network_ident n = network_ident ?x \<and> guarded_network n"
    unfolding request_keys by (elim exE conjE) (rule that, assumption+, intro exI conjI)
  show 2: "\<forall>key. key \<notin> network_keys k ?x \<longrightarrow> works w2 key = works w key" using frame unfolding n(1) .
  then have other: "\<forall>c name. c \<notin> set (map Cluster_GetName (L2Network_GetClusters m)) \<longrightarrow> works w2 (c, name) = works w (c, name)"
    using message_network_keys by blast
  show "(\<exists>p. (\<forall>q. providerFromProto (L2Network_GetProvider m) = Some q \<longrightarrow> p = q)
      \<and> (\<forall>c. c \<in> set (map Cluster_GetName (L2Network_GetClusters m)) \<longrightarrow> (\<exists>j.
          toManifest k (ObjL2Network (network_object k (network_with_provider p ?x)
            (DefaultIfEmpty ns ''default''))) = Inr j
        \<and> works w2 (c, work_name k (L2Network_GetName m)) = Some ([''app'' \<mapsto> ''l2sm''], [j])))
      \<and> (\<forall>c name. c \<notin> set (map Cluster_GetName (L2Network_GetClusters m)) \<longrightarrow> works w2 (c, name) = works w (c, name)))"
    by (rule exI [of _ p], intro conjI, rule p(1) [unfolded fromProto_network], rule p(2) [unfolded fromProto_network], rule other)
  show "\<exists>n. networks w2 (network_target m ns) = Some n \<and> network_ident n = network_ident ?x \<and> guarded_network n"
    by (rule stored)
qed

lemma network_deleted:
  assumes laws: "system_laws h k works networks overlays" "api_laws h works networks overlays"
    and frame: "\<forall>key. key \<notin> network_keys k (sliceNetworkFromProto gv m ns) \<longrightarrow> works w2 key = works w key"
    and n: "\<exists>n. networks w2 (network_target m ns) = Some n \<and> network_ident n = network_ident (sliceNetworkFromProto gv m ns)
              \<and> guarded_network n"
    and delete: "server_DeleteNetwork gv h dreq w2 = (w3, Inr dresp)"
    and same: "network_target (DeleteNetworkRequest_GetNetwork dreq) (DeleteNetworkRequest_GetNamespace dreq) = network_target m ns"
    and clean: "network_Reconcile h (Some (ocm_client k))
        (network_request (DeleteNetworkRequest_GetNetwork dreq) (DeleteNetworkRequest_GetNamespace dreq)) w3 = (w4, None)"
  shows "(\<forall>c name. works w4 (c, name) =
        (if c \<in> set (map Cluster_GetName (L2Network_GetClusters m)) \<and> name = work_name k (L2Network_GetName m)
         then None else works w (c, name)))
    \<and> (\<forall>n. networks w4 (network_target m ns) = Some n \<longrightarrow> sliceNetworkFinalizer \<notin> set (m_finalizers (sn_meta n)))"
proof -
  let ?x = "sliceNetworkFromProto gv m ns"
  from n obtain n where n: "networks w2 (network_target m ns) = Some n" "network_ident n = network_ident ?x" "guarded_network n" by blast
  from delete_network_marks [OF laws(2) delete, unfolded same, OF n(1,3)] obtain d where
    d: "works w3 = works w2" "networks w3 (network_target m ns) = Some d" "network_ident d = network_ident n"
      "guarded_network d" "\<not> deletion_is_zero (sn_meta d)" by blast
  note gone = network_run_cleans [OF laws(1) clean, unfolded request_keys same, OF d(2,5,4) trans [OF d(3) n(2)], unfolded d(1)]
  have "works w4 (c, name) = (if (c, name) \<in> network_keys k ?x then None else works w (c, name))" for c name
    using spec [OF conjunct1 [OF gone], of "(c, name)"] spec [OF frame, of "(c, name)"] by simp
  with conjunct2 [OF gone] show ?thesis unfolding message_network_keys guarded_network_def by (intro conjI allI impI) blast+
qed

text \<open>C9: the life of a network, end to end. When CreateNetwork succeeds and the controller's run for the
  new network succeeds, every requested cluster has the ManifestWork of the requested L2Network, with
  the requested provider where one is given (else that of the profile), and no other work changed.
  When then DeleteNetwork for it succeeds and the controller's next run succeeds, every ManifestWork
  of the network is gone, every other work is as it was before the network was created, and the hub
  no longer holds the network with the finalizer.\<close>

theorem network_lifecycle:
  assumes laws: "system_laws h k works networks overlays" "api_laws h works networks overlays"
    and create: "server_CreateNetwork gv h creq w = (w1, Inr cresp)"
    and deploy: "network_Reconcile h (Some (ocm_client k)) (network_request m ns) w1 = (w2, None)"
    and req: "m = CreateNetworkRequest_GetNetwork creq" "ns = CreateNetworkRequest_GetNamespace creq"
  shows "(\<exists>p. (\<forall>q. providerFromProto (L2Network_GetProvider m) = Some q \<longrightarrow> p = q)
      \<and> (\<forall>c. c \<in> set (map Cluster_GetName (L2Network_GetClusters m)) \<longrightarrow> (\<exists>j.
          toManifest k (ObjL2Network (network_object k (network_with_provider p (sliceNetworkFromProto gv m ns))
            (DefaultIfEmpty ns ''default''))) = Inr j
        \<and> works w2 (c, work_name k (L2Network_GetName m)) = Some ([''app'' \<mapsto> ''l2sm''], [j])))
      \<and> (\<forall>c name. c \<notin> set (map Cluster_GetName (L2Network_GetClusters m)) \<longrightarrow> works w2 (c, name) = works w (c, name)))
    \<and> (\<forall>dreq w3 dresp w4. server_DeleteNetwork gv h dreq w2 = (w3, Inr dresp) \<longrightarrow>
        network_target (DeleteNetworkRequest_GetNetwork dreq) (DeleteNetworkRequest_GetNamespace dreq) = network_target m ns \<longrightarrow>
        network_Reconcile h (Some (ocm_client k))
          (network_request (DeleteNetworkRequest_GetNetwork dreq) (DeleteNetworkRequest_GetNamespace dreq)) w3 = (w4, None) \<longrightarrow>
        (\<forall>c name. works w4 (c, name) =
            (if c \<in> set (map Cluster_GetName (L2Network_GetClusters m)) \<and> name = work_name k (L2Network_GetName m)
             then None else works w (c, name)))
        \<and> (\<forall>n. networks w4 (network_target m ns) = Some n \<longrightarrow> sliceNetworkFinalizer \<notin> set (m_finalizers (sn_meta n))))"
proof -
  note up = network_created [OF laws create deploy req]
  show ?thesis by (rule conjI [OF up(1)]) (intro allI impI, rule network_deleted [OF laws up(2,3)])
qed

definition example_create :: "pb_CreateNetworkRequest option" where
  "example_create = Some \<lparr>CreateNetworkRequest_Network = Some (network_message requested_network), CreateNetworkRequest_Namespace = ''ns''\<rparr>"

lemma network_lifecycle_witness:
  "\<exists>w1 w2 resp j. server_CreateNetwork gv_group mem_hub example_create empty_hub = (w1, Inr resp)
     \<and> network_Reconcile mem_hub (Some (ocm_client mem_kube)) (network_request (CreateNetworkRequest_GetNetwork example_create)
          (CreateNetworkRequest_GetNamespace example_create)) w1 = (w2, None)
     \<and> s_works w2 (''b'', ''net'') = Some ([''app'' \<mapsto> ''l2sm''], [j])"
proof -
  let ?m = "CreateNetworkRequest_GetNetwork example_create" and ?ns = "CreateNetworkRequest_GetNamespace example_create"
  let ?x = "sliceNetworkFromProto gv_group ?m ?ns"
  have name: "L2Network_GetName ?m = ''net''" "''b'' \<in> set (map Cluster_GetName (L2Network_GetClusters ?m))"
    by (simp_all add: example_create_def message_getters network_message_def requested_network_def cluster_message_def)
  obtain p where p: "sns_provider (sn_spec ?x) = Some p"
    by (simp add: example_create_def message_getters network_message_def requested_network_def providerFromProto_def)
  obtain w1 resp where create: "server_CreateNetwork gv_group mem_hub example_create empty_hub = (w1, Inr resp)"
    by (simp add: server_CreateNetwork_def Let_def mem_hub_def on_networks_def obj_create_def obj_find_def empty_hub_def)
  from create_network_stores [OF mem_api_laws create] obtain n where
    n: "mem_networks w1 (network_target ?m ?ns) = Some n" "network_ident n = network_ident ?x" "deletion_is_zero (sn_meta n)" by blast
  have "sns_provider (sn_spec n) = Some p" using n(2) p by (simp add: network_ident_def)
  from mem_network_runs [OF n(1) [folded request_keys(1)] n(3) this] obtain w2 where
    run: "network_Reconcile mem_hub (Some (ocm_client mem_kube)) (network_request ?m ?ns) w1 = (w2, None)" by blast
  from conjunct1 [OF network_lifecycle [OF mem_system_laws mem_api_laws create run refl refl]] obtain q where
    works: "\<forall>c. c \<in> set (map Cluster_GetName (L2Network_GetClusters ?m)) \<longrightarrow> (\<exists>j.
        toManifest (mem_kube :: hub_store kube) (ObjL2Network (network_object (mem_kube :: hub_store kube) (network_with_provider q ?x) (DefaultIfEmpty ?ns ''default''))) = Inr j
      \<and> s_works w2 (c, work_name (mem_kube :: hub_store kube) (L2Network_GetName ?m)) = Some ([''app'' \<mapsto> ''l2sm''], [j]))"
    by (elim exE conjE) (rule that)
  from mp [OF spec [OF works] name(2)] obtain j where "s_works w2 (''b'', ''net'') = Some ([''app'' \<mapsto> ''l2sm''], [j])"
    unfolding name(1) mem_names by (elim exE conjE) (rule that)
  with create run show ?thesis by (intro exI conjI)
qed

section \<open>Slices\<close>

lemma fromProto_slice [simp]:
  "slice_nodes (sliceOverlayFromProto gv m ns) = map overlay_node (Slice_GetClusters m)"
  "overlay_namespace (sliceOverlayFromProto gv m ns) = DefaultIfEmpty ns ''default''"
  "sos_provider (so_spec (sliceOverlayFromProto gv m ns)) = providerFromProto (Slice_GetProvider m)"
  "sos_monitoring (so_spec (sliceOverlayFromProto gv m ns)) = None"
  "sos_topology (so_spec (sliceOverlayFromProto gv m ns))
     = Some \<lparr>ot_nodes = map overlay_node (Slice_GetClusters m), ot_links = map proto_link (Slice_GetLinks m)\<rparr>"
  by (simp_all add: sliceOverlayFromProto_def Let_def slice_nodes_def)

lemma fromProto_slice_name: "overlay_name (sliceOverlayFromProto gv m ns) = snd (slice_target m ns)"
  using sliceOverlayFromProto_key [of gv m ns] by (simp add: key_of_def prod_eq_iff)

lemma slice_run_deploys:
  assumes laws: "system_laws h k works networks overlays"
    and run: "overlay_Reconcile h (Some (ocm_client k)) req w = (w', None)"
    and s: "overlays w (rq_namespace req, rq_name req) = Some s" "deletion_is_zero (so_meta s)"
      "slice_ident s = slice_ident x"
    and x: "sos_topology (so_spec x) = Some t" "sos_monitoring (so_spec x) = None"
  shows "\<exists>p maps v v'. (\<forall>q. sos_provider (so_spec x) = Some q \<longrightarrow> p = q)
    \<and> resolve_clusters k (ot_nodes t) Map.empty v = (v', Inr maps)
    \<and> (\<forall>c. c \<in> set (ot_nodes t) \<longrightarrow> (\<exists>ned j.
          ConstructNED (k_lib k) (NewNEDGenerator (k_env k) (provider_controller (Some p)))
            (ned_values maps Map.empty (slice_links t) (oc_name c)) = Some ned
        \<and> toManifest k (ObjNED (in_namespace (DefaultIfEmpty (overlay_namespace x) ''he-codeco-netma'') ned)) = Inr j
        \<and> works w' (oc_name c, work_name k (overlay_name x)) = Some ([''app'' \<mapsto> ''l2sm''], [j])))
    \<and> (\<forall>key. key \<notin> slice_keys k x \<longrightarrow> works w' key = works w key)
    \<and> (\<exists>m. overlays w' (rq_namespace req, rq_name req) = Some m \<and> slice_ident m = slice_ident x \<and> guarded_overlay m)"
proof -
  have live: "\<not> \<not> deletion_is_zero (so_meta s)" using s(2) by simp
  have wl: "work_laws k works" using system_lawsD(1) [OF laws] by simp
  from ov_rec.deploys_by [OF laws run s(1) live] obtain m p w2 w3 where
    m: "overlays w' (rq_namespace req, rq_name req) = Some m" "overlay_ContainsFinalizer h m"
      "slice_ident m = slice_ident s" "works w3 = works w" "resolveOverlayProvider h m w2 = (w3, Inr p)"
    and app: "ocm_ApplySlice k (overlay_with_provider p m) (overlay_namespace (overlay_with_provider p m)) w3 = (w', None)"
    by (elim exE conjE) (rule that)
  have i: "slice_ident m = slice_ident x" using m(3) s(3) by simp
  note cong = slice_cong(2-5) [OF i]
  have prov: "p = q" if "sos_provider (so_spec x) = Some q" for q
    using m(5) that cong(4) by (simp add: resolveOverlayProvider_def)
  have spec: "sos_topology (so_spec (overlay_with_provider p m)) = Some t" "sos_monitoring (so_spec (overlay_with_provider p m)) = None"
    "sos_provider (so_spec (overlay_with_provider p m)) = Some p"
    using x cong(4) by (simp_all add: overlay_with_provider_def)
  from wl app obtain maps gen nodes w4 where
    res: "resolve_clusters k (ot_nodes t) Map.empty w3 = (w4, Inr maps)"
    and mon: "slice_monitoring k (overlay_with_provider p m) (ot_nodes t) = Some (Inr (gen, nodes))"
    and stored: "\<And>c. c \<in> set (ot_nodes t) \<Longrightarrow> works w' (slice_key k (overlay_with_provider p m) (oc_name c))
        = slice_content k gen nodes maps (slice_links t) (DefaultIfEmpty (overlay_namespace (overlay_with_provider p m)) ''he-codeco-netma'') (oc_name c)
        \<and> slice_content k gen nodes maps (slice_links t) (DefaultIfEmpty (overlay_namespace (overlay_with_provider p m)) ''he-codeco-netma'') (oc_name c) \<noteq> None"
    by (rule ocm_ApplySlice_ok) (use spec(1) that in simp)
  have gen: "gen = NewNEDGenerator (k_env k) (provider_controller (Some p))" "nodes = Map.empty"
    using mon by (simp_all add: slice_monitoring_def spec Let_def)
  have content: "\<exists>ned j. ConstructNED (k_lib k) (NewNEDGenerator (k_env k) (provider_controller (Some p)))
            (ned_values maps Map.empty (slice_links t) (oc_name c)) = Some ned
        \<and> toManifest k (ObjNED (in_namespace (DefaultIfEmpty (overlay_namespace x) ''he-codeco-netma'') ned)) = Inr j
        \<and> works w' (oc_name c, work_name k (overlay_name x)) = Some ([''app'' \<mapsto> ''l2sm''], [j])"
    if c: "c \<in> set (ot_nodes t)" for c
  proof -
    note st = stored [OF c, unfolded slice_key_def overlay_with_provider_simps cong(2,3) gen]
    from slice_content_ok [OF conjunct2 [OF st]] conjunct1 [OF st] show ?thesis by auto
  qed
  have frame: "works w' key = works w key" if "key \<notin> slice_keys k x" for key
    using ocm_ApplySlice_frame [OF wl app, unfolded cong(1), OF that] m(4) by simp
  have g: "guarded_overlay m"
    using m(2) by (simp add: overlay_ContainsFinalizer_def guarded_overlay_def system_lawsD(2) [OF laws])
  have all: "\<forall>c. c \<in> set (ot_nodes t) \<longrightarrow> (\<exists>ned j.
          ConstructNED (k_lib k) (NewNEDGenerator (k_env k) (provider_controller (Some p)))
            (ned_values maps Map.empty (slice_links t) (oc_name c)) = Some ned
        \<and> toManifest k (ObjNED (in_namespace (DefaultIfEmpty (overlay_namespace x) ''he-codeco-netma'') ned)) = Inr j
        \<and> works w' (oc_name c, work_name k (overlay_name x)) = Some ([''app'' \<mapsto> ''l2sm''], [j]))"
    "\<forall>key. key \<notin> slice_keys k x \<longrightarrow> works w' key = works w key"
    "\<forall>q. sos_provider (so_spec x) = Some q \<longrightarrow> p = q"
    by (intro allI impI, erule content) (intro allI impI, erule frame, intro allI impI, erule prov)
  show ?thesis
    by (intro exI conjI) (rule all(3) res all(1,2) m(1) i g)+
qed

lemma slice_run_cleans:
  assumes laws: "system_laws h k works networks overlays"
    and run: "overlay_Reconcile h (Some (ocm_client k)) req w = (w', None)"
    and s: "overlays w (rq_namespace req, rq_name req) = Some s" "\<not> deletion_is_zero (so_meta s)"
      "guarded_overlay s" "slice_ident s = slice_ident x"
  shows "(\<forall>key. works w' key = (if key \<in> slice_keys k x then None else works w key))
    \<and> (\<forall>m. overlays w' (rq_namespace req, rq_name req) = Some m \<longrightarrow> \<not> guarded_overlay m)"
proof -
  have fin: "overlay_ContainsFinalizer h m = guarded_overlay m" for m
    by (simp add: overlay_ContainsFinalizer_def guarded_overlay_def system_lawsD(2) [OF laws])
  from laws run show ?thesis
  proof (cases rule: ov_rec.outcome)
    case (cleaned y)
    then have "y = s" using s(1) by simp
    then have keys: "slice_keys k y = slice_keys k x" using slice_wants_cong(4) [OF s(4)] by simp
    show ?thesis using cleaned(4,5) [unfolded keys] cleaned(6) by (auto simp: fin simp del: split_paired_All)
  qed (use s in \<open>auto simp: fin\<close>)
qed

lemma message_slice_keys:
  "(c, name) \<in> slice_keys k (sliceOverlayFromProto gv m ns) \<longleftrightarrow>
     c \<in> set (map Cluster_GetName (Slice_GetClusters m)) \<and> name = work_name k (snd (slice_target m ns))"
  by (auto simp: slice_keys_def slice_key_def fromProto_slice_name overlay_node_def image_image)

lemma slice_created:
  assumes laws: "system_laws h k works networks overlays" "api_laws h works networks overlays"
    and create: "server_CreateSlice gv h creq w = (w1, Inr cresp)"
    and deploy: "overlay_Reconcile h (Some (ocm_client k)) (overlay_request m ns) w1 = (w2, None)"
    and req: "m = CreateSliceRequest_GetSlice creq" "ns = CreateSliceRequest_GetNamespace creq"
  shows "(\<exists>p maps v v'. (\<forall>q. providerFromProto (Slice_GetProvider m) = Some q \<longrightarrow> p = q)
      \<and> resolve_clusters k (map overlay_node (Slice_GetClusters m)) Map.empty v = (v', Inr maps)
      \<and> (\<forall>c. c \<in> set (map Cluster_GetName (Slice_GetClusters m)) \<longrightarrow> (\<exists>ned j.
          ConstructNED (k_lib k) (NewNEDGenerator (k_env k) (provider_controller (Some p)))
            (ned_values maps Map.empty (slice_links \<lparr>ot_nodes = map overlay_node (Slice_GetClusters m),
                ot_links = map proto_link (Slice_GetLinks m)\<rparr>) c) = Some ned
        \<and> neds_nodeConfig (ned_spec ned) = None
        \<and> toManifest k (ObjNED (in_namespace (DefaultIfEmpty ns ''default'') ned)) = Inr j
        \<and> works w2 (c, work_name k (snd (slice_target m ns))) = Some ([''app'' \<mapsto> ''l2sm''], [j])))
      \<and> (\<forall>c name. c \<notin> set (map Cluster_GetName (Slice_GetClusters m)) \<longrightarrow> works w2 (c, name) = works w (c, name)))"
    and "\<forall>key. key \<notin> slice_keys k (sliceOverlayFromProto gv m ns) \<longrightarrow> works w2 key = works w key"
    and "\<exists>s. overlays w2 (slice_target m ns) = Some s \<and> slice_ident s = slice_ident (sliceOverlayFromProto gv m ns)
           \<and> guarded_overlay s"
proof -
  let ?x = "sliceOverlayFromProto gv m ns"
  let ?t = "\<lparr>ot_nodes = map overlay_node (Slice_GetClusters m), ot_links = map proto_link (Slice_GetLinks m)\<rparr>"
  let ?gen = "\<lambda>p. NewNEDGenerator (k_env k) (provider_controller (Some p))"
  have ns: "DefaultIfEmpty (overlay_namespace ?x) ''he-codeco-netma'' = DefaultIfEmpty ns ''default''"
    by (simp add: DefaultIfEmpty_def)
  from create_slice_stores [OF laws(2) create, folded req] obtain s where
    s: "works w1 = works w" "overlays w1 (slice_target m ns) = Some s" "slice_ident s = slice_ident ?x"
      "deletion_is_zero (so_meta s)" by blast
  from slice_run_deploys [OF laws(1) deploy s(2) [folded request_keys(2)] s(4,3) fromProto_slice(5,4)]
  obtain p maps v v' where
    p: "\<forall>q. sos_provider (so_spec ?x) = Some q \<longrightarrow> p = q"
      "resolve_clusters k (ot_nodes ?t) Map.empty v = (v', Inr maps)"
      "\<forall>c. c \<in> set (ot_nodes ?t) \<longrightarrow> (\<exists>ned j. ConstructNED (k_lib k) (?gen p) (ned_values maps Map.empty (slice_links ?t) (oc_name c)) = Some ned
        \<and> toManifest k (ObjNED (in_namespace (DefaultIfEmpty (overlay_namespace ?x) ''he-codeco-netma'') ned)) = Inr j
        \<and> works w2 (oc_name c, work_name k (overlay_name ?x)) = Some ([''app'' \<mapsto> ''l2sm''], [j]))"
    and frame: "\<forall>key. key \<notin> slice_keys k ?x \<longrightarrow> works w2 key = works w1 key"
    and stored: "\<exists>s. overlays w2 (slice_target m ns) = Some s \<and> slice_ident s = slice_ident ?x \<and> guarded_overlay s"
    unfolding request_keys by (elim exE conjE) (rule that, assumption+, intro exI conjI)
  show 2: "\<forall>key. key \<notin> slice_keys k ?x \<longrightarrow> works w2 key = works w key" using frame unfolding s(1) .
  have other: "works w2 (c, name) = works w (c, name)" if "c \<notin> set (map Cluster_GetName (Slice_GetClusters m))" for c name
    using spec [OF 2, of "(c, name)"] that message_slice_keys by blast
  have each: "\<exists>ned j. ConstructNED (k_lib k) (?gen p) (ned_values maps Map.empty (slice_links ?t) c) = Some ned
        \<and> neds_nodeConfig (ned_spec ned) = None
        \<and> toManifest k (ObjNED (in_namespace (DefaultIfEmpty ns ''default'') ned)) = Inr j
        \<and> works w2 (c, work_name k (snd (slice_target m ns))) = Some ([''app'' \<mapsto> ''l2sm''], [j])"
    if c: "c \<in> set (map Cluster_GetName (Slice_GetClusters m))" for c
  proof -
    from c obtain pc where pc: "overlay_node pc \<in> set (ot_nodes ?t)" "oc_name (overlay_node pc) = c"
      by (auto simp: overlay_node_def)
    from mp [OF spec [OF p(3)] pc(1)] obtain ned j where d: "ConstructNED (k_lib k) (?gen p) (ned_values maps Map.empty (slice_links ?t) c) = Some ned"
      "toManifest k (ObjNED (in_namespace (DefaultIfEmpty ns ''default'') ned)) = Inr j"
      "works w2 (c, work_name k (snd (slice_target m ns))) = Some ([''app'' \<mapsto> ''l2sm''], [j])"
      unfolding pc(2) ns fromProto_slice_name by (elim exE conjE) (rule that)
    then show ?thesis using ned_values_node [OF d(1)] by (intro exI conjI)
  qed
  show "(\<exists>p maps v v'. (\<forall>q. providerFromProto (Slice_GetProvider m) = Some q \<longrightarrow> p = q)
      \<and> resolve_clusters k (map overlay_node (Slice_GetClusters m)) Map.empty v = (v', Inr maps)
      \<and> (\<forall>c. c \<in> set (map Cluster_GetName (Slice_GetClusters m)) \<longrightarrow> (\<exists>ned j.
          ConstructNED (k_lib k) (NewNEDGenerator (k_env k) (provider_controller (Some p)))
            (ned_values maps Map.empty (slice_links ?t) c) = Some ned
        \<and> neds_nodeConfig (ned_spec ned) = None
        \<and> toManifest k (ObjNED (in_namespace (DefaultIfEmpty ns ''default'') ned)) = Inr j
        \<and> works w2 (c, work_name k (snd (slice_target m ns))) = Some ([''app'' \<mapsto> ''l2sm''], [j])))
      \<and> (\<forall>c name. c \<notin> set (map Cluster_GetName (Slice_GetClusters m)) \<longrightarrow> works w2 (c, name) = works w (c, name)))"
    by (rule exI [of _ p], rule exI [of _ maps], rule exI [of _ v], rule exI [of _ v'], intro conjI,
        rule p(1) [unfolded fromProto_slice], rule p(2) [unfolded overlay_topology.simps])
      (intro allI impI, erule each, intro allI impI, erule other)
  show "\<exists>s. overlays w2 (slice_target m ns) = Some s \<and> slice_ident s = slice_ident ?x \<and> guarded_overlay s"
    by (rule stored)
qed

lemma slice_deleted:
  assumes laws: "system_laws h k works networks overlays" "api_laws h works networks overlays"
    and frame: "\<forall>key. key \<notin> slice_keys k (sliceOverlayFromProto gv m ns) \<longrightarrow> works w2 key = works w key"
    and s: "\<exists>s. overlays w2 (slice_target m ns) = Some s \<and> slice_ident s = slice_ident (sliceOverlayFromProto gv m ns)
              \<and> guarded_overlay s"
    and delete: "server_DeleteSlice gv h dreq w2 = (w3, Inr dresp)"
    and same: "slice_target (DeleteSliceRequest_GetSlice dreq) (DeleteSliceRequest_GetNamespace dreq) = slice_target m ns"
    and clean: "overlay_Reconcile h (Some (ocm_client k))
        (overlay_request (DeleteSliceRequest_GetSlice dreq) (DeleteSliceRequest_GetNamespace dreq)) w3 = (w4, None)"
  shows "(\<forall>c name. works w4 (c, name) =
            (if c \<in> set (map Cluster_GetName (Slice_GetClusters m)) \<and> name = work_name k (snd (slice_target m ns))
             then None else works w (c, name)))
        \<and> (\<forall>t. overlays w4 (slice_target m ns) = Some t \<longrightarrow> sliceOverlayFinalizer \<notin> set (m_finalizers (so_meta t)))"
proof -
  let ?x = "sliceOverlayFromProto gv m ns"
  from s obtain s where s: "overlays w2 (slice_target m ns) = Some s" "slice_ident s = slice_ident ?x" "guarded_overlay s" by blast
  from delete_slice_marks [OF laws(2) delete, unfolded same, OF s(1,3)] obtain d where
    d: "works w3 = works w2" "overlays w3 (slice_target m ns) = Some d" "slice_ident d = slice_ident s"
      "guarded_overlay d" "\<not> deletion_is_zero (so_meta d)" by blast
  note gone = slice_run_cleans [OF laws(1) clean, unfolded request_keys same, OF d(2,5,4) trans [OF d(3) s(2)], unfolded d(1)]
  have "works w4 (c, name) = (if (c, name) \<in> slice_keys k ?x then None else works w (c, name))" for c name
    using spec [OF conjunct1 [OF gone], of "(c, name)"] spec [OF frame, of "(c, name)"] by simp
  with conjunct2 [OF gone] show ?thesis unfolding message_slice_keys guarded_overlay_def by (intro conjI allI impI) blast+
qed

text \<open>C10: the life of a slice, end to end. When CreateSlice and then the controller's run for the slice of
  its provider succeed, every requested cluster has the ManifestWork of its network edge device: built
  for the requested provider where one is given, with the resolved addresses, and the requested links
  or the full mesh when none are given. It has no node configuration, although the comment on \<open>Gateway\<close> in
  \<open>sliceoverlay_types.go\<close> announces the requested gateway there. No work of another name or cluster changed. When then DeleteSlice
  and the controller's next run succeed, all of them are gone, every other work is as it was before the
  slice was created, and the hub no longer holds the slice with the finalizer.\<close>

theorem slice_lifecycle:
  assumes laws: "system_laws h k works networks overlays" "api_laws h works networks overlays"
    and create: "server_CreateSlice gv h creq w = (w1, Inr cresp)"
    and deploy: "overlay_Reconcile h (Some (ocm_client k)) (overlay_request m ns) w1 = (w2, None)"
    and req: "m = CreateSliceRequest_GetSlice creq" "ns = CreateSliceRequest_GetNamespace creq"
  shows "(\<exists>p maps v v'. (\<forall>q. providerFromProto (Slice_GetProvider m) = Some q \<longrightarrow> p = q)
      \<and> resolve_clusters k (ot_nodes (requested_topology m)) Map.empty v = (v', Inr maps)
      \<and> (\<forall>c. c \<in> set (map Cluster_GetName (Slice_GetClusters m)) \<longrightarrow> (\<exists>ned j.
          ConstructNED (k_lib k) (NewNEDGenerator (k_env k) (provider_controller (Some p)))
            (ned_values maps Map.empty (slice_links (requested_topology m)) c) = Some ned
        \<and> neds_nodeConfig (ned_spec ned) = None
        \<and> toManifest k (ObjNED (in_namespace (DefaultIfEmpty ns ''default'') ned)) = Inr j
        \<and> works w2 (c, work_name k (snd (slice_target m ns))) = Some ([''app'' \<mapsto> ''l2sm''], [j])))
      \<and> (\<forall>c name. c \<notin> set (map Cluster_GetName (Slice_GetClusters m)) \<longrightarrow> works w2 (c, name) = works w (c, name)))
    \<and> (\<forall>dreq w3 dresp w4. server_DeleteSlice gv h dreq w2 = (w3, Inr dresp) \<longrightarrow>
        slice_target (DeleteSliceRequest_GetSlice dreq) (DeleteSliceRequest_GetNamespace dreq) = slice_target m ns \<longrightarrow>
        overlay_Reconcile h (Some (ocm_client k))
          (overlay_request (DeleteSliceRequest_GetSlice dreq) (DeleteSliceRequest_GetNamespace dreq)) w3 = (w4, None) \<longrightarrow>
        (\<forall>c name. works w4 (c, name) =
            (if c \<in> set (map Cluster_GetName (Slice_GetClusters m)) \<and> name = work_name k (snd (slice_target m ns))
             then None else works w (c, name)))
        \<and> (\<forall>t. overlays w4 (slice_target m ns) = Some t \<longrightarrow> sliceOverlayFinalizer \<notin> set (m_finalizers (so_meta t))))"
proof -
  note up = slice_created [OF laws create deploy req]
  show ?thesis
    unfolding requested_topology_code overlay_topology.simps
    by (rule conjI [OF up(1)]) (intro allI impI, rule slice_deleted [OF laws up(2,3)])
qed

text \<open>A request for a slice of two clusters with gateways.\<close>

definition example_slice_create :: "pb_CreateSliceRequest option" where
  "example_slice_create = Some \<lparr>CreateSliceRequest_Slice = Some (slice_message
       (example_slice\<lparr>so_spec := (so_spec example_slice)\<lparr>sos_provider := Some (empty_provider\<lparr>ps_name := ''slc''\<rparr>)\<rparr>\<rparr>)),
     CreateSliceRequest_Namespace = ''ns''\<rparr>"

lemma slice_lifecycle_witness:
  "\<exists>w1 w2 resp j. server_CreateSlice gv_group mem_hub example_slice_create empty_hub = (w1, Inr resp)
     \<and> overlay_Reconcile mem_hub (Some (ocm_client mem_kube)) (overlay_request (CreateSliceRequest_GetSlice example_slice_create)
          (CreateSliceRequest_GetNamespace example_slice_create)) w1 = (w2, None)
     \<and> s_works w2 (''b'', ''slc'') = Some ([''app'' \<mapsto> ''l2sm''], [j])"
proof -
  let ?m = "CreateSliceRequest_GetSlice example_slice_create" and ?ns = "CreateSliceRequest_GetNamespace example_slice_create"
  let ?x = "sliceOverlayFromProto gv_group ?m ?ns"
  have m: "Slice_GetClusters ?m = map (\<lambda>c. Some (node_message c)) (ot_nodes example_topology)" "Slice_GetLinks ?m = []"
    "Slice_GetProvider ?m = Some (provider_message (empty_provider\<lparr>ps_name := ''slc''\<rparr>))"
    by (simp_all add: example_slice_create_def message_getters slice_message_def example_slice_def example_topology_def Let_def)
  have name: "snd (slice_target ?m ?ns) = ''slc''" "''b'' \<in> set (map Cluster_GetName (Slice_GetClusters ?m))"
    unfolding slice_target_def m
    by (simp_all add: message_getters provider_message_def DefaultIfEmpty_def node_message_def
        cluster_message_def example_topology_def)
  have top: "sos_topology (so_spec ?x) = Some example_topology"
    unfolding fromProto_slice m
    by (simp add: example_topology_def overlay_node_def node_message_def cluster_message_def message_getters)
  obtain p where p: "sos_provider (so_spec ?x) = Some p" by (simp add: m providerFromProto_def)
  obtain w1 resp where create: "server_CreateSlice gv_group mem_hub example_slice_create empty_hub = (w1, Inr resp)"
    by (simp add: server_CreateSlice_def Let_def mem_hub_def on_overlays_def obj_create_def obj_find_def empty_hub_def)
  from create_slice_stores [OF mem_api_laws create] obtain s where
    s: "mem_overlays w1 (slice_target ?m ?ns) = Some s" "slice_ident s = slice_ident ?x" "deletion_is_zero (so_meta s)" by blast
  have "so_spec s = so_spec ?x" using s(2) by (simp add: slice_ident_def)
  with p top have "sos_provider (so_spec s) = Some p" "sos_topology (so_spec s) = Some example_topology"
    "sos_monitoring (so_spec s) = None" by simp_all
  from mem_slice_runs [OF s(1) [folded request_keys(2)] s(3) this] obtain w2 where
    run: "overlay_Reconcile mem_hub (Some (ocm_client mem_kube)) (overlay_request ?m ?ns) w1 = (w2, None)" by blast
  have works: "\<exists>j. s_works w2 (c, work_name (mem_kube :: hub_store kube) (snd (slice_target ?m ?ns))) = Some ([''app'' \<mapsto> ''l2sm''], [j])"
    if "c \<in> set (map Cluster_GetName (Slice_GetClusters ?m))" for c
    using conjunct1 [OF slice_lifecycle [OF mem_system_laws mem_api_laws create run refl refl]] that
    by (elim exE conjE) (drule spec [of _ c], drule (1) mp, elim exE conjE, rule exI)
  from works [OF name(2)] obtain j where "s_works w2 (''b'', ''slc'') = Some ([''app'' \<mapsto> ''l2sm''], [j])"
    unfolding name(1) mem_names by (elim exE)
  with create run show ?thesis by (intro exI conjI)
qed

end
