(* ===== verification/DeepCopy.thy ===== *)
theory DeepCopy
  imports ApiTypes
begin

text \<open>
  \<open>api/v1/zz_generated.deepcopy.go\<close>. The other theories treat a Go object as its value; here objects
  have memory: a pointer or a slice is a location, the address of a cell together with what the cell
  holds, so that two objects share memory when an address occurs in both. A copier takes an object and
  the next free address and returns the copy and the next free address after it. The deep-copy functions
  of the libraries (\<open>ProviderSpec\<close>, \<open>ObjectMeta\<close>, \<open>Condition\<close> and so on) are a parameter: an object of
  theirs is its value and the set of addresses it reaches.

  The result is what justifies the value model: a deep copy erases to the same record of \<open>ApiTypes\<close>
  as the original and shares no memory with it.
\<close>

section \<open>Locations and copiers\<close>

record 'a loc =
  loc_addr :: nat
  loc_val :: 'a

record 'v outside =
  ext_value :: 'v
  ext_addrs :: "nat set"

type_synonym 'a copier = "'a \<Rightarrow> nat \<Rightarrow> 'a \<times> nat"

text \<open>\<open>*out = *in\<close> of a struct without pointers.\<close>

definition assign :: "'a copier" where
  "assign v n = (v, n)"

text \<open>\<open>if in.F != nil { *out = new(T); (*in).DeepCopyInto(*out) }\<close>.\<close>

definition copy_ptr :: "'a copier \<Rightarrow> 'a loc option copier" where
  "copy_ptr f p n =
     (case p of
        None \<Rightarrow> (None, n)
      | Some l \<Rightarrow> (case f (loc_val l) (Suc n) of (v, n') \<Rightarrow> (Some \<lparr>loc_addr = n, loc_val = v\<rparr>, n')))"

fun copy_items :: "'a copier \<Rightarrow> 'a list copier" where
  "copy_items f [] n = ([], n)"
| "copy_items f (x # xs) n =
     (case f x n of (y, n1) \<Rightarrow> (case copy_items f xs n1 of (ys, n2) \<Rightarrow> (y # ys, n2)))"

text \<open>\<open>if in.F != nil { *out = make([]T, len(*in)); for i := range *in \<dots> }\<close>.\<close>

definition copy_slice :: "'a copier \<Rightarrow> 'a list loc option copier" where
  "copy_slice f = copy_ptr (copy_items f)"

text \<open>One field of the struct that starts as \<open>*out = *in\<close>, and one field after another.\<close>

definition on_field :: "('s \<Rightarrow> 'a) \<Rightarrow> (('a \<Rightarrow> 'a) \<Rightarrow> 's \<Rightarrow> 's) \<Rightarrow> 'a copier \<Rightarrow> 's copier" where
  "on_field get upd f s n = (case f (get s) n of (v, n') \<Rightarrow> (upd (\<lambda>old. v) s, n'))"

definition and_then :: "'s copier \<Rightarrow> 's copier \<Rightarrow> 's copier" where
  "and_then f g s n = (case f s n of (s', n') \<Rightarrow> g s' n')"

section \<open>The objects in memory\<close>

record l_overlay_cluster =
  lc_name :: string
  lc_gateway :: "node_config_spec loc option"

record l_overlay_topology =
  lt_nodes :: "l_overlay_cluster list loc option"
  lt_links :: "overlay_link list loc option"

record l_provider_profile_spec =
  lpps_provider :: "provider_spec outside"

record l_provider_profile_status =
  lppst_conditions :: "json outside list loc option"

record l_provider_profile =
  lpp_typeMeta :: type_meta
  lpp_meta :: "object_meta outside"
  lpp_spec :: l_provider_profile_spec
  lpp_status :: l_provider_profile_status

record l_slice_network_spec =
  lsns_clusters :: "string list loc option"
  lsns_type :: string
  lsns_providerRef :: "provider_reference loc option"
  lsns_provider :: "provider_spec outside loc option"

record l_slice_network_status =
  lsnst_clusterStatuses :: "slice_cluster_status list loc option"
  lsnst_conditions :: "json outside list loc option"

record l_slice_network =
  lsn_typeMeta :: type_meta
  lsn_meta :: "object_meta outside"
  lsn_spec :: l_slice_network_spec
  lsn_status :: l_slice_network_status

record l_slice_overlay_spec =
  lsos_providerRef :: "provider_reference loc option"
  lsos_provider :: "provider_spec outside loc option"
  lsos_switchTemplate :: "switch_template outside loc option"
  lsos_topology :: "l_overlay_topology loc option"
  lsos_monitoring :: "monitor_spec outside loc option"

record l_slice_overlay_status =
  lsost_conditions :: "json outside list loc option"
  lsost_deployedSwitches :: "32 word"
  lsost_phase :: string

record l_slice_overlay =
  lso_typeMeta :: type_meta
  lso_meta :: "object_meta outside"
  lso_spec :: l_slice_overlay_spec
  lso_status :: l_slice_overlay_status

text \<open>\<open>ProviderProfileList\<close>, \<open>SliceNetworkList\<close> and \<open>SliceOverlayList\<close> differ in the type of the items.\<close>

record 'a l_list =
  ll_typeMeta :: type_meta
  ll_meta :: "json outside"
  ll_items :: "'a list loc option"

type_synonym l_provider_profile_list = "l_provider_profile l_list"

type_synonym l_slice_network_list = "l_slice_network l_list"

type_synonym l_slice_overlay_list = "l_slice_overlay l_list"

record slice_cluster_config =
  scc_name :: string

section \<open>The functions\<close>

record lib_copiers =
  cp_provider :: "provider_spec outside copier"
  cp_template :: "switch_template outside copier"
  cp_monitor :: "monitor_spec outside copier"
  cp_meta :: "object_meta outside copier"
  cp_list_meta :: "json outside copier"
  cp_condition :: "json outside copier"

definition OverlayCluster_DeepCopyInto :: "l_overlay_cluster copier" where
  "OverlayCluster_DeepCopyInto = on_field lc_gateway lc_gateway_update (copy_ptr assign)"

definition OverlayCluster_DeepCopy :: "l_overlay_cluster loc option copier" where
  "OverlayCluster_DeepCopy = copy_ptr OverlayCluster_DeepCopyInto"

definition OverlayLink_DeepCopyInto :: "overlay_link copier" where
  "OverlayLink_DeepCopyInto = assign"

definition OverlayLink_DeepCopy :: "overlay_link loc option copier" where
  "OverlayLink_DeepCopy = copy_ptr OverlayLink_DeepCopyInto"

definition OverlayTopology_DeepCopyInto :: "l_overlay_topology copier" where
  "OverlayTopology_DeepCopyInto =
     and_then (on_field lt_nodes lt_nodes_update (copy_slice OverlayCluster_DeepCopyInto))
              (on_field lt_links lt_links_update (copy_slice assign))"

definition OverlayTopology_DeepCopy :: "l_overlay_topology loc option copier" where
  "OverlayTopology_DeepCopy = copy_ptr OverlayTopology_DeepCopyInto"

definition ProviderReference_DeepCopyInto :: "provider_reference copier" where
  "ProviderReference_DeepCopyInto = assign"

definition ProviderReference_DeepCopy :: "provider_reference loc option copier" where
  "ProviderReference_DeepCopy = copy_ptr ProviderReference_DeepCopyInto"

definition SliceClusterConfig_DeepCopyInto :: "slice_cluster_config copier" where
  "SliceClusterConfig_DeepCopyInto = assign"

definition SliceClusterConfig_DeepCopy :: "slice_cluster_config loc option copier" where
  "SliceClusterConfig_DeepCopy = copy_ptr SliceClusterConfig_DeepCopyInto"

definition SliceClusterStatus_DeepCopyInto :: "slice_cluster_status copier" where
  "SliceClusterStatus_DeepCopyInto = assign"

definition SliceClusterStatus_DeepCopy :: "slice_cluster_status loc option copier" where
  "SliceClusterStatus_DeepCopy = copy_ptr SliceClusterStatus_DeepCopyInto"

definition ProviderProfileSpec_DeepCopyInto :: "lib_copiers \<Rightarrow> l_provider_profile_spec copier" where
  "ProviderProfileSpec_DeepCopyInto L = on_field lpps_provider lpps_provider_update (cp_provider L)"

definition ProviderProfileSpec_DeepCopy :: "lib_copiers \<Rightarrow> l_provider_profile_spec loc option copier" where
  "ProviderProfileSpec_DeepCopy L = copy_ptr (ProviderProfileSpec_DeepCopyInto L)"

definition ProviderProfileStatus_DeepCopyInto :: "lib_copiers \<Rightarrow> l_provider_profile_status copier" where
  "ProviderProfileStatus_DeepCopyInto L =
     on_field lppst_conditions lppst_conditions_update (copy_slice (cp_condition L))"

definition ProviderProfileStatus_DeepCopy :: "lib_copiers \<Rightarrow> l_provider_profile_status loc option copier" where
  "ProviderProfileStatus_DeepCopy L = copy_ptr (ProviderProfileStatus_DeepCopyInto L)"

definition ProviderProfile_DeepCopyInto :: "lib_copiers \<Rightarrow> l_provider_profile copier" where
  "ProviderProfile_DeepCopyInto L =
     and_then (on_field lpp_typeMeta lpp_typeMeta_update assign)
    (and_then (on_field lpp_meta lpp_meta_update (cp_meta L))
    (and_then (on_field lpp_spec lpp_spec_update (ProviderProfileSpec_DeepCopyInto L))
              (on_field lpp_status lpp_status_update (ProviderProfileStatus_DeepCopyInto L))))"

definition ProviderProfile_DeepCopy :: "lib_copiers \<Rightarrow> l_provider_profile loc option copier" where
  "ProviderProfile_DeepCopy L = copy_ptr (ProviderProfile_DeepCopyInto L)"

definition SliceNetworkSpec_DeepCopyInto :: "lib_copiers \<Rightarrow> l_slice_network_spec copier" where
  "SliceNetworkSpec_DeepCopyInto L =
     and_then (on_field lsns_clusters lsns_clusters_update (copy_slice assign))
    (and_then (on_field lsns_providerRef lsns_providerRef_update (copy_ptr assign))
              (on_field lsns_provider lsns_provider_update (copy_ptr (cp_provider L))))"

definition SliceNetworkSpec_DeepCopy :: "lib_copiers \<Rightarrow> l_slice_network_spec loc option copier" where
  "SliceNetworkSpec_DeepCopy L = copy_ptr (SliceNetworkSpec_DeepCopyInto L)"

definition SliceNetworkStatus_DeepCopyInto :: "lib_copiers \<Rightarrow> l_slice_network_status copier" where
  "SliceNetworkStatus_DeepCopyInto L =
     and_then (on_field lsnst_clusterStatuses lsnst_clusterStatuses_update (copy_slice assign))
              (on_field lsnst_conditions lsnst_conditions_update (copy_slice (cp_condition L)))"

definition SliceNetworkStatus_DeepCopy :: "lib_copiers \<Rightarrow> l_slice_network_status loc option copier" where
  "SliceNetworkStatus_DeepCopy L = copy_ptr (SliceNetworkStatus_DeepCopyInto L)"

definition SliceNetwork_DeepCopyInto :: "lib_copiers \<Rightarrow> l_slice_network copier" where
  "SliceNetwork_DeepCopyInto L =
     and_then (on_field lsn_typeMeta lsn_typeMeta_update assign)
    (and_then (on_field lsn_meta lsn_meta_update (cp_meta L))
    (and_then (on_field lsn_spec lsn_spec_update (SliceNetworkSpec_DeepCopyInto L))
              (on_field lsn_status lsn_status_update (SliceNetworkStatus_DeepCopyInto L))))"

definition SliceNetwork_DeepCopy :: "lib_copiers \<Rightarrow> l_slice_network loc option copier" where
  "SliceNetwork_DeepCopy L = copy_ptr (SliceNetwork_DeepCopyInto L)"

definition SliceOverlaySpec_DeepCopyInto :: "lib_copiers \<Rightarrow> l_slice_overlay_spec copier" where
  "SliceOverlaySpec_DeepCopyInto L =
     and_then (on_field lsos_providerRef lsos_providerRef_update (copy_ptr assign))
    (and_then (on_field lsos_provider lsos_provider_update (copy_ptr (cp_provider L)))
    (and_then (on_field lsos_switchTemplate lsos_switchTemplate_update (copy_ptr (cp_template L)))
    (and_then (on_field lsos_topology lsos_topology_update (copy_ptr OverlayTopology_DeepCopyInto))
              (on_field lsos_monitoring lsos_monitoring_update (copy_ptr (cp_monitor L))))))"

definition SliceOverlaySpec_DeepCopy :: "lib_copiers \<Rightarrow> l_slice_overlay_spec loc option copier" where
  "SliceOverlaySpec_DeepCopy L = copy_ptr (SliceOverlaySpec_DeepCopyInto L)"

definition SliceOverlayStatus_DeepCopyInto :: "lib_copiers \<Rightarrow> l_slice_overlay_status copier" where
  "SliceOverlayStatus_DeepCopyInto L =
     on_field lsost_conditions lsost_conditions_update (copy_slice (cp_condition L))"

definition SliceOverlayStatus_DeepCopy :: "lib_copiers \<Rightarrow> l_slice_overlay_status loc option copier" where
  "SliceOverlayStatus_DeepCopy L = copy_ptr (SliceOverlayStatus_DeepCopyInto L)"

definition SliceOverlay_DeepCopyInto :: "lib_copiers \<Rightarrow> l_slice_overlay copier" where
  "SliceOverlay_DeepCopyInto L =
     and_then (on_field lso_typeMeta lso_typeMeta_update assign)
    (and_then (on_field lso_meta lso_meta_update (cp_meta L))
    (and_then (on_field lso_spec lso_spec_update (SliceOverlaySpec_DeepCopyInto L))
              (on_field lso_status lso_status_update (SliceOverlayStatus_DeepCopyInto L))))"

definition SliceOverlay_DeepCopy :: "lib_copiers \<Rightarrow> l_slice_overlay loc option copier" where
  "SliceOverlay_DeepCopy L = copy_ptr (SliceOverlay_DeepCopyInto L)"

text \<open>The three list functions, which differ in the function for the items.\<close>

definition list_DeepCopyInto :: "lib_copiers \<Rightarrow> 'a copier \<Rightarrow> 'a l_list copier" where
  "list_DeepCopyInto L item =
     and_then (on_field ll_typeMeta ll_typeMeta_update assign)
    (and_then (on_field ll_meta ll_meta_update (cp_list_meta L))
              (on_field ll_items ll_items_update (copy_slice item)))"

definition ProviderProfileList_DeepCopyInto :: "lib_copiers \<Rightarrow> l_provider_profile_list copier" where
  "ProviderProfileList_DeepCopyInto L = list_DeepCopyInto L (ProviderProfile_DeepCopyInto L)"

definition ProviderProfileList_DeepCopy :: "lib_copiers \<Rightarrow> l_provider_profile_list loc option copier" where
  "ProviderProfileList_DeepCopy L = copy_ptr (ProviderProfileList_DeepCopyInto L)"

definition SliceNetworkList_DeepCopyInto :: "lib_copiers \<Rightarrow> l_slice_network_list copier" where
  "SliceNetworkList_DeepCopyInto L = list_DeepCopyInto L (SliceNetwork_DeepCopyInto L)"

definition SliceNetworkList_DeepCopy :: "lib_copiers \<Rightarrow> l_slice_network_list loc option copier" where
  "SliceNetworkList_DeepCopy L = copy_ptr (SliceNetworkList_DeepCopyInto L)"

definition SliceOverlayList_DeepCopyInto :: "lib_copiers \<Rightarrow> l_slice_overlay_list copier" where
  "SliceOverlayList_DeepCopyInto L = list_DeepCopyInto L (SliceOverlay_DeepCopyInto L)"

definition SliceOverlayList_DeepCopy :: "lib_copiers \<Rightarrow> l_slice_overlay_list loc option copier" where
  "SliceOverlayList_DeepCopy L = copy_ptr (SliceOverlayList_DeepCopyInto L)"

text \<open>\<open>DeepCopyObject\<close>: the copy as a \<open>runtime.Object\<close>, nil for nil.\<close>

datatype runtime_object =
    ProviderProfileObject "l_provider_profile loc"
  | ProviderProfileListObject "l_provider_profile_list loc"
  | SliceNetworkObject "l_slice_network loc"
  | SliceNetworkListObject "l_slice_network_list loc"
  | SliceOverlayObject "l_slice_overlay loc"
  | SliceOverlayListObject "l_slice_overlay_list loc"

definition as_object :: "('a loc \<Rightarrow> runtime_object) \<Rightarrow> 'a loc option \<times> nat \<Rightarrow> runtime_object option \<times> nat" where
  "as_object C r = (case r of (Some c, n) \<Rightarrow> (Some (C c), n) | (None, n) \<Rightarrow> (None, n))"

definition ProviderProfile_DeepCopyObject where
  "ProviderProfile_DeepCopyObject L p n = as_object ProviderProfileObject (ProviderProfile_DeepCopy L p n)"

definition ProviderProfileList_DeepCopyObject where
  "ProviderProfileList_DeepCopyObject L p n = as_object ProviderProfileListObject (ProviderProfileList_DeepCopy L p n)"

definition SliceNetwork_DeepCopyObject where
  "SliceNetwork_DeepCopyObject L p n = as_object SliceNetworkObject (SliceNetwork_DeepCopy L p n)"

definition SliceNetworkList_DeepCopyObject where
  "SliceNetworkList_DeepCopyObject L p n = as_object SliceNetworkListObject (SliceNetworkList_DeepCopy L p n)"

definition SliceOverlay_DeepCopyObject where
  "SliceOverlay_DeepCopyObject L p n = as_object SliceOverlayObject (SliceOverlay_DeepCopy L p n)"

definition SliceOverlayList_DeepCopyObject where
  "SliceOverlayList_DeepCopyObject L p n = as_object SliceOverlayListObject (SliceOverlayList_DeepCopy L p n)"

section \<open>What a copy is\<close>

text \<open>The value of an object (\<open>E\<close>) is that of \<open>ApiTypes\<close>, with nil and empty slices both the empty list; its
  memory (\<open>A\<close>) is the set of the addresses in it.\<close>

definition ptr_erase :: "('a \<Rightarrow> 'v) \<Rightarrow> 'a loc option \<Rightarrow> 'v option" where
  "ptr_erase E p = map_option (\<lambda>l. E (loc_val l)) p"

definition slice_erase :: "('a \<Rightarrow> 'v) \<Rightarrow> 'a list loc option \<Rightarrow> 'v list" where
  "slice_erase E p = (case p of None \<Rightarrow> [] | Some l \<Rightarrow> map E (loc_val l))"

definition no_addrs :: "'a \<Rightarrow> nat set" where
  "no_addrs v = {}"

definition ptr_addrs :: "('a \<Rightarrow> nat set) \<Rightarrow> 'a loc option \<Rightarrow> nat set" where
  "ptr_addrs A p = (case p of None \<Rightarrow> {} | Some l \<Rightarrow> insert (loc_addr l) (A (loc_val l)))"

definition items_addrs :: "('a \<Rightarrow> nat set) \<Rightarrow> 'a list \<Rightarrow> nat set" where
  "items_addrs A xs = \<Union> (A ` set xs)"

text \<open>\<open>f\<close> copies: the copy has the same value, and all its memory was allocated by the call.\<close>

definition copies :: "('a \<Rightarrow> 'v) \<Rightarrow> ('a \<Rightarrow> nat set) \<Rightarrow> 'a copier \<Rightarrow> bool" where
  "copies E A f \<longleftrightarrow> (\<forall>v n v' n'. f v n = (v', n') \<longrightarrow> E v' = E v \<and> n \<le> n' \<and> (\<forall>a \<in> A v'. n \<le> a \<and> a < n'))"

lemma copiesD:
  assumes "copies E A f" "f v n = (v', n')"
  shows "E v' = E v" "n \<le> n'" "a \<in> A v' \<Longrightarrow> n \<le> a \<and> a < n'"
  using assms unfolding copies_def by blast+

lemma copiesI:
  assumes "\<And>v n v' n'. f v n = (v', n') \<Longrightarrow> E v' = E v \<and> n \<le> n' \<and> (\<forall>a \<in> A v'. n \<le> a \<and> a < n')"
  shows "copies E A f"
  using assms unfolding copies_def by blast

lemma copies_assign: "copies E no_addrs assign"
  by (rule copiesI) (simp add: assign_def no_addrs_def)

lemma copies_ptr:
  assumes f: "copies E A f"
  shows "copies (ptr_erase E) (ptr_addrs A) (copy_ptr f)"
proof (rule copiesI)
  fix p n p' n'
  assume run: "copy_ptr f p n = (p', n')"
  show "ptr_erase E p' = ptr_erase E p \<and> n \<le> n' \<and> (\<forall>a \<in> ptr_addrs A p'. n \<le> a \<and> a < n')"
  proof (cases p)
    case None
    with run show ?thesis by (auto simp: copy_ptr_def ptr_addrs_def)
  next
    case (Some l)
    obtain v m where v: "f (loc_val l) (Suc n) = (v, m)" by fastforce
    with run Some have p': "p' = Some \<lparr>loc_addr = n, loc_val = v\<rparr>" "n' = m" by (auto simp: copy_ptr_def)
    note d = copiesD [OF f v]
    have "\<forall>a \<in> A v. n \<le> a \<and> a < n'" using d(3) p'(2) by fastforce
    with d(1,2) p' Some show ?thesis by (auto simp: ptr_erase_def ptr_addrs_def)
  qed
qed

lemma copies_items:
  assumes f: "copies E A f"
  shows "copies (map E) (items_addrs A) (copy_items f)"
proof (rule copiesI)
  fix xs n ys n'
  assume "copy_items f xs n = (ys, n')"
  then show "map E ys = map E xs \<and> n \<le> n' \<and> (\<forall>a \<in> items_addrs A ys. n \<le> a \<and> a < n')"
  proof (induction xs arbitrary: n ys)
    case Nil
    then show ?case by (simp add: items_addrs_def)
  next
    case (Cons x xs)
    obtain y n1 where y: "f x n = (y, n1)" by fastforce
    obtain zs n2 where zs: "copy_items f xs n1 = (zs, n2)" by fastforce
    with Cons.prems y have ys: "ys = y # zs" "n' = n2" by simp_all
    with zs have "copy_items f xs n1 = (zs, n')" by simp
    note ih = Cons.IH [OF this]
    note d = copiesD [OF f y]
    show ?case
    proof (intro conjI ballI)
      show "map E ys = map E (x # xs)" using ih d(1) ys by simp
      show "n \<le> n'" using ih d(2) by simp
      fix a
      assume "a \<in> items_addrs A ys"
      then have "a \<in> A y \<or> a \<in> items_addrs A zs" by (auto simp: ys items_addrs_def)
      with d(2,3) ih show "n \<le> a" and "a < n'" by fastforce+
    qed
  qed
qed

lemma copies_slice:
  assumes "copies E A f"
  shows "copies (slice_erase E) (ptr_addrs (items_addrs A)) (copy_slice f)"
proof -
  have "slice_erase E p = (case ptr_erase (map E) p of None \<Rightarrow> [] | Some l \<Rightarrow> l)" for p
    by (cases p) (simp_all add: slice_erase_def ptr_erase_def)
  with copies_ptr [OF copies_items [OF assms]] show ?thesis
    unfolding copy_slice_def copies_def by (metis (mono_tags, lifting))
qed

section \<open>The values and the memory of the objects\<close>

definition cluster_value :: "l_overlay_cluster \<Rightarrow> overlay_cluster" where
  [memory_defs]: "cluster_value c = \<lparr>oc_name = lc_name c, oc_gateway = ptr_erase id (lc_gateway c)\<rparr>"

definition cluster_memory :: "l_overlay_cluster \<Rightarrow> nat set" where
  [memory_defs]: "cluster_memory c = ptr_addrs no_addrs (lc_gateway c)"

definition topology_value :: "l_overlay_topology \<Rightarrow> overlay_topology" where
  [memory_defs]: "topology_value t = \<lparr>ot_nodes = slice_erase cluster_value (lt_nodes t), ot_links = slice_erase id (lt_links t)\<rparr>"

definition topology_memory :: "l_overlay_topology \<Rightarrow> nat set" where
  [memory_defs]: "topology_memory t = ptr_addrs (items_addrs cluster_memory) (lt_nodes t) \<union> ptr_addrs (items_addrs no_addrs) (lt_links t)"

definition profile_value :: "l_provider_profile \<Rightarrow> provider_profile" where
  [memory_defs]: "profile_value p =
     \<lparr>pp_typeMeta = lpp_typeMeta p, pp_meta = ext_value (lpp_meta p),
      pp_spec = \<lparr>pps_provider = ext_value (lpps_provider (lpp_spec p))\<rparr>,
      pp_status = \<lparr>ppst_conditions = slice_erase ext_value (lppst_conditions (lpp_status p))\<rparr>\<rparr>"

definition profile_memory :: "l_provider_profile \<Rightarrow> nat set" where
  [memory_defs]: "profile_memory p = ext_addrs (lpp_meta p) \<union> ext_addrs (lpps_provider (lpp_spec p))
     \<union> ptr_addrs (items_addrs ext_addrs) (lppst_conditions (lpp_status p))"

definition network_spec_value :: "l_slice_network_spec \<Rightarrow> slice_network_spec" where
  [memory_defs]: "network_spec_value s =
     \<lparr>sns_clusters = slice_erase id (lsns_clusters s), sns_type = lsns_type s,
      sns_providerRef = ptr_erase id (lsns_providerRef s), sns_provider = ptr_erase ext_value (lsns_provider s)\<rparr>"

definition network_spec_memory :: "l_slice_network_spec \<Rightarrow> nat set" where
  [memory_defs]: "network_spec_memory s = ptr_addrs (items_addrs no_addrs) (lsns_clusters s)
     \<union> ptr_addrs no_addrs (lsns_providerRef s) \<union> ptr_addrs ext_addrs (lsns_provider s)"

definition network_status_value :: "l_slice_network_status \<Rightarrow> slice_network_status" where
  [memory_defs]: "network_status_value s = \<lparr>snst_clusterStatuses = slice_erase id (lsnst_clusterStatuses s),
     snst_conditions = slice_erase ext_value (lsnst_conditions s)\<rparr>"

definition network_status_memory :: "l_slice_network_status \<Rightarrow> nat set" where
  [memory_defs]: "network_status_memory s = ptr_addrs (items_addrs no_addrs) (lsnst_clusterStatuses s)
     \<union> ptr_addrs (items_addrs ext_addrs) (lsnst_conditions s)"

definition network_value :: "l_slice_network \<Rightarrow> slice_network" where
  [memory_defs]: "network_value n =
     \<lparr>sn_typeMeta = lsn_typeMeta n, sn_meta = ext_value (lsn_meta n), sn_spec = network_spec_value (lsn_spec n),
      sn_status = network_status_value (lsn_status n)\<rparr>"

definition network_memory :: "l_slice_network \<Rightarrow> nat set" where
  [memory_defs]: "network_memory n = ext_addrs (lsn_meta n) \<union> network_spec_memory (lsn_spec n)
     \<union> network_status_memory (lsn_status n)"

definition overlay_spec_value :: "l_slice_overlay_spec \<Rightarrow> slice_overlay_spec" where
  [memory_defs]: "overlay_spec_value s =
     \<lparr>sos_providerRef = ptr_erase id (lsos_providerRef s), sos_provider = ptr_erase ext_value (lsos_provider s),
      sos_switchTemplate = ptr_erase ext_value (lsos_switchTemplate s), sos_topology = ptr_erase topology_value (lsos_topology s),
      sos_monitoring = ptr_erase ext_value (lsos_monitoring s)\<rparr>"

definition overlay_spec_memory :: "l_slice_overlay_spec \<Rightarrow> nat set" where
  [memory_defs]: "overlay_spec_memory s = ptr_addrs no_addrs (lsos_providerRef s) \<union> ptr_addrs ext_addrs (lsos_provider s)
     \<union> ptr_addrs ext_addrs (lsos_switchTemplate s) \<union> ptr_addrs topology_memory (lsos_topology s)
     \<union> ptr_addrs ext_addrs (lsos_monitoring s)"

definition overlay_status_value :: "l_slice_overlay_status \<Rightarrow> slice_overlay_status" where
  [memory_defs]: "overlay_status_value s = \<lparr>sost_conditions = slice_erase ext_value (lsost_conditions s),
     sost_deployedSwitches = lsost_deployedSwitches s, sost_phase = lsost_phase s\<rparr>"

definition overlay_value :: "l_slice_overlay \<Rightarrow> slice_overlay" where
  [memory_defs]: "overlay_value s =
     \<lparr>so_typeMeta = lso_typeMeta s, so_meta = ext_value (lso_meta s), so_spec = overlay_spec_value (lso_spec s),
      so_status = overlay_status_value (lso_status s)\<rparr>"

definition overlay_memory :: "l_slice_overlay \<Rightarrow> nat set" where
  [memory_defs]: "overlay_memory s = ext_addrs (lso_meta s) \<union> overlay_spec_memory (lso_spec s)
     \<union> ptr_addrs (items_addrs ext_addrs) (lsost_conditions (lso_status s))"

definition list_value :: "('a \<Rightarrow> 'v) \<Rightarrow> 'a l_list \<Rightarrow> type_meta \<times> json \<times> 'v list" where
  [memory_defs]: "list_value E l = (ll_typeMeta l, ext_value (ll_meta l), slice_erase E (ll_items l))"

definition list_memory :: "('a \<Rightarrow> nat set) \<Rightarrow> 'a l_list \<Rightarrow> nat set" where
  [memory_defs]: "list_memory A l = ext_addrs (ll_meta l) \<union> ptr_addrs (items_addrs A) (ll_items l)"

section \<open>Every function copies\<close>

definition lib_copies :: "lib_copiers \<Rightarrow> bool" where
  "lib_copies L \<longleftrightarrow> copies ext_value ext_addrs (cp_provider L) \<and> copies ext_value ext_addrs (cp_template L)
     \<and> copies ext_value ext_addrs (cp_monitor L) \<and> copies ext_value ext_addrs (cp_meta L)
     \<and> copies ext_value ext_addrs (cp_list_meta L) \<and> copies ext_value ext_addrs (cp_condition L)"

text \<open>A struct is copied field by field; every step of \<open>and_then\<close> replaces one field by its copy.\<close>

lemma on_field_run:
  assumes "copies E A f" "on_field get upd f s n = (s', n')"
  obtains v where "s' = upd (\<lambda>old. v) s" "E v = E (get s)" "n \<le> n'" "\<And>a. a \<in> A v \<Longrightarrow> n \<le> a \<and> a < n'"
proof -
  obtain v m where v: "f (get s) n = (v, m)" by fastforce
  with assms(2) have "s' = upd (\<lambda>old. v) s" "n' = m" by (auto simp: on_field_def)
  with copiesD [OF assms(1) v] that show thesis by blast
qed

lemma and_then_run:
  assumes "and_then f g s n = (s', n')"
  obtains s1 n1 where "f s n = (s1, n1)" "g s1 n1 = (s', n')"
  using assms that by (cases "f s n") (auto simp: and_then_def)

lemma OverlayCluster_copies: "copies cluster_value cluster_memory OverlayCluster_DeepCopyInto"
  unfolding OverlayCluster_DeepCopyInto_def
  by (rule copiesI, erule on_field_run [OF copies_ptr [OF copies_assign [where E = id]]]) (auto simp: memory_defs)

lemma OverlayTopology_copies: "copies topology_value topology_memory OverlayTopology_DeepCopyInto"
  unfolding OverlayTopology_DeepCopyInto_def
  by (rule copiesI, elim and_then_run on_field_run [OF copies_slice [OF OverlayCluster_copies]]
        on_field_run [OF copies_slice [OF copies_assign [where E = id]]])
     (fastforce simp: topology_value_def topology_memory_def)

lemma lib_copies_fields:
  assumes "lib_copies L"
  shows "copies ext_value ext_addrs (cp_provider L)" "copies ext_value ext_addrs (cp_template L)"
    "copies ext_value ext_addrs (cp_monitor L)" "copies ext_value ext_addrs (cp_meta L)"
    "copies ext_value ext_addrs (cp_list_meta L)" "copies ext_value ext_addrs (cp_condition L)"
  using assms unfolding lib_copies_def by simp_all

lemmas id_copies = copies_assign [where E = id]
lemmas id_field = on_field_run [OF id_copies]
lemmas id_ptr_field = on_field_run [OF copies_ptr [OF id_copies]]
lemmas id_slice_field = on_field_run [OF copies_slice [OF id_copies]]

lemma ProviderProfileSpec_copies:
  assumes "lib_copies L"
  shows "copies (\<lambda>s. ext_value (lpps_provider s)) (\<lambda>s. ext_addrs (lpps_provider s)) (ProviderProfileSpec_DeepCopyInto L)"
  unfolding ProviderProfileSpec_DeepCopyInto_def
  by (rule copiesI, erule on_field_run [OF lib_copies_fields(1) [OF assms]]) simp

lemma ProviderProfileStatus_copies:
  assumes "lib_copies L"
  shows "copies (\<lambda>s. slice_erase ext_value (lppst_conditions s)) (\<lambda>s. ptr_addrs (items_addrs ext_addrs) (lppst_conditions s))
    (ProviderProfileStatus_DeepCopyInto L)"
  unfolding ProviderProfileStatus_DeepCopyInto_def
  by (rule copiesI, erule on_field_run [OF copies_slice [OF lib_copies_fields(6) [OF assms]]]) simp

lemma ProviderProfile_copies:
  assumes "lib_copies L"
  shows "copies profile_value profile_memory (ProviderProfile_DeepCopyInto L)"
  unfolding ProviderProfile_DeepCopyInto_def
  by (rule copiesI, elim and_then_run id_field on_field_run [OF lib_copies_fields(4) [OF assms]]
        on_field_run [OF ProviderProfileSpec_copies [OF assms]] on_field_run [OF ProviderProfileStatus_copies [OF assms]])
     (fastforce simp: profile_value_def profile_memory_def)

lemma SliceNetworkSpec_copies:
  assumes "lib_copies L"
  shows "copies network_spec_value network_spec_memory (SliceNetworkSpec_DeepCopyInto L)"
  unfolding SliceNetworkSpec_DeepCopyInto_def
  by (rule copiesI, elim and_then_run id_ptr_field id_slice_field
        on_field_run [OF copies_ptr [OF lib_copies_fields(1) [OF assms]]])
     (fastforce simp: network_spec_value_def network_spec_memory_def)

lemma SliceNetworkStatus_copies:
  assumes "lib_copies L"
  shows "copies network_status_value network_status_memory (SliceNetworkStatus_DeepCopyInto L)"
  unfolding SliceNetworkStatus_DeepCopyInto_def
  by (rule copiesI, elim and_then_run id_slice_field
        on_field_run [OF copies_slice [OF lib_copies_fields(6) [OF assms]]])
     (fastforce simp: network_status_value_def network_status_memory_def)

lemma SliceNetwork_copies:
  assumes "lib_copies L"
  shows "copies network_value network_memory (SliceNetwork_DeepCopyInto L)"
  unfolding SliceNetwork_DeepCopyInto_def
  by (rule copiesI, elim and_then_run id_field on_field_run [OF lib_copies_fields(4) [OF assms]]
        on_field_run [OF SliceNetworkSpec_copies [OF assms]] on_field_run [OF SliceNetworkStatus_copies [OF assms]])
     (fastforce simp: network_value_def network_memory_def)

lemma SliceOverlaySpec_copies:
  assumes "lib_copies L"
  shows "copies overlay_spec_value overlay_spec_memory (SliceOverlaySpec_DeepCopyInto L)"
  unfolding SliceOverlaySpec_DeepCopyInto_def
  by (rule copiesI, elim and_then_run id_ptr_field on_field_run [OF copies_ptr [OF OverlayTopology_copies]]
        on_field_run [OF copies_ptr [OF lib_copies_fields(1) [OF assms]]]
        on_field_run [OF copies_ptr [OF lib_copies_fields(2) [OF assms]]]
        on_field_run [OF copies_ptr [OF lib_copies_fields(3) [OF assms]]])
     (fastforce simp: overlay_spec_value_def overlay_spec_memory_def)

lemma SliceOverlayStatus_copies:
  assumes "lib_copies L"
  shows "copies overlay_status_value (\<lambda>s. ptr_addrs (items_addrs ext_addrs) (lsost_conditions s)) (SliceOverlayStatus_DeepCopyInto L)"
  unfolding SliceOverlayStatus_DeepCopyInto_def
  by (rule copiesI, erule on_field_run [OF copies_slice [OF lib_copies_fields(6) [OF assms]]])
     (simp add: overlay_status_value_def)

lemma SliceOverlay_copies:
  assumes "lib_copies L"
  shows "copies overlay_value overlay_memory (SliceOverlay_DeepCopyInto L)"
  unfolding SliceOverlay_DeepCopyInto_def
  by (rule copiesI, elim and_then_run id_field on_field_run [OF lib_copies_fields(4) [OF assms]]
        on_field_run [OF SliceOverlaySpec_copies [OF assms]] on_field_run [OF SliceOverlayStatus_copies [OF assms]])
     (fastforce simp: overlay_value_def overlay_memory_def)

lemma list_copies:
  assumes "lib_copies L" and item: "copies E A f"
  shows "copies (list_value E) (list_memory A) (list_DeepCopyInto L f)"
  unfolding list_DeepCopyInto_def
  by (rule copiesI, elim and_then_run id_field on_field_run [OF lib_copies_fields(5) [OF assms(1)]]
        on_field_run [OF copies_slice [OF item]])
     (fastforce simp: list_value_def list_memory_def)

section \<open>Copies as objects\<close>

text \<open>\<open>r\<close> is a separate copy of the object \<open>p\<close> of the kind \<open>C\<close>: nil for nil, and otherwise an object of that kind
  with the same value and none of the memory.\<close>

definition separate :: "('a \<Rightarrow> 'v) \<Rightarrow> ('a \<Rightarrow> nat set) \<Rightarrow> ('a loc \<Rightarrow> runtime_object) \<Rightarrow> 'a loc option
    \<Rightarrow> runtime_object option \<Rightarrow> bool" where
  "separate E A C p r \<longleftrightarrow>
     (case p of
        None \<Rightarrow> r = None
      | Some l \<Rightarrow> (\<exists>c. r = Some (C c) \<and> E (loc_val c) = E (loc_val l)
                    \<and> insert (loc_addr c) (A (loc_val c)) \<inter> insert (loc_addr l) (A (loc_val l)) = {}))"

definition separates :: "('a \<Rightarrow> 'v) \<Rightarrow> ('a \<Rightarrow> nat set) \<Rightarrow> ('a loc \<Rightarrow> runtime_object)
    \<Rightarrow> ('a loc option \<Rightarrow> nat \<Rightarrow> runtime_object option \<times> nat) \<Rightarrow> bool" where
  "separates E A C f \<longleftrightarrow> (\<forall>p n. (\<forall>a \<in> ptr_addrs A p. a < n) \<longrightarrow> separate E A C p (fst (f p n)))"

lemma copies_separates:
  assumes f: "copies E A f" and g: "\<And>p n. g p n = as_object C (copy_ptr f p n)"
  shows "separates E A C g"
  unfolding separates_def g
proof (intro allI impI)
  fix p n
  assume old: "\<forall>a \<in> ptr_addrs A p. a < n"
  show "separate E A C p (fst (as_object C (copy_ptr f p n)))"
  proof (cases p)
    case None
    then show ?thesis by (simp add: separate_def copy_ptr_def as_object_def)
  next
    case (Some l)
    obtain v m where v: "f (loc_val l) (Suc n) = (v, m)" by fastforce
    note d = copiesD [OF f v]
    have new: "n \<le> a" if "a \<in> insert n (A v)" for a using d(3) that by fastforce
    have "insert n (A v) \<inter> insert (loc_addr l) (A (loc_val l)) = {}"
      using new old Some by (force simp: ptr_addrs_def)
    with d(1) show ?thesis
      by (simp add: Some separate_def copy_ptr_def as_object_def v exI [of _ "\<lparr>loc_addr = n, loc_val = v\<rparr>"])
  qed
qed

text \<open>C36: \<open>DeepCopyObject\<close> of the three kinds and of their lists, when the deep-copy functions of the
  libraries copy and the addresses from \<open>n\<close> on are free: nil gives nil, and any other object gives an
  object of the same kind and value that shares no memory with it, so that changing the copy cannot change the
  original (which may lie in the cache of the manager).\<close>

theorem deep_copies_separate:
  assumes lib: "lib_copies L"
  shows "separates network_value network_memory SliceNetworkObject (SliceNetwork_DeepCopyObject L)
    \<and> separates overlay_value overlay_memory SliceOverlayObject (SliceOverlay_DeepCopyObject L)
    \<and> separates profile_value profile_memory ProviderProfileObject (ProviderProfile_DeepCopyObject L)
    \<and> separates (list_value network_value) (list_memory network_memory) SliceNetworkListObject
        (SliceNetworkList_DeepCopyObject L)
    \<and> separates (list_value overlay_value) (list_memory overlay_memory) SliceOverlayListObject
        (SliceOverlayList_DeepCopyObject L)
    \<and> separates (list_value profile_value) (list_memory profile_memory) ProviderProfileListObject
        (ProviderProfileList_DeepCopyObject L)"
proof (intro conjI)
  show "separates network_value network_memory SliceNetworkObject (SliceNetwork_DeepCopyObject L)"
    by (rule copies_separates [OF SliceNetwork_copies [OF lib]]) (simp only: SliceNetwork_DeepCopyObject_def SliceNetwork_DeepCopy_def)
  show "separates overlay_value overlay_memory SliceOverlayObject (SliceOverlay_DeepCopyObject L)"
    by (rule copies_separates [OF SliceOverlay_copies [OF lib]]) (simp only: SliceOverlay_DeepCopyObject_def SliceOverlay_DeepCopy_def)
  show "separates profile_value profile_memory ProviderProfileObject (ProviderProfile_DeepCopyObject L)"
    by (rule copies_separates [OF ProviderProfile_copies [OF lib]]) (simp only: ProviderProfile_DeepCopyObject_def ProviderProfile_DeepCopy_def)
  show "separates (list_value network_value) (list_memory network_memory) SliceNetworkListObject (SliceNetworkList_DeepCopyObject L)"
    by (rule copies_separates [OF list_copies [OF lib SliceNetwork_copies [OF lib]]]) (simp only: SliceNetworkList_DeepCopyObject_def SliceNetworkList_DeepCopy_def SliceNetworkList_DeepCopyInto_def)
  show "separates (list_value overlay_value) (list_memory overlay_memory) SliceOverlayListObject (SliceOverlayList_DeepCopyObject L)"
    by (rule copies_separates [OF list_copies [OF lib SliceOverlay_copies [OF lib]]]) (simp only: SliceOverlayList_DeepCopyObject_def SliceOverlayList_DeepCopy_def SliceOverlayList_DeepCopyInto_def)
  show "separates (list_value profile_value) (list_memory profile_memory) ProviderProfileListObject (ProviderProfileList_DeepCopyObject L)"
    by (rule copies_separates [OF list_copies [OF lib ProviderProfile_copies [OF lib]]]) (simp only: ProviderProfileList_DeepCopyObject_def ProviderProfileList_DeepCopy_def ProviderProfileList_DeepCopyInto_def)
qed

text \<open>A library whose functions allocate one new address where the original has any.\<close>

definition fresh_copier :: "'v outside copier" where
  "fresh_copier v n = (if ext_addrs v = {} then (v, n) else (v\<lparr>ext_addrs := {n}\<rparr>, Suc n))"

definition fresh_lib :: lib_copiers where
  "fresh_lib = \<lparr>cp_provider = fresh_copier, cp_template = fresh_copier, cp_monitor = fresh_copier,
     cp_meta = fresh_copier, cp_list_meta = fresh_copier, cp_condition = fresh_copier\<rparr>"

lemma fresh_copies: "copies ext_value ext_addrs fresh_copier"
  by (rule copiesI) (auto simp: fresh_copier_def split: if_splits)

lemma fresh_lib_copies: "lib_copies fresh_lib"
  by (simp add: lib_copies_def fresh_lib_def fresh_copies)

definition network_in_memory :: "l_slice_network loc" where
  "network_in_memory = \<lparr>loc_addr = 1, loc_val =
     \<lparr>lsn_typeMeta = \<lparr>tm_kind = ''SliceNetwork'', tm_apiVersion = ''l2sces.l2sm.io/v1''\<rparr>,
      lsn_meta = \<lparr>ext_value = empty_meta\<lparr>m_name := ''net'', m_labels := [''app'' \<mapsto> ''slice'']\<rparr>, ext_addrs = {2}\<rparr>,
      lsn_spec = \<lparr>lsns_clusters = Some \<lparr>loc_addr = 3, loc_val = [''c1'', ''c2'']\<rparr>, lsns_type = ''vnet'',
        lsns_providerRef = Some \<lparr>loc_addr = 4, loc_val = \<lparr>ref_name = ''p'', ref_namespace = ''ns''\<rparr>\<rparr>,
        lsns_provider = None\<rparr>,
      lsn_status = \<lparr>lsnst_clusterStatuses = None, lsnst_conditions = None\<rparr>\<rparr>\<rparr>"

lemma network_in_memory_memory: "ptr_addrs network_memory (Some network_in_memory) = {1, 2, 3, 4}"
  by (auto simp: network_in_memory_def memory_defs ptr_addrs_def items_addrs_def no_addrs_def)

lemma network_in_memory_below: "\<forall>a \<in> ptr_addrs network_memory (Some network_in_memory). a < 5"
  by (simp add: network_in_memory_memory)

theorem deep_copies_separate_witness:
  "lib_copies fresh_lib \<and> ptr_addrs network_memory (Some network_in_memory) = {1, 2, 3, 4}
    \<and> separate network_value network_memory SliceNetworkObject (Some network_in_memory)
        (fst (SliceNetwork_DeepCopyObject fresh_lib (Some network_in_memory) 5))"
  by (intro conjI fresh_lib_copies network_in_memory_memory
        deep_copies_separate [OF fresh_lib_copies, unfolded separates_def, THEN conjunct1, THEN spec, THEN spec,
          THEN mp, OF network_in_memory_below])

text \<open>The \<open>DeepCopy\<close> functions of the types inside the three kinds: nil gives nil, and the copy of anything
  else has the same value, every address in it allocated by the call.\<close>

theorem deep_copy_parts:
  assumes lib: "lib_copies L"
  shows "copies (ptr_erase cluster_value) (ptr_addrs cluster_memory) OverlayCluster_DeepCopy
    \<and> copies (ptr_erase id) (ptr_addrs no_addrs) OverlayLink_DeepCopy
    \<and> copies (ptr_erase topology_value) (ptr_addrs topology_memory) OverlayTopology_DeepCopy
    \<and> copies (ptr_erase id) (ptr_addrs no_addrs) ProviderReference_DeepCopy
    \<and> copies (ptr_erase id) (ptr_addrs no_addrs) SliceClusterConfig_DeepCopy
    \<and> copies (ptr_erase id) (ptr_addrs no_addrs) SliceClusterStatus_DeepCopy
    \<and> copies (ptr_erase (\<lambda>s. ext_value (lpps_provider s))) (ptr_addrs (\<lambda>s. ext_addrs (lpps_provider s)))
        (ProviderProfileSpec_DeepCopy L)
    \<and> copies (ptr_erase (\<lambda>s. slice_erase ext_value (lppst_conditions s)))
        (ptr_addrs (\<lambda>s. ptr_addrs (items_addrs ext_addrs) (lppst_conditions s))) (ProviderProfileStatus_DeepCopy L)
    \<and> copies (ptr_erase network_spec_value) (ptr_addrs network_spec_memory) (SliceNetworkSpec_DeepCopy L)
    \<and> copies (ptr_erase network_status_value) (ptr_addrs network_status_memory) (SliceNetworkStatus_DeepCopy L)
    \<and> copies (ptr_erase overlay_spec_value) (ptr_addrs overlay_spec_memory) (SliceOverlaySpec_DeepCopy L)
    \<and> copies (ptr_erase overlay_status_value)
        (ptr_addrs (\<lambda>s. ptr_addrs (items_addrs ext_addrs) (lsost_conditions s))) (SliceOverlayStatus_DeepCopy L)"
  unfolding OverlayCluster_DeepCopy_def OverlayLink_DeepCopy_def OverlayLink_DeepCopyInto_def
    OverlayTopology_DeepCopy_def ProviderReference_DeepCopy_def ProviderReference_DeepCopyInto_def
    SliceClusterConfig_DeepCopy_def SliceClusterConfig_DeepCopyInto_def SliceClusterStatus_DeepCopy_def
    SliceClusterStatus_DeepCopyInto_def ProviderProfileSpec_DeepCopy_def ProviderProfileStatus_DeepCopy_def
    SliceNetworkSpec_DeepCopy_def SliceNetworkStatus_DeepCopy_def SliceOverlaySpec_DeepCopy_def
    SliceOverlayStatus_DeepCopy_def
  by (intro conjI copies_ptr copies_assign OverlayCluster_copies OverlayTopology_copies
        ProviderProfileSpec_copies [OF lib] ProviderProfileStatus_copies [OF lib] SliceNetworkSpec_copies [OF lib]
        SliceNetworkStatus_copies [OF lib] SliceOverlaySpec_copies [OF lib] SliceOverlayStatus_copies [OF lib])

theorem deep_copy_parts_witness:
  "lib_copies fresh_lib
    \<and> copies (ptr_erase network_spec_value) (ptr_addrs network_spec_memory) (SliceNetworkSpec_DeepCopy fresh_lib)"
  using deep_copy_parts [OF fresh_lib_copies] by (simp add: fresh_lib_copies)

end
