(* ===== verification/GoFlag.thy ===== *)
theory GoFlag
  imports GoString
begin

text \<open>
  The parts of Go's standard library the commands use for their arguments: \<open>flag\<close> (the command-line
  flags, with \<open>ExitOnError\<close>), \<open>strconv.ParseBool\<close> and \<open>path/filepath\<close> on Unix.
\<close>

section \<open>Flags\<close>

text \<open>A flag is a string, a boolean, or one a library registered: whether it is boolean and which values it
  takes.\<close>

datatype flag_kind =
    StringFlag
  | BoolFlag
  | LibraryFlag bool "string \<Rightarrow> bool"

type_synonym flag_set = "string \<rightharpoonup> flag_kind"

definition parse_bool :: "string \<Rightarrow> bool option" where
  "parse_bool s =
     (if s \<in> {''1'', ''t'', ''T'', ''true'', ''TRUE'', ''True''} then Some True
      else if s \<in> {''0'', ''f'', ''F'', ''false'', ''FALSE'', ''False''} then Some False
      else None)"

fun is_bool_flag :: "flag_kind \<Rightarrow> bool" where
  "is_bool_flag StringFlag = False"
| "is_bool_flag BoolFlag = True"
| "is_bool_flag (LibraryFlag b accepts) = b"

fun accepts :: "flag_kind \<Rightarrow> string \<Rightarrow> bool" where
  "accepts StringFlag v = True"
| "accepts BoolFlag v = (parse_bool v \<noteq> None)"
| "accepts (LibraryFlag b f) v = f v"

text \<open>The first argument: no flag (the flags end here), the \<open>--\<close> that ends the flags, a malformed flag, or
  a flag with the value after its first \<open>=\<close>, if any.\<close>

datatype arg_token = NoFlag | EndFlags | BadFlag | Flag string "string option"

definition flag_name :: "string \<Rightarrow> arg_token" where
  "flag_name name =
     (case name of
        [] \<Rightarrow> BadFlag
      | c # cs \<Rightarrow>
          if c = CHR ''-'' \<or> c = CHR ''='' then BadFlag
          else (case cut (CHR ''='') cs of
                  None \<Rightarrow> Flag name None
                | Some (before, val) \<Rightarrow> Flag (c # before) (Some val)))"

fun flag_token :: "string \<Rightarrow> arg_token" where
  "flag_token (a # b # rest) =
     (if a \<noteq> CHR ''-'' then NoFlag
      else if b = CHR ''-'' then (if rest = [] then EndFlags else flag_name rest)
      else flag_name (b # rest))"
| "flag_token s = NoFlag"

text \<open>\<open>Parse\<close>: the values set (the last one for a flag given twice) and the remaining arguments, or the end
  of the process: 0 after printing the help, 2 after an error.\<close>

datatype parsed_flags =
    ParsedFlags "string \<rightharpoonup> string" "string list"
  | FlagHelp
  | FlagError

fun parse_flags :: "flag_set \<Rightarrow> string list \<Rightarrow> (string \<rightharpoonup> string) \<Rightarrow> parsed_flags" where
  "parse_flags formal [] vals = ParsedFlags vals []"
| "parse_flags formal (s # args) vals =
     (case flag_token s of
        NoFlag \<Rightarrow> ParsedFlags vals (s # args)
      | EndFlags \<Rightarrow> ParsedFlags vals args
      | BadFlag \<Rightarrow> FlagError
      | Flag name val \<Rightarrow>
          (case formal name of
             None \<Rightarrow> if name = ''help'' \<or> name = ''h'' then FlagHelp else FlagError
           | Some kind \<Rightarrow>
               (case val of
                  Some v \<Rightarrow> if accepts kind v then parse_flags formal args (vals(name \<mapsto> v)) else FlagError
                | None \<Rightarrow>
                    if is_bool_flag kind then
                      (if accepts kind ''true'' then parse_flags formal args (vals(name \<mapsto> ''true'')) else FlagError)
                    else (case args of
                            [] \<Rightarrow> FlagError
                          | v # args' \<Rightarrow>
                              if accepts kind v then parse_flags formal args' (vals(name \<mapsto> v)) else FlagError))))"

definition string_flag :: "(string \<rightharpoonup> string) \<Rightarrow> string \<Rightarrow> string \<Rightarrow> string" where
  "string_flag vals name def = (case vals name of Some v \<Rightarrow> v | None \<Rightarrow> def)"

definition bool_flag :: "(string \<rightharpoonup> string) \<Rightarrow> string \<Rightarrow> bool \<Rightarrow> bool" where
  "bool_flag vals name def =
     (case vals name of Some v \<Rightarrow> (case parse_bool v of Some b \<Rightarrow> b | None \<Rightarrow> def) | None \<Rightarrow> def)"

definition show_bool :: "bool \<Rightarrow> string" where
  "show_bool b = (if b then ''true'' else ''false'')"

lemma parse_show_bool [simp]: "parse_bool (show_bool b) = Some b"
  by (simp add: parse_bool_def show_bool_def)

text \<open>Arguments that set flags: \<open>-name=value\<close>, for a list of names and values.\<close>

definition flag_arg :: "string \<times> string \<Rightarrow> string" where
  "flag_arg nv = CHR ''-'' # fst nv @ CHR ''='' # snd nv"

definition plain_name :: "string \<Rightarrow> bool" where
  "plain_name name \<longleftrightarrow> name \<noteq> [] \<and> hd name \<noteq> CHR ''-'' \<and> CHR ''='' \<notin> set name"

lemma flag_token_arg:
  assumes "plain_name name"
  shows "flag_token (flag_arg (name, v)) = Flag name (Some v)"
proof -
  obtain c cs where c: "name = c # cs" "c \<noteq> CHR ''-''" "c \<noteq> CHR ''=''" "CHR ''='' \<notin> set cs"
    using assms by (cases name) (auto simp: plain_name_def)
  then show ?thesis by (simp add: flag_arg_def flag_name_def)
qed

lemma parse_flag_args:
  assumes "\<And>n v. (n, v) \<in> set nvs \<Longrightarrow> plain_name n \<and> (\<exists>k. formal n = Some k \<and> accepts k v)"
  shows "parse_flags formal (map flag_arg nvs @ rest) vals = parse_flags formal rest (vals ++ map_of (rev nvs))"
  using assms
proof (induction nvs arbitrary: vals)
  case Nil
  then show ?case by simp
next
  case (Cons nv nvs)
  obtain n v where nv: "nv = (n, v)" by fastforce
  have "plain_name n \<and> (\<exists>k. formal n = Some k \<and> accepts k v)" by (rule Cons.prems) (simp add: nv)
  then obtain k where k: "plain_name n" "formal n = Some k" "accepts k v" by blast
  have "parse_flags formal (map flag_arg (nv # nvs) @ rest) vals
      = parse_flags formal (map flag_arg nvs @ rest) (vals(n \<mapsto> v))"
    by (simp add: nv flag_token_arg k)
  also have "\<dots> = parse_flags formal rest (vals(n \<mapsto> v) ++ map_of (rev nvs))"
    by (rule Cons.IH, rule Cons.prems) simp
  also have "vals(n \<mapsto> v) ++ map_of (rev nvs) = vals ++ map_of (rev (nv # nvs))"
    by (simp add: nv map_add_assoc)
  finally show ?case .
qed

section \<open>Paths\<close>

text \<open>\<open>filepath.Clean\<close>, element by element: empty elements and \<open>.\<close> are dropped, \<open>..\<close> takes back the element
  before it, stays at the front of a relative path and is dropped at the root.\<close>

fun clean_elems :: "bool \<Rightarrow> string list \<Rightarrow> string list \<Rightarrow> string list" where
  "clean_elems rooted acc [] = rev acc"
| "clean_elems rooted acc (e # es) =
     (if e = [] \<or> e = ''.'' then clean_elems rooted acc es
      else if e = ''..'' then
        (case acc of
           [] \<Rightarrow> clean_elems rooted (if rooted then [] else [''..'']) es
         | p # ps \<Rightarrow> if p = ''..'' then clean_elems rooted (e # acc) es else clean_elems rooted ps es)
      else clean_elems rooted (e # acc) es)"

fun join_path :: "string list \<Rightarrow> string" where
  "join_path [] = []"
| "join_path [e] = e"
| "join_path (e # es) = e @ CHR ''/'' # join_path es"

definition path_rooted :: "string \<Rightarrow> bool" where
  "path_rooted p \<longleftrightarrow> p \<noteq> [] \<and> hd p = CHR ''/''"

definition filepath_Clean :: "string \<Rightarrow> string" where
  "filepath_Clean p =
     (let es = clean_elems (path_rooted p) [] (split_on (CHR ''/'') p)
      in if path_rooted p then CHR ''/'' # join_path es
         else if es = [] then ''.'' else join_path es)"

text \<open>\<open>filepath.Join\<close>: the elements from the first that is not empty on, joined and cleaned.\<close>

definition filepath_Join :: "string list \<Rightarrow> string" where
  "filepath_Join elem =
     (case dropWhile (\<lambda>e. e = []) elem of
        [] \<Rightarrow> []
      | es \<Rightarrow> filepath_Clean (join_path es))"

definition plain_elem :: "string \<Rightarrow> bool" where
  "plain_elem e \<longleftrightarrow> e \<notin> {[], ''.'', ''..''} \<and> CHR ''/'' \<notin> set e"

lemma split_join_path:
  "es \<noteq> [] \<Longrightarrow> list_all plain_elem es \<Longrightarrow> split_on (CHR ''/'') (join_path es) = es"
  by (induction es rule: join_path.induct) (auto simp: plain_elem_def)

lemma clean_elems_plain: "list_all plain_elem es \<Longrightarrow> clean_elems rooted acc es = rev acc @ es"
  by (induction es arbitrary: acc) (auto simp: plain_elem_def)

lemma join_path_append: "es \<noteq> [] \<Longrightarrow> join_path (es @ [e]) = join_path es @ CHR ''/'' # e"
  by (induction es rule: join_path.induct) auto

text \<open>Joining a name to the absolute path of a directory appends it.\<close>

lemma filepath_Join_name:
  assumes "es \<noteq> []" "list_all plain_elem es" "plain_elem name"
  shows "filepath_Join [CHR ''/'' # join_path es, name] = CHR ''/'' # join_path es @ CHR ''/'' # name"
proof -
  have all: "list_all plain_elem (es @ [name])" using assms by simp
  have split: "split_on (CHR ''/'') (join_path (es @ [name])) = es @ [name]"
    by (rule split_join_path) (use all in simp_all)
  have "split_on (CHR ''/'') (CHR ''/'' # join_path es @ CHR ''/'' # name) = [] # es @ [name]"
    using split assms(1) by (simp add: join_path_append)
  then have "filepath_Clean (CHR ''/'' # join_path es @ CHR ''/'' # name) = CHR ''/'' # join_path (es @ [name])"
    using clean_elems_plain [OF all] by (simp add: filepath_Clean_def path_rooted_def)
  with assms(1) show ?thesis by (simp add: filepath_Join_def join_path_append)
qed

end
