(* ===== verification/Operator.thy ===== *)
theory Operator
  imports Kube "HOL-Library.AList"
begin

text \<open>
  \<open>pkg/operator/secrets_operator.go\<close>: the certificates of the clusters, kept as labelled Secrets of the
  cluster the given configuration is for. The Kubernetes clientset is the parameter \<open>secret_api\<close>.
\<close>

section \<open>Secrets\<close>

record secret =
  sct_name :: string
  sct_namespace :: string
  sct_labels :: "string \<rightharpoonup> string"
  sct_data :: "string \<rightharpoonup> byte list"
  sct_type :: string
  sct_resourceVersion :: string

text \<open>\<open>sa_connect\<close> is \<open>kubernetes.NewForConfig\<close>; the calls are those of \<open>CoreV1().Secrets\<close> of the
  resulting clientset, on the world \<open>'w\<close>.\<close>

record ('c, 'w) secret_api =
  sa_connect :: "'c \<Rightarrow> string option"
  sa_list :: "'c \<Rightarrow> string \<Rightarrow> string \<Rightarrow> 'w \<Rightarrow> 'w \<times> (kerr + secret list)"
  sa_get :: "'c \<Rightarrow> string \<Rightarrow> string \<Rightarrow> 'w \<Rightarrow> 'w \<times> (kerr + secret)"
  sa_create :: "'c \<Rightarrow> string \<Rightarrow> secret \<Rightarrow> ('w, kerr) action"
  sa_update :: "'c \<Rightarrow> string \<Rightarrow> secret \<Rightarrow> ('w, kerr) action"

datatype cert_error =
    ConnectFailed string
  | ListFailed kerr
  | GetSecretFailed kerr
  | CreateSecretFailed kerr
  | UpdateSecretFailed kerr

section \<open>The operations\<close>

text \<open>The loop: a missing label reads as the empty name, missing data as no bytes.\<close>

fun collect_certificates :: "secret list \<Rightarrow> (string \<rightharpoonup> byte list) \<Rightarrow> string \<rightharpoonup> byte list" where
  "collect_certificates [] clusterList = clusterList"
| "collect_certificates (s # items) clusterList =
     collect_certificates items
       (clusterList(map_get [] (sct_labels s) ''l2sm-cert'' \<mapsto> map_get [] (sct_data s) ''cert-value''))"

definition GetClusterCertificates :: "('c, 'w) secret_api \<Rightarrow> 'c \<Rightarrow> 'w \<Rightarrow> 'w \<times> (cert_error + (string \<rightharpoonup> byte list))" where
  "GetClusterCertificates api clusterConfig w =
     (case sa_connect api clusterConfig of
        Some err \<Rightarrow> (w, Inl (ConnectFailed err))
      | None \<Rightarrow>
          (case sa_list api clusterConfig [] ''l2sm-cert'' w of
             (w', Inl err) \<Rightarrow> (w', Inl (ListFailed err))
           | (w', Inr items) \<Rightarrow> (w', Inr (collect_certificates items Map.empty))))"

definition certificate_secret :: "string \<Rightarrow> byte list \<Rightarrow> secret" where
  "certificate_secret clusterName certificateData =
     \<lparr>sct_name = clusterName @ ''-cert'', sct_namespace = [], sct_labels = [''l2sm-cert'' \<mapsto> clusterName],
      sct_data = [''cert-value'' \<mapsto> certificateData], sct_type = ''Opaque'', sct_resourceVersion = []\<rparr>"

definition ApplyCertificateSecrets :: "('c, 'w) secret_api \<Rightarrow> 'c \<Rightarrow> string \<Rightarrow> string \<Rightarrow> byte list \<Rightarrow> ('w, cert_error) action" where
  "ApplyCertificateSecrets api clusterConfig namespace clusterName certificateData w =
     (case sa_connect api clusterConfig of
        Some err \<Rightarrow> (w, Some (ConnectFailed err))
      | None \<Rightarrow>
          (let secret = certificate_secret clusterName certificateData in
           case sa_get api clusterConfig namespace (sct_name secret) w of
             (w1, Inl err) \<Rightarrow>
               if err = KNotFound then
                 (case sa_create api clusterConfig namespace secret w1 of
                    (w2, Some e) \<Rightarrow> (w2, Some (CreateSecretFailed e))
                  | (w2, None) \<Rightarrow> (w2, None))
               else (w1, Some (GetSecretFailed err))
           | (w1, Inr existingSecret) \<Rightarrow>
               (case sa_update api clusterConfig namespace
                       (existingSecret\<lparr>sct_labels := sct_labels secret, sct_data := sct_data secret, sct_type := sct_type secret\<rparr>) w1 of
                  (w2, Some e) \<Rightarrow> (w2, Some (UpdateSecretFailed e))
                | (w2, None) \<Rightarrow> (w2, None))))"

definition CreateCertificateSecrets :: "('c, 'w) secret_api \<Rightarrow> 'c \<Rightarrow> string \<Rightarrow> string \<Rightarrow> byte list \<Rightarrow> ('w, cert_error) action" where
  "CreateCertificateSecrets = ApplyCertificateSecrets"

section \<open>What the operations rely on\<close>

text \<open>\<open>view\<close> reads the labels, data and type stored for a configuration's cluster under a namespace and a
  name. Reads change nothing, a successful write stores, a write touches no other secret, and the list
  holds the secrets that have the label.\<close>

type_synonym secret_view = "string \<times> string \<rightharpoonup> (string \<rightharpoonup> string) \<times> (string \<rightharpoonup> byte list)"

definition secret_content :: "secret \<Rightarrow> (string \<rightharpoonup> string) \<times> (string \<rightharpoonup> byte list)" where
  "secret_content s = (sct_labels s, sct_data s)"

definition secret_write_law :: "(string \<Rightarrow> secret \<Rightarrow> ('w, kerr) action) \<Rightarrow> ('w \<Rightarrow> secret_view) \<Rightarrow> bool" where
  "secret_write_law write view \<longleftrightarrow> (\<forall>ns s w w' r. write ns s w = (w', r) \<longrightarrow>
     (view w')((ns, sct_name s) := None) = (view w)((ns, sct_name s) := None)
     \<and> (r = None \<longrightarrow> view w' (ns, sct_name s) = Some (secret_content s)))"

definition secret_laws :: "('c, 'w) secret_api \<Rightarrow> 'c \<Rightarrow> ('w \<Rightarrow> secret_view) \<Rightarrow> bool" where
  "secret_laws api c view \<longleftrightarrow>
     (\<forall>ns name w w' r. sa_get api c ns name w = (w', r) \<longrightarrow> view w' = view w
        \<and> (\<forall>s. r = Inr s \<longrightarrow> sct_name s = name))
     \<and> secret_write_law (sa_create api c) view \<and> secret_write_law (sa_update api c) view
     \<and> (\<forall>label w w' items. sa_list api c [] label w = (w', Inr items) \<longrightarrow>
          secret_content ` set items = {x. x \<in> ran (view w) \<and> label \<in> dom (fst x)})"

lemma apply_certificate_effect:
  assumes laws: "secret_laws api c view" and run: "ApplyCertificateSecrets api c ns cluster cert w = (w', r)"
  shows "(view w')((ns, cluster @ ''-cert'') := None) = (view w)((ns, cluster @ ''-cert'') := None)
    \<and> (r = None \<longrightarrow> view w' (ns, cluster @ ''-cert'') = Some ([''l2sm-cert'' \<mapsto> cluster], [''cert-value'' \<mapsto> cert]))"
proof (cases "sa_connect api c")
  case (Some e)
  with run show ?thesis by (auto simp: ApplyCertificateSecrets_def)
next
  case None
  let ?s = "certificate_secret cluster cert"
  have s: "sct_name ?s = cluster @ ''-cert''" "secret_content ?s = ([''l2sm-cert'' \<mapsto> cluster], [''cert-value'' \<mapsto> cert])"
    by (simp_all add: certificate_secret_def secret_content_def)
  have wr: "(view v')((ns, cluster @ ''-cert'') := None) = (view v)((ns, cluster @ ''-cert'') := None)
      \<and> (q = None \<longrightarrow> view v' (ns, cluster @ ''-cert'') = Some ([''l2sm-cert'' \<mapsto> cluster], [''cert-value'' \<mapsto> cert]))"
    if "secret_write_law f view" "f ns x v = (v', q)" "sct_name x = cluster @ ''-cert''" "secret_content x = secret_content ?s"
    for f x v v' q
  proof -
    have "(view v')((ns, sct_name x) := None) = (view v)((ns, sct_name x) := None)
        \<and> (q = None \<longrightarrow> view v' (ns, sct_name x) = Some (secret_content x))"
      using that(1,2) unfolding secret_write_law_def by blast
    then show ?thesis unfolding that(3,4) s(2) .
  qed
  have wl: "secret_write_law (sa_create api c) view" "secret_write_law (sa_update api c) view"
    using laws by (simp_all add: secret_laws_def)
  obtain w1 g where g: "sa_get api c ns (cluster @ ''-cert'') w = (w1, g)" by fastforce
  have get: "view w1 = view w \<and> (\<forall>x. g = Inr x \<longrightarrow> sct_name x = cluster @ ''-cert'')"
    using conjunct1 [OF laws [unfolded secret_laws_def]] g by (elim allE impE) assumption+
  show ?thesis
  proof (cases g)
    case (Inl e)
    show ?thesis
    proof (cases "e = KNotFound")
      case True
      obtain w2 q where u: "sa_create api c ns ?s w1 = (w2, q)" by fastforce
      have "w' = w2" "r = None \<longrightarrow> q = None"
        using run None g Inl True u s(1) by (auto simp: ApplyCertificateSecrets_def Let_def split: option.splits)
      with wr [OF wl(1) u s(1) refl] get show ?thesis by auto
    next
      case False
      with run None g Inl get s(1) show ?thesis by (auto simp: ApplyCertificateSecrets_def Let_def)
    qed
  next
    case (Inr x)
    let ?x = "x\<lparr>sct_labels := sct_labels ?s, sct_data := sct_data ?s, sct_type := sct_type ?s\<rparr>"
    obtain w2 q where u: "sa_update api c ns ?x w1 = (w2, q)" by fastforce
    have "w' = w2" "r = None \<longrightarrow> q = None"
      using run None g Inr u s(1) by (auto simp: ApplyCertificateSecrets_def Let_def split: option.splits)
    moreover have "sct_name ?x = cluster @ ''-cert''" "secret_content ?x = secret_content ?s"
      using get Inr by (simp_all add: secret_content_def)
    ultimately show ?thesis using wr [OF wl(2) u] get by auto
  qed
qed

section \<open>Collecting\<close>

definition certificate_of :: "(string \<rightharpoonup> string) \<times> (string \<rightharpoonup> byte list) \<Rightarrow> string \<times> byte list" where
  "certificate_of x = (map_get [] (fst x) ''l2sm-cert'', map_get [] (snd x) ''cert-value'')"

text \<open>The collected map has the certificate of some listed secret for every cluster that has one.\<close>

lemma collect_certificates_map_of:
  "collect_certificates items m = m ++ map_of (rev (map (certificate_of \<circ> secret_content) items))"
  by (induction items arbitrary: m) (simp_all add: certificate_of_def secret_content_def)

lemma collect_certificates_iff:
  "collect_certificates items Map.empty cluster = Some cert \<Longrightarrow> \<exists>x. x \<in> secret_content ` set items \<and> certificate_of x = (cluster, cert)"
  "x \<in> secret_content ` set items \<Longrightarrow> collect_certificates items Map.empty (fst (certificate_of x)) \<noteq> None"
proof -
  assume "collect_certificates items Map.empty cluster = Some cert"
  then have "(cluster, cert) \<in> set (rev (map (certificate_of \<circ> secret_content) items))"
    unfolding collect_certificates_map_of by (intro map_of_SomeD) simp
  then show "\<exists>x. x \<in> secret_content ` set items \<and> certificate_of x = (cluster, cert)" by force
next
  assume "x \<in> secret_content ` set items"
  then have "fst (certificate_of x) \<in> fst ` set (rev (map (certificate_of \<circ> secret_content) items))"
    by (auto simp: image_image)
  then show "collect_certificates items Map.empty (fst (certificate_of x)) \<noteq> None"
    unfolding collect_certificates_map_of by (simp add: map_of_eq_None_iff)
qed

text \<open>The certificates listed are those of the labelled secrets.\<close>

lemma listed_certificates:
  assumes laws: "secret_laws api c view" and list: "GetClusterCertificates api c w = (w', Inr certs)"
  shows "certs x = Some y \<Longrightarrow> \<exists>key ls d. view w key = Some (ls, d) \<and> ls ''l2sm-cert'' = Some x \<and> map_get [] d ''cert-value'' = y"
    and "view w key = Some (ls, d) \<Longrightarrow> ls ''l2sm-cert'' = Some x \<Longrightarrow> certs x \<noteq> None"
proof -
  from list obtain items where l: "sa_list api c [] ''l2sm-cert'' w = (w', Inr items)"
    and certs: "certs = collect_certificates items Map.empty"
    by (auto simp: GetClusterCertificates_def split: option.splits prod.splits sum.splits)
  have items: "secret_content ` set items = {x. x \<in> ran (view w) \<and> ''l2sm-cert'' \<in> dom (fst x)}"
    using laws l unfolding secret_laws_def by blast
  {
    assume cert: "certs x = Some y"
    from collect_certificates_iff(1) [OF cert [unfolded certs]] obtain ls d
      where m: "(ls, d) \<in> secret_content ` set items" "certificate_of (ls, d) = (x, y)" by force
    from m(1) obtain key where k: "view w key = Some (ls, d)" "''l2sm-cert'' \<in> dom ls"
      unfolding items by (auto simp: ran_def)
    with m(2) have "ls ''l2sm-cert'' = Some x" "map_get [] d ''cert-value'' = y"
      by (auto simp: certificate_of_def)
    with k(1) show "\<exists>key ls d. view w key = Some (ls, d) \<and> ls ''l2sm-cert'' = Some x \<and> map_get [] d ''cert-value'' = y"
      by blast
  }
  assume k: "view w key = Some (ls, d)" "ls ''l2sm-cert'' = Some x"
  then have "(ls, d) \<in> secret_content ` set items" unfolding items by (auto intro: ranI)
  from collect_certificates_iff(2) [OF this] k(2) show "certs x \<noteq> None" by (simp add: certs certificate_of_def)
qed


section \<open>Secrets in memory\<close>

text \<open>An instance for the witness: a world is an association list of what is stored under each key.\<close>

type_synonym secret_store = "((string \<times> string) \<times> (string \<rightharpoonup> string) \<times> (string \<rightharpoonup> byte list)) list"

definition mem_secret :: "(string \<times> string) \<times> (string \<rightharpoonup> string) \<times> (string \<rightharpoonup> byte list) \<Rightarrow> secret" where
  "mem_secret e = \<lparr>sct_name = snd (fst e), sct_namespace = fst (fst e), sct_labels = fst (snd e), sct_data = snd (snd e),
     sct_type = ''Opaque'', sct_resourceVersion = ''1''\<rparr>"

definition mem_secret_write :: "string \<Rightarrow> secret \<Rightarrow> (secret_store, kerr) action" where
  "mem_secret_write ns s w = (AList.update (ns, sct_name s) (secret_content s) w, None)"

definition mem_secrets :: "(unit, secret_store) secret_api" where
  "mem_secrets =
     \<lparr>sa_connect = (\<lambda>c. None),
      sa_list = (\<lambda>c ns label w. (w, Inr (map mem_secret (filter (\<lambda>e. label \<in> dom (fst (snd e))) (AList.clearjunk w))))),
      sa_get = (\<lambda>c ns name w. (w, case map_of w (ns, name) of None \<Rightarrow> Inl KNotFound | Some x \<Rightarrow> Inr (mem_secret ((ns, name), x)))),
      sa_create = (\<lambda>c. mem_secret_write), sa_update = (\<lambda>c. mem_secret_write)\<rparr>"

lemma mem_secret_laws: "secret_laws mem_secrets () map_of"
proof -
  have content: "secret_content (mem_secret e) = snd e" for e by (simp add: secret_content_def mem_secret_def)
  have "secret_write_law mem_secret_write map_of"
    by (auto simp: secret_write_law_def mem_secret_write_def update_conv')
  moreover have "secret_content ` set (map mem_secret (filter (\<lambda>e. label \<in> dom (fst (snd e))) (AList.clearjunk w)))
      = {x. x \<in> ran (map_of w) \<and> label \<in> dom (fst x)}" for label w
  proof -
    have "secret_content ` set (map mem_secret (filter (\<lambda>e. label \<in> dom (fst (snd e))) (AList.clearjunk w)))
        = snd ` {e \<in> set (AList.clearjunk w). label \<in> dom (fst (snd e))}"
      by (simp add: image_image content)
    also have "\<dots> = {x. x \<in> snd ` set (AList.clearjunk w) \<and> label \<in> dom (fst x)}" by blast
    also have "snd ` set (AList.clearjunk w) = ran (map_of w)"
      using ran_distinct [OF distinct_clearjunk, of w] by (simp add: map_of_clearjunk)
    finally show ?thesis .
  qed
  ultimately show ?thesis
    by (auto simp: secret_laws_def mem_secrets_def mem_secret_def split: option.splits)
qed


end
