(* ===== verification/OverlayGen.thy ===== *)
theory OverlayGen
  imports CrGen Topology
begin

text \<open>
  \<open>pkg/l2sminterface/overlay_generator.go\<close>: the L2S-M overlay of a SliceOverlay, and the generator
  behind \<open>NewCRGenerator\<close> that prints an overlay from a topology. The converters it calls
  (\<open>ToUnstructured\<close>, \<open>yaml.Marshal\<close>, \<open>json.Unmarshal\<close>) are the fields of \<open>codec\<close>.
\<close>

definition SWITCH_DOCKER_IMAGE :: string where
  "SWITCH_DOCKER_IMAGE = ''alexdecb/l2sm-switch:1.2.9''"

definition defaultSwitchTemplate :: switch_template where
  "defaultSwitchTemplate =
     \<lparr>st_containers =
        [\<lparr>ct_name = ''l2sm-switch'', ct_image = SWITCH_DOCKER_IMAGE,
          ct_env = [\<lparr>ev_name = ''NODENAME'', ev_fieldPath = Some ''spec.nodeName''\<rparr>],
          ct_imagePullPolicy = ''Always'', ct_capabilitiesAdd = [''NET_ADMIN'']\<rparr>],
      st_rest = JNull\<rparr>"

definition defaultProvider :: provider_spec where
  "defaultProvider = empty_provider
     \<lparr>ps_name := ''l2sm-sdn'', ps_domain := [''l2sm-controller-service.l2sm-system.svc''],
      ps_ofPort := ''6633'', ps_sdnPort := ''8181''\<rparr>"

definition getOverlayNodeNames :: "overlay_cluster list \<Rightarrow> string list" where
  "getOverlayNodeNames nodes = map oc_name nodes"

text \<open>The links of a topology: its own, or the generated full mesh when it has none and more than one
  node.\<close>

definition overlay_links :: "overlay_topology \<Rightarrow> overlay_link list" where
  "overlay_links topology =
     (if ot_links topology = [] \<and> length (ot_nodes topology) > 1
      then GenerateTopology (getOverlayNodeNames (ot_nodes topology))
      else ot_links topology)"

definition ConstructOverlayFromL2smmd :: "l2sm_lib \<Rightarrow> slice_overlay \<Rightarrow> l2sm_overlay" where
  "ConstructOverlayFromL2smmd lib slc =
     (let topology = (case sos_topology (so_spec slc) of
                        Some t \<Rightarrow> t | None \<Rightarrow> \<lparr>ot_nodes = [], ot_links = []\<rparr>);
          links = map (\<lambda>l. \<lparr>ln_endpointA = ol_endpointA l, ln_endpointB = ol_endpointB l\<rparr>)
                    (overlay_links topology);
          provider = (case sos_provider (so_spec slc) of Some p \<Rightarrow> p | None \<Rightarrow> defaultProvider);
          switchTemplate = (case sos_switchTemplate (so_spec slc) of
                              Some t \<Rightarrow> t | None \<Rightarrow> defaultSwitchTemplate)
      in \<lparr>lo_typeMeta = \<lparr>tm_kind = GetKind Overlay,
                         tm_apiVersion = lib_gv_string lib (lib_group_version lib)\<rparr>,
          lo_meta = empty_meta\<lparr>m_name := overlay_name slc\<rparr>,
          lo_spec = \<lparr>os_provider = Some provider, os_switchTemplate = Some switchTemplate,
                     os_topology = Some \<lparr>tp_nodes = getOverlayNodeNames (ot_nodes topology),
                                         tp_links = links\<rparr>\<rparr>\<rparr>)"

text \<open>C33: the overlay of a slice with a topology has the slice's cluster names as nodes. Explicit links
  are kept as they are; without any, and with distinct cluster names, the links are the full mesh:
  every two different clusters are the endpoints of exactly one link. The slice's provider and switch
  template are used when it has them, the defaults otherwise.\<close>

theorem ConstructOverlay_topology:
  assumes "sos_topology (so_spec slc) = Some t"
  shows "\<exists>ls. os_topology (lo_spec (ConstructOverlayFromL2smmd lib slc))
        = Some \<lparr>tp_nodes = map oc_name (ot_nodes t), tp_links = ls\<rparr>
    \<and> (ot_links t \<noteq> [] \<longrightarrow>
         map (\<lambda>l. (ln_endpointA l, ln_endpointB l)) ls = map (\<lambda>l. (ol_endpointA l, ol_endpointB l)) (ot_links t))
    \<and> (ot_links t = [] \<longrightarrow> distinct (map oc_name (ot_nodes t)) \<longrightarrow>
         (\<forall>a b. a \<in> oc_name ` set (ot_nodes t) \<longrightarrow> b \<in> oc_name ` set (ot_nodes t) \<longrightarrow> a \<noteq> b \<longrightarrow>
            length (filter (\<lambda>l. (ln_endpointA l = a \<and> ln_endpointB l = b)
                                \<or> (ln_endpointA l = b \<and> ln_endpointB l = a)) ls) = 1))
    \<and> os_provider (lo_spec (ConstructOverlayFromL2smmd lib slc))
        = Some (case sos_provider (so_spec slc) of None \<Rightarrow> defaultProvider | Some p \<Rightarrow> p)
    \<and> os_switchTemplate (lo_spec (ConstructOverlayFromL2smmd lib slc))
        = Some (case sos_switchTemplate (so_spec slc) of None \<Rightarrow> defaultSwitchTemplate | Some s \<Rightarrow> s)"
proof -
  let ?ls = "map (\<lambda>l. \<lparr>ln_endpointA = ol_endpointA l, ln_endpointB = ol_endpointB l\<rparr>) (overlay_links t)"
  have mesh: "length (filter (\<lambda>l. joins l a b) (overlay_links t)) = 1"
    if "ot_links t = []" "distinct (map oc_name (ot_nodes t))" "a \<in> oc_name ` set (ot_nodes t)"
      "b \<in> oc_name ` set (ot_nodes t)" "a \<noteq> b" for a b
  proof -
    have "length (ot_nodes t) > 1"
    proof (rule ccontr)
      assume "\<not> length (ot_nodes t) > 1"
      then have "ot_nodes t = [] \<or> (\<exists>n. ot_nodes t = [n])"
        by (cases "ot_nodes t") auto
      with that show False by auto
    qed
    with that show ?thesis
      by (simp add: overlay_links_def getOverlayNodeNames_def GenerateTopology_mesh_pairs mesh_pairs_joins)
  qed
  show ?thesis
    by (rule exI [of _ ?ls])
       (use mesh assms in \<open>auto simp: ConstructOverlayFromL2smmd_def getOverlayNodeNames_def overlay_links_def
          filter_map comp_def joins_def split: option.splits\<close>)
qed

definition example_overlay_slice :: slice_overlay where
  "example_overlay_slice =
     \<lparr>so_typeMeta = \<lparr>tm_kind = [], tm_apiVersion = []\<rparr>,
      so_meta = empty_meta\<lparr>m_name := ''s''\<rparr>,
      so_spec = \<lparr>sos_providerRef = None, sos_provider = None, sos_switchTemplate = None,
        sos_topology = Some \<lparr>ot_nodes = [\<lparr>oc_name = ''a'', oc_gateway = None\<rparr>,
          \<lparr>oc_name = ''b'', oc_gateway = None\<rparr>], ot_links = []\<rparr>, sos_monitoring = None\<rparr>,
      so_status = empty_overlay_status\<rparr>"

lemma ConstructOverlay_topology_witness:
  "\<forall>lib. \<exists>ls. os_topology (lo_spec (ConstructOverlayFromL2smmd lib example_overlay_slice))
      = Some \<lparr>tp_nodes = [''a'', ''b''], tp_links = ls\<rparr>
    \<and> length (filter (\<lambda>l. (ln_endpointA l = ''a'' \<and> ln_endpointB l = ''b'')
                          \<or> (ln_endpointA l = ''b'' \<and> ln_endpointB l = ''a'')) ls) = 1"
  using ConstructOverlay_topology [of example_overlay_slice "\<lparr>ot_nodes = [\<lparr>oc_name = ''a'', oc_gateway = None\<rparr>,
          \<lparr>oc_name = ''b'', oc_gateway = None\<rparr>], ot_links = []\<rparr>"]
  by (fastforce simp: example_overlay_slice_def)

section \<open>The generator that prints an overlay\<close>

record codec =
  cd_to_unstructured :: "l2sm_overlay \<Rightarrow> string + (string \<times> json) list"
  cd_yaml_marshal :: "(string \<times> json) list \<Rightarrow> string + string"
  cd_json_unmarshal :: "string \<Rightarrow> string + topology_spec"

datatype overlay_error =
    ConstructFailed string
  | ToUnstructuredFailed string
  | MarshalFailed string
  | UnmarshalFailed string

text \<open>Go's operations on the nested \<open>map[string]interface{}\<close>: \<open>in_object k f\<close> applies \<open>f\<close> to the map under
  \<open>k\<close> when there is one, in place.\<close>

definition del_key :: "string \<Rightarrow> (string \<times> json) list \<Rightarrow> (string \<times> json) list" where
  "del_key k o1 = filter (\<lambda>(k', v). k' \<noteq> k) o1"

fun in_object :: "string \<Rightarrow> ((string \<times> json) list \<Rightarrow> (string \<times> json) list)
    \<Rightarrow> (string \<times> json) list \<Rightarrow> (string \<times> json) list" where
  "in_object k f [] = []"
| "in_object k f ((k', v) # o1) =
     (if k' = k then (case v of JObj o2 \<Rightarrow> (k', JObj (f o2)) # o1 | _ \<Rightarrow> (k', v) # o1)
      else (k', v) # in_object k f o1)"

definition constructOverlayFromTopology :: "l2sm_lib \<Rightarrow> topology_spec \<Rightarrow> string + l2sm_overlay" where
  "constructOverlayFromTopology lib overlay =
     Inr \<lparr>lo_typeMeta = \<lparr>tm_kind = ''Overlay'', tm_apiVersion = lib_gv_identifier lib (lib_group_version lib)\<rparr>,
          lo_meta = empty_meta\<lparr>m_name := ''overlay-sample''\<rparr>,
          lo_spec = \<lparr>os_provider = Some defaultProvider, os_switchTemplate = Some defaultSwitchTemplate,
                     os_topology = Some \<lparr>tp_nodes = tp_nodes overlay, tp_links = tp_links overlay\<rparr>\<rparr>\<rparr>"

definition clean_overlay :: "(string \<times> json) list \<Rightarrow> (string \<times> json) list" where
  "clean_overlay o1 =
     in_object ''spec'' (in_object ''switchTemplate'' (in_object ''metadata'' (del_key ''creationTimestamp'')))
       (in_object ''metadata'' (del_key ''creationTimestamp'') o1)"

text \<open>\<open>None\<close> is the panic of a generator that was given no values.\<close>

definition CreateResource :: "l2sm_lib \<Rightarrow> codec \<Rightarrow> overlay_generator \<Rightarrow> (overlay_error + string) option" where
  "CreateResource lib cd gen =
     (case og_values gen of
        None \<Rightarrow> None
      | Some values \<Rightarrow> Some
          (case constructOverlayFromTopology lib values of
             Inl e \<Rightarrow> Inl (ConstructFailed e)
           | Inr l2smOverlay \<Rightarrow>
               (case cd_to_unstructured cd l2smOverlay of
                  Inl e \<Rightarrow> Inl (ToUnstructuredFailed e)
                | Inr unstructuredMap \<Rightarrow>
                    (case cd_yaml_marshal cd (clean_overlay unstructuredMap) of
                       Inl e \<Rightarrow> Inl (MarshalFailed e)
                     | Inr yamlData \<Rightarrow> Inr yamlData))))"

definition AddValues :: "codec \<Rightarrow> string \<Rightarrow> overlay_generator \<Rightarrow> overlay_generator \<times> overlay_error option" where
  "AddValues cd byteValues gen =
     (case cd_json_unmarshal cd byteValues of
        Inl e \<Rightarrow> (gen, Some (UnmarshalFailed e))
      | Inr values \<Rightarrow> (gen\<lparr>og_values := Some values\<rparr>, None))"

text \<open>Looking a path up in the nested objects; a path through a value that is no object leads nowhere.\<close>

fun path_value :: "string list \<Rightarrow> (string \<times> json) list \<Rightarrow> json option" where
  "path_value [] o1 = Some (JObj o1)"
| "path_value [k] o1 = map_of o1 k"
| "path_value (k # ks) o1 = (case map_of o1 k of Some (JObj o2) \<Rightarrow> path_value ks o2 | _ \<Rightarrow> None)"

lemma map_of_del_key: "map_of (del_key k o1) k' = (if k' = k then None else map_of o1 k')"
  by (induction o1) (auto simp: del_key_def)

lemma map_of_in_object:
  "map_of (in_object k f o1) k' =
     (if k' = k then map_option (\<lambda>v. case v of JObj o2 \<Rightarrow> JObj (f o2) | v' \<Rightarrow> v') (map_of o1 k)
      else map_of o1 k')"
  by (induction k f o1 rule: in_object.induct) (auto split: json.splits)

lemma path_in_object [simp]:
  "path_value (k # j # ks) (in_object k f o1) =
     (case map_of o1 k of Some (JObj o2) \<Rightarrow> path_value (j # ks) (f o2) | _ \<Rightarrow> None)"
  "k \<noteq> k' \<Longrightarrow> path_value (k # ks) (in_object k' f o1) = path_value (k # ks) o1"
  by (auto simp: map_of_in_object neq_Nil_conv split: option.splits json.splits) (cases ks; simp add: map_of_in_object)+

lemma path_del_key [simp]: "path_value [k] (del_key k' o1) = (if k = k' then None else path_value [k] o1)"
  by (simp add: map_of_del_key)

lemma path_in_object_none:
  "(\<And>o2. path_value (j # ks) (f o2) = None) \<Longrightarrow> path_value (k # j # ks) (in_object k f o1) = None"
  by (auto simp: map_of_in_object split: option.splits json.splits)

lemma path_in_object_same:
  "(\<And>o2. path_value (j # ks) (f o2) = path_value (j # ks) o2)
     \<Longrightarrow> path_value (k # j # ks) (in_object k f o1) = path_value (k # j # ks) o1"
  by (auto simp: map_of_in_object split: option.splits json.splits)

text \<open>The printed overlay has no \<open>creationTimestamp\<close> under \<open>metadata\<close> and under
  \<open>spec.switchTemplate.metadata\<close>, and a top-level field other than these two keeps its value, as does
  every other field of \<open>metadata\<close>.\<close>

theorem clean_overlay_timestamps:
  "path_value [''metadata'', ''creationTimestamp''] (clean_overlay o1) = None
   \<and> path_value [''spec'', ''switchTemplate'', ''metadata'', ''creationTimestamp''] (clean_overlay o1) = None
   \<and> (\<forall>k. k \<noteq> ''metadata'' \<longrightarrow> k \<noteq> ''spec'' \<longrightarrow> path_value [k] (clean_overlay o1) = path_value [k] o1)
   \<and> (\<forall>k. k \<noteq> ''creationTimestamp'' \<longrightarrow>
        path_value [''metadata'', k] (clean_overlay o1) = path_value [''metadata'', k] o1)
   \<and> (\<forall>k. k \<noteq> ''switchTemplate'' \<longrightarrow>
        path_value [''spec'', k] (clean_overlay o1) = path_value [''spec'', k] o1)"
  unfolding clean_overlay_def
  by (intro conjI allI impI; (rule path_in_object_none)?)
     (simp_all add: path_in_object_none path_in_object_same del: path_value.simps path_in_object(1))

lemma clean_overlay_timestamps_witness:
  "path_value [''kind''] (clean_overlay [(''kind'', JStr ''Overlay''),
     (''metadata'', JObj [(''creationTimestamp'', JNull), (''name'', JStr ''o'')])]) = Some (JStr ''Overlay'')"
  using clean_overlay_timestamps [of "[(''kind'', JStr ''Overlay''),
     (''metadata'', JObj [(''creationTimestamp'', JNull), (''name'', JStr ''o'')])]"] by simp

text \<open>A generator that was given values prints the overlay of those values, and reports the
  converter's error otherwise; one that was not given any (the state \<open>NewCRGenerator\<close> makes) panics.
  The factory supports exactly the overlay resource.\<close>

theorem CRGenerator_flow:
  "(NewCRGenerator r = Inl (TypeNotSupported r) \<longleftrightarrow> r \<noteq> Overlay)
   \<and> (\<forall>gen. NewCRGenerator r = Inr gen \<longrightarrow> CreateResource lib cd gen = None
        \<and> (\<forall>values. cd_json_unmarshal cd b = Inr values \<longrightarrow>
              snd (AddValues cd b gen) = None
            \<and> og_values (fst (AddValues cd b gen)) = Some values
            \<and> (\<forall>y. CreateResource lib cd (fst (AddValues cd b gen)) = Some (Inr y) \<longleftrightarrow>
                 (\<exists>o1. cd_to_unstructured cd (projr (constructOverlayFromTopology lib values)) = Inr o1
                      \<and> cd_yaml_marshal cd (clean_overlay o1) = Inr y))))"
  by (auto simp: NewCRGenerator_def CreateResource_def AddValues_def constructOverlayFromTopology_def
        split: sum.splits)

definition example_codec :: codec where
  "example_codec = \<lparr>cd_to_unstructured = \<lambda>ov. Inr [(''kind'', JStr (tm_kind (lo_typeMeta ov)))],
     cd_yaml_marshal = \<lambda>o1. Inr ''kind: Overlay'',
     cd_json_unmarshal = \<lambda>b. Inr \<lparr>tp_nodes = [b], tp_links = []\<rparr>\<rparr>"

lemma CRGenerator_flow_witness:
  "\<forall>lib. CreateResource lib example_codec (fst (AddValues example_codec ''x'' \<lparr>og_values = None\<rparr>))
     = Some (Inr ''kind: Overlay'')"
  using CRGenerator_flow [of Overlay _ example_codec "''x''"]
  by (simp add: NewCRGenerator_def example_codec_def)

end
