(* ===== verification/Tools.thy ===== *)
theory Tools
  imports GoFlag MdClient Operator OverlayGen
begin

text \<open>
  The kubeconfig reader of \<open>pkg/mdclient/restclient.go\<close> and the commands \<open>cmd/generate-cr\<close> and
  \<open>cmd/apply-cert\<close>. The file system, the kubeconfig loader of client-go and the flags that linked
  libraries register are parameters; the certificate is stored by \<open>Operator\<close> and the overlay printed by
  \<open>OverlayGen\<close>.
\<close>

section \<open>Kubeconfig directories\<close>

text \<open>\<open>readDir\<close> is \<open>os.ReadDir\<close>, as the names of the entries, and \<open>build\<close> is
  \<open>clientcmd.BuildConfigFromFlags("", path)\<close>.\<close>

datatype rest_configs_error =
    ReadDirFailed string string
  | BuildFailed string string
  | ReadConfigsFailed string rest_configs_error

fun read_configs_loop :: "(string \<Rightarrow> string + 'c) \<Rightarrow> string \<Rightarrow> string list \<Rightarrow> 'c list \<Rightarrow> rest_configs_error + 'c list" where
  "read_configs_loop build dir [] acc = Inr acc"
| "read_configs_loop build dir (name # names) acc =
     (case build (filepath_Join [dir, name]) of
        Inl err \<Rightarrow> Inl (BuildFailed name err)
      | Inr config \<Rightarrow> read_configs_loop build dir names (acc @ [config]))"

definition readKubernetesConfigs :: "(string \<Rightarrow> string + 'c) \<Rightarrow> string \<Rightarrow> string list \<Rightarrow> rest_configs_error + 'c list" where
  "readKubernetesConfigs build dir entries = read_configs_loop build dir entries []"

definition GetRestConfigs :: "(string \<Rightarrow> string + string list) \<Rightarrow> (string \<Rightarrow> string + 'c) \<Rightarrow> string
    \<Rightarrow> rest_configs_error + 'c list" where
  "GetRestConfigs readDir build dir =
     (case readDir dir of
        Inl err \<Rightarrow> Inl (ReadDirFailed dir err)
      | Inr kubeFiles \<Rightarrow>
          (case readKubernetesConfigs build dir kubeFiles of
             Inl err \<Rightarrow> Inl (ReadConfigsFailed dir err)
           | Inr clusterConfigs \<Rightarrow> Inr clusterConfigs))"

lemma read_configs_loop_ok:
  "read_configs_loop build dir names acc = Inr cs \<longleftrightarrow>
     (\<exists>ds. cs = acc @ ds \<and> map (\<lambda>name. build (filepath_Join [dir, name])) names = map Inr ds)"
proof (induction names arbitrary: acc)
  case Nil
  then show ?case by auto
next
  case (Cons name names)
  show ?case
  proof (cases "build (filepath_Join [dir, name])")
    case (Inl e)
    then show ?thesis by (auto simp: Cons_eq_map_conv)
  next
    case (Inr c)
    then show ?thesis
      using Cons.IH [of "acc @ [c]"] by (auto simp: Cons_eq_map_conv intro: exI [of _ "c # _"])
  qed
qed

lemma read_configs_loop_error:
  "read_configs_loop build dir names acc = Inl err \<Longrightarrow>
     \<exists>before name after e. names = before @ name # after \<and> err = BuildFailed name e
       \<and> build (filepath_Join [dir, name]) = Inl e
       \<and> (\<forall>n \<in> set before. \<exists>c. build (filepath_Join [dir, n]) = Inr c)"
proof (induction names arbitrary: acc)
  case Nil
  then show ?case by simp
next
  case (Cons x names)
  show ?case
  proof (cases "build (filepath_Join [dir, x])")
    case (Inl e)
    with Cons.prems show ?thesis by (intro exI [of _ "[]"] exI [of _ x] exI [of _ names] exI [of _ e]) simp
  next
    case (Inr c)
    with Cons obtain before name after e where "names = before @ name # after" "err = BuildFailed name e"
      "build (filepath_Join [dir, name]) = Inl e" "\<forall>n \<in> set before. \<exists>c. build (filepath_Join [dir, n]) = Inr c"
      by fastforce
    with Inr show ?thesis by (intro exI [of _ "x # before"] exI [of _ name] exI [of _ after] exI [of _ e]) simp
  qed
qed

text \<open>Reading a directory of kubeconfigs, for an absolute clean path and the plain names \<open>os.ReadDir\<close>
  gives. It returns one configuration per entry, in the order of the entries, each loaded from
  \<open>dir/name\<close>, exactly when the directory can be read and every entry loads; so a subdirectory or any
  other file that is no kubeconfig makes it fail, and the error names the first such entry.\<close>

theorem GetRestConfigs_outcome:
  assumes dir: "dir = CHR ''/'' # join_path es" "es \<noteq> []" "list_all plain_elem es"
    and names: "\<And>ns. readDir dir = Inr ns \<Longrightarrow> list_all plain_elem ns"
  shows "(GetRestConfigs readDir build dir = Inr cs \<longleftrightarrow>
      (\<exists>ns. readDir dir = Inr ns \<and> map (\<lambda>name. build (dir @ CHR ''/'' # name)) ns = map Inr cs))
    \<and> (\<forall>err. GetRestConfigs readDir build dir = Inl err \<longrightarrow>
         (\<exists>e. readDir dir = Inl e \<and> err = ReadDirFailed dir e)
       \<or> (\<exists>before name after e. readDir dir = Inr (before @ name # after)
            \<and> build (dir @ CHR ''/'' # name) = Inl e \<and> err = ReadConfigsFailed dir (BuildFailed name e)
            \<and> (\<forall>n \<in> set before. \<exists>c. build (dir @ CHR ''/'' # n) = Inr c)))"
proof (cases "readDir dir")
  case (Inl e)
  then show ?thesis by (simp add: GetRestConfigs_def)
next
  case (Inr ns)
  have path: "filepath_Join [dir, name] = dir @ CHR ''/'' # name" if "name \<in> set ns" for name
    using filepath_Join_name [OF dir(2,3), of name] names [OF Inr] that by (simp add: dir(1) list_all_iff)
  have run: "GetRestConfigs readDir build dir =
      (case read_configs_loop build dir ns [] of Inl err \<Rightarrow> Inl (ReadConfigsFailed dir err) | Inr r \<Rightarrow> Inr r)"
    by (simp add: GetRestConfigs_def Inr readKubernetesConfigs_def)
  have same: "map (\<lambda>name. build (filepath_Join [dir, name])) ns = map (\<lambda>name. build (dir @ CHR ''/'' # name)) ns"
    using path by simp
  show ?thesis
  proof (cases "read_configs_loop build dir ns []")
    case (Inl err)
    then have "\<not> (\<exists>ds. map (\<lambda>name. build (dir @ CHR ''/'' # name)) ns = map Inr ds)"
      using read_configs_loop_ok [of build dir ns "[]"] same by auto
    moreover obtain before name after e where "ns = before @ name # after" "err = BuildFailed name e"
      "build (filepath_Join [dir, name]) = Inl e" "\<forall>n \<in> set before. \<exists>c. build (filepath_Join [dir, n]) = Inr c"
      using read_configs_loop_error [OF Inl] by blast
    ultimately show ?thesis using path run Inl Inr by auto
  next
    case loaded: (Inr ds)
    then have "map (\<lambda>name. build (dir @ CHR ''/'' # name)) ns = map Inr ds"
      using read_configs_loop_ok [of build dir ns "[]" ds] same by simp
    with run loaded Inr show ?thesis by (auto dest: map_injective simp: inj_def)
  qed
qed

theorem GetRestConfigs_outcome_witness:
  "GetRestConfigs (\<lambda>d. Inr [''a'', ''b'']) Inr ''/etc/kube'' = Inr [''/etc/kube/a'', ''/etc/kube/b'']"
  using GetRestConfigs_outcome [of "''/etc/kube''" "[''etc'', ''kube'']" "\<lambda>d. Inr [''a'', ''b'']" Inr
      "[''/etc/kube/a'', ''/etc/kube/b'']"]
  by (simp add: plain_elem_def)

section \<open>cmd/generate-cr\<close>

text \<open>\<open>fmt.Println\<close> of a byte slice prints the bytes as decimal numbers.\<close>

definition println_bytes :: "string \<Rightarrow> string" where
  "println_bytes bs = ''['' @ join '' '' (map (\<lambda>c. show_nat (of_char c)) bs) @ '']'' @ [CHR 0x0A]"

definition generate_flags :: flag_set where
  "generate_flags = [''output'' \<mapsto> StringFlag, ''input'' \<mapsto> StringFlag, ''resource'' \<mapsto> StringFlag]"

text \<open>\<open>takeArguments\<close>: the exit code when the flags end the process, or the resource, the output, the input
  and whether it reports an error; \<open>lib\<close> are the flags of linked libraries.\<close>

datatype taken_arguments =
    FlagsExit nat
  | Taken ResourceType string string bool

definition takeArguments :: "flag_set \<Rightarrow> string list \<Rightarrow> taken_arguments" where
  "takeArguments lib args =
     (case parse_flags (lib ++ generate_flags) args Map.empty of
        FlagHelp \<Rightarrow> FlagsExit 0
      | FlagError \<Rightarrow> FlagsExit 2
      | ParsedFlags vals rest \<Rightarrow>
          if string_flag vals ''input'' [] = [] then Taken Overlay [] [] True
          else Taken (string_flag vals ''resource'' ''Overlay'') (string_flag vals ''output'' [])
                 (string_flag vals ''input'' []) False)"

text \<open>How the command ends: at the flags, with exit code 1 after one of its messages, with a nil
  dereference, or after writing the file (\<open>None\<close>) or printing (\<open>Some\<close>).\<close>

datatype generate_end =
    GenerateFlags nat
  | ReadInputFailed string
  | ResourceUndefined cr_error
  | ValuesFailed overlay_error
  | GenerateFailed overlay_error
  | GeneratePanic
  | Generated "string option"

record 'w file_system =
  fs_read :: "'w \<Rightarrow> string \<Rightarrow> string + string"
  fs_write :: "string \<Rightarrow> string \<Rightarrow> ('w, string) action"

definition generate_main :: "l2sm_lib \<Rightarrow> codec \<Rightarrow> 'w file_system \<Rightarrow> flag_set \<Rightarrow> string list \<Rightarrow> 'w \<Rightarrow> 'w \<times> generate_end" where
  "generate_main l2sm cd fs lib args w =
     (case takeArguments lib args of
        FlagsExit n \<Rightarrow> (w, GenerateFlags n)
      | Taken resource output input ignored_error \<Rightarrow>
          (case fs_read fs w input of
             Inl err \<Rightarrow> (w, ReadInputFailed err)
           | Inr values \<Rightarrow>
               (case NewCRGenerator resource of
                  Inl err \<Rightarrow> (w, ResourceUndefined err)
                | Inr crGenerator \<Rightarrow>
                    (case AddValues cd values crGenerator of
                       (_, Some err) \<Rightarrow> (w, ValuesFailed err)
                     | (crGenerator', None) \<Rightarrow>
                         (case CreateResource l2sm cd crGenerator' of
                            None \<Rightarrow> (w, GeneratePanic)
                          | Some (Inl err) \<Rightarrow> (w, GenerateFailed err)
                          | Some (Inr yamlFile) \<Rightarrow>
                              if output \<noteq> [] then (fst (fs_write fs output yamlFile w), Generated None)
                              else (w, Generated (Some (println_bytes yamlFile))))))))"

fun generate_code :: "generate_end \<Rightarrow> nat" where
  "generate_code (GenerateFlags n) = n"
| "generate_code GeneratePanic = 2"
| "generate_code (Generated t) = 0"
| "generate_code _ = 1"

text \<open>The YAML of the overlay for the values the bytes \<open>b\<close> hold.\<close>

definition overlay_yaml :: "l2sm_lib \<Rightarrow> codec \<Rightarrow> string \<Rightarrow> string option" where
  "overlay_yaml l2sm cd b =
     (case cd_json_unmarshal cd b of
        Inl e \<Rightarrow> None
      | Inr values \<Rightarrow>
          (case constructOverlayFromTopology l2sm values of
             Inl e \<Rightarrow> None
           | Inr ov \<Rightarrow>
               (case cd_to_unstructured cd ov of
                  Inl e \<Rightarrow> None
                | Inr o1 \<Rightarrow> (case cd_yaml_marshal cd (clean_overlay o1) of Inl e \<Rightarrow> None | Inr y \<Rightarrow> Some y))))"

lemma length_join_nonempty: "(\<And>x. x \<in> set xs \<Longrightarrow> x \<noteq> []) \<Longrightarrow> length xs \<le> length (join sep xs)"
proof (induction sep xs rule: join.induct)
  case (3 sep s t ss)
  have "length (t # ss) \<le> length (join sep (t # ss))" by (rule "3.IH") (simp add: "3.prems")
  moreover have "s \<noteq> []" by (rule "3.prems") simp
  ultimately show ?case by (cases s) auto
qed (auto simp: Suc_le_eq)

lemma println_bytes_longer: "length y + 1 < length (println_bytes y)"
proof -
  have "length (map (\<lambda>c. show_nat (of_char c)) y) \<le> length (join '' '' (map (\<lambda>c. show_nat (of_char c)) y))"
    by (rule length_join_nonempty) (use show_nat_nonempty in auto)
  then show ?thesis by (simp add: println_bytes_def)
qed

text \<open>From the values to the end of the command.\<close>

lemma generate_end:
  assumes "takeArguments lib args = Taken r out inp e" "fs_read fs w inp = Inr b"
  shows "r = Overlay \<Longrightarrow> overlay_yaml l2sm cd b = Some yaml \<Longrightarrow> generate_main l2sm cd fs lib args w =
      (if out \<noteq> [] then (fst (fs_write fs out yaml w), Generated None) else (w, Generated (Some (println_bytes yaml))))"
    and "r \<noteq> Overlay \<or> overlay_yaml l2sm cd b = None \<Longrightarrow>
      \<exists>x. generate_main l2sm cd fs lib args w = (w, x) \<and> x \<noteq> GeneratePanic \<and> generate_code x = 1"
  by (auto simp: generate_main_def assms NewCRGenerator_def AddValues_def CreateResource_def overlay_yaml_def
      split: sum.splits)

lemma takeArguments_args:
  assumes "inp \<noteq> []"
  shows "takeArguments lib (map flag_arg [(''resource'', r), (''output'', out), (''input'', inp)] @ []) = Taken r out inp False"
proof -
  let ?nvs = "[(''resource'', r), (''output'', out), (''input'', inp)]"
  have "parse_flags (lib ++ generate_flags) (map flag_arg ?nvs @ []) Map.empty
      = parse_flags (lib ++ generate_flags) [] (Map.empty ++ map_of (rev ?nvs))"
    by (rule parse_flag_args) (auto simp: plain_name_def generate_flags_def)
  then show ?thesis using assms by (simp add: takeArguments_def string_flag_def)
qed

text \<open>C40: \<open>generate-cr\<close>. It never panics and exits with 0 exactly when it printed the help or generated: when
  the resource is \<open>Overlay\<close>, the input file can be read and its values make an overlay. Then it writes
  the YAML of that overlay to the output file, or, without one, prints the bytes of the YAML as decimal
  numbers, which is never the YAML. Nothing is written otherwise. Without \<open>-input\<close> the error of
  \<open>takeArguments\<close> is lost and the file with the empty name is read.\<close>

theorem generate_cr_outcome:
  "(\<forall>w' r. generate_main l2sm cd fs lib args w = (w', r) \<longrightarrow>
       r \<noteq> GeneratePanic
     \<and> (\<forall>text. r = Generated text \<longleftrightarrow>
          (\<exists>out inp e b yaml. takeArguments lib args = Taken Overlay out inp e \<and> fs_read fs w inp = Inr b
             \<and> overlay_yaml l2sm cd b = Some yaml
             \<and> text = (if out = [] then Some (println_bytes yaml) else None)
             \<and> (out \<noteq> [] \<longrightarrow> w' = fst (fs_write fs out yaml w))))
     \<and> (w' \<noteq> w \<longrightarrow> r = Generated None)
     \<and> (generate_code r = 0 \<longleftrightarrow> r = GenerateFlags 0 \<or> (\<exists>text. r = Generated text)))
   \<and> (\<forall>yaml. println_bytes yaml \<noteq> yaml @ [CHR 0x0A])
   \<and> (\<forall>r out inp. inp \<noteq> [] \<longrightarrow>
        takeArguments lib (map flag_arg [(''resource'', r), (''output'', out), (''input'', inp)]) = Taken r out inp False)
   \<and> takeArguments lib [] = Taken Overlay [] [] True"
proof -
  have ends: "r \<noteq> GeneratePanic
      \<and> (\<forall>text. r = Generated text \<longleftrightarrow>
          (\<exists>out inp e b yaml. takeArguments lib args = Taken Overlay out inp e \<and> fs_read fs w inp = Inr b
             \<and> overlay_yaml l2sm cd b = Some yaml
             \<and> text = (if out = [] then Some (println_bytes yaml) else None)
             \<and> (out \<noteq> [] \<longrightarrow> w' = fst (fs_write fs out yaml w))))
      \<and> (w' \<noteq> w \<longrightarrow> r = Generated None)
      \<and> (generate_code r = 0 \<longleftrightarrow> r = GenerateFlags 0 \<or> (\<exists>text. r = Generated text))"
    if run: "generate_main l2sm cd fs lib args w = (w', r)" for w' r
  proof (cases "takeArguments lib args")
    case (FlagsExit n)
    with run show ?thesis by (auto simp: generate_main_def)
  next
    case taken: (Taken res out inp e)
    show ?thesis
    proof (cases "fs_read fs w inp")
      case (Inl err)
      with run taken show ?thesis by (auto simp: generate_main_def)
    next
      case (Inr b)
      show ?thesis
      proof (cases "res = Overlay \<and> overlay_yaml l2sm cd b \<noteq> None")
        case True
        then obtain yaml where "res = Overlay" "overlay_yaml l2sm cd b = Some yaml" by blast
        with generate_end(1) [OF taken Inr this] run taken Inr show ?thesis by (auto split: if_splits)
      next
        case False
        then obtain x where "generate_main l2sm cd fs lib args w = (w, x)" "x \<noteq> GeneratePanic" "generate_code x = 1"
          using generate_end(2) [OF taken Inr, of l2sm cd] by blast
        with run taken Inr False show ?thesis by auto
      qed
    qed
  qed
  have printed: "println_bytes yaml \<noteq> yaml @ [CHR 0x0A]" for yaml
    using println_bytes_longer [of yaml] by (metis length_append_singleton Suc_eq_plus1 less_irrefl)
  have none: "takeArguments lib [] = Taken Overlay [] [] True"
    by (simp add: takeArguments_def string_flag_def)
  show ?thesis
    by (intro conjI allI impI ends printed none takeArguments_args [unfolded append_Nil2])
qed

text \<open>A file system that holds one file, read from the world and overwritten in it.\<close>

definition one_file :: "(string \<times> string) file_system" where
  "one_file = \<lparr>fs_read = \<lambda>w f. if f = fst w then Inr (snd w) else Inl ''no such file'',
     fs_write = \<lambda>f t w. ((f, t), None)\<rparr>"

lemma example_taken:
  "takeArguments Map.empty [''-resource=Overlay'', ''--output'', ''out'', ''-input=in''] = Taken Overlay ''out'' ''in'' False"
  by (simp add: takeArguments_def generate_flags_def flag_name_def string_flag_def)

lemma example_yaml: "overlay_yaml l2sm example_codec ''x'' = Some ''kind: Overlay''"
  by (simp add: overlay_yaml_def example_codec_def constructOverlayFromTopology_def)

theorem generate_cr_outcome_witness:
  "\<forall>l2sm. snd (generate_main l2sm example_codec one_file Map.empty
      [''-resource=Overlay'', ''--output'', ''out'', ''-input=in''] (''in'', ''x'')) = Generated None"
proof
  fix l2sm
  let ?args = "[''-resource=Overlay'', ''--output'', ''out'', ''-input=in'']"
  obtain w' r where run: "generate_main l2sm example_codec one_file Map.empty ?args (''in'', ''x'') = (w', r)"
    by fastforce
  have "\<exists>out inp e b yaml. takeArguments Map.empty ?args = Taken Overlay out inp e
      \<and> fs_read one_file (''in'', ''x'') inp = Inr b \<and> overlay_yaml l2sm example_codec b = Some yaml
      \<and> None = (if out = [] then Some (println_bytes yaml) else None)
      \<and> (out \<noteq> [] \<longrightarrow> w' = fst (fs_write one_file out yaml (''in'', ''x'')))"
    using run unfolding example_taken
    by (auto simp: generate_main_def example_taken one_file_def NewCRGenerator_def AddValues_def CreateResource_def
        example_codec_def constructOverlayFromTopology_def overlay_yaml_def)
  with generate_cr_outcome [of l2sm example_codec one_file Map.empty ?args "(''in'', ''x'')"] run
  show "snd (generate_main l2sm example_codec one_file Map.empty ?args (''in'', ''x'')) = Generated None"
    by (metis snd_conv)
qed

section \<open>cmd/apply-cert\<close>

definition apply_cert_flags :: flag_set where
  "apply_cert_flags = [''kubeconfig'' \<mapsto> StringFlag, ''namespace'' \<mapsto> StringFlag, ''clustername'' \<mapsto> StringFlag]"

text \<open>\<open>homedir.HomeDir()\<close> is \<open>home\<close>.\<close>

definition default_kubeconfig :: "string \<Rightarrow> string" where
  "default_kubeconfig home = (if home \<noteq> [] then filepath_Join [home, ''.kube'', ''config''] else [])"

datatype cert_end =
    CertUsage
  | CertFlags nat
  | CertPathMissing
  | CertReadFailed string
  | CertConfigPanic string
  | CertApplyPanic cert_error
  | CertApplied

definition apply_cert_main :: "('c, 'w) secret_api \<Rightarrow> string \<Rightarrow> ('w \<Rightarrow> string \<Rightarrow> string + byte list) \<Rightarrow> (string \<Rightarrow> string + 'c)
    \<Rightarrow> flag_set \<Rightarrow> string list \<Rightarrow> 'w \<Rightarrow> 'w \<times> cert_end" where
  "apply_cert_main api home readFile build lib args w =
     (if args = [] then (w, CertUsage)
      else
        case parse_flags (lib ++ apply_cert_flags) args Map.empty of
          FlagHelp \<Rightarrow> (w, CertFlags 0)
        | FlagError \<Rightarrow> (w, CertFlags 2)
        | ParsedFlags vals rest \<Rightarrow>
            (let certificateFilePath = (case rest of [] \<Rightarrow> [] | a # as \<Rightarrow> a) in
             if certificateFilePath = [] then (w, CertPathMissing)
             else
               case readFile w certificateFilePath of
                 Inl err \<Rightarrow> (w, CertReadFailed err)
               | Inr certificate \<Rightarrow>
                   (case build (string_flag vals ''kubeconfig'' (default_kubeconfig home)) of
                      Inl err \<Rightarrow> (w, CertConfigPanic err)
                    | Inr config \<Rightarrow>
                        (case ApplyCertificateSecrets api config (string_flag vals ''namespace'' ''default'')
                                (string_flag vals ''clustername'' ''test'') certificate w of
                           (w', Some err) \<Rightarrow> (w', CertApplyPanic err)
                         | (w', None) \<Rightarrow> (w', CertApplied)))))"

fun cert_code :: "cert_end \<Rightarrow> nat" where
  "cert_code (CertFlags n) = n"
| "cert_code (CertConfigPanic e) = 2"
| "cert_code (CertApplyPanic e) = 2"
| "cert_code CertApplied = 0"
| "cert_code _ = 1"

text \<open>What the command would store, when flags, file and kubeconfig allow it to get that far: the cluster's
  configuration, the key of the secret, the cluster and the certificate.\<close>

definition cert_target :: "string \<Rightarrow> ('w \<Rightarrow> string \<Rightarrow> string + byte list) \<Rightarrow> (string \<Rightarrow> string + 'c) \<Rightarrow> flag_set \<Rightarrow> string list \<Rightarrow> 'w
    \<Rightarrow> ('c \<times> string \<times> string \<times> byte list) option" where
  "cert_target home readFile build lib args w =
     (case parse_flags (lib ++ apply_cert_flags) args Map.empty of
        ParsedFlags vals (file # rest) \<Rightarrow>
          (case (readFile w file, build (string_flag vals ''kubeconfig'' (default_kubeconfig home))) of
             (Inr cert, Inr config) \<Rightarrow>
               if file = [] then None
               else Some (config, string_flag vals ''namespace'' ''default'', string_flag vals ''clustername'' ''test'', cert)
           | _ \<Rightarrow> None)
      | _ \<Rightarrow> None)"

lemma apply_cert_run:
  "(case cert_target home readFile build lib args w of
      None \<Rightarrow> fst (apply_cert_main api home readFile build lib args w) = w
        \<and> snd (apply_cert_main api home readFile build lib args w) \<noteq> CertApplied
    | Some (config, ns, cluster, cert) \<Rightarrow> apply_cert_main api home readFile build lib args w =
        (case ApplyCertificateSecrets api config ns cluster cert w of
           (w', Some err) \<Rightarrow> (w', CertApplyPanic err)
         | (w', None) \<Rightarrow> (w', CertApplied)))"
  by (cases args)
     (auto simp: cert_target_def apply_cert_main_def Let_def split: parsed_flags.splits list.splits sum.splits prod.splits option.splits)

text \<open>\<open>apply-cert\<close>. When it ends with \<open>Secret applied successfully\<close>, the cluster of the kubeconfig holds,
  in the namespace given (\<open>default\<close>) and under the cluster's name (\<open>test\<close>) with \<open>-cert\<close>, a secret labelled
  with the cluster and with the bytes of the file; every other secret is as it was. A run that ends
  earlier changes nothing, and one that the cluster refuses at most that secret.\<close>

theorem apply_cert_stores:
  assumes laws: "\<And>c. secret_laws api c (view c)"
    and run: "apply_cert_main api home readFile build lib args w = (w', r)"
  shows "(cert_target home readFile build lib args w = None \<longrightarrow> w' = w \<and> r \<noteq> CertApplied)
    \<and> (\<forall>config ns cluster cert. cert_target home readFile build lib args w = Some (config, ns, cluster, cert) \<longrightarrow>
         (view config w')((ns, cluster @ ''-cert'') := None) = (view config w)((ns, cluster @ ''-cert'') := None)
       \<and> (r = CertApplied \<or> (\<exists>err. r = CertApplyPanic err))
       \<and> (r = CertApplied \<longrightarrow>
            view config w' (ns, cluster @ ''-cert'') = Some ([''l2sm-cert'' \<mapsto> cluster], [''cert-value'' \<mapsto> cert])))"
proof (cases "cert_target home readFile build lib args w")
  case None
  with apply_cert_run [where api = api and home = home and readFile = readFile and build = build and lib = lib and args = args and w = w] run show ?thesis by simp
next
  case (Some t)
  obtain config ns cluster cert where t: "t = (config, ns, cluster, cert)" by (cases t)
  obtain w1 e where app: "ApplyCertificateSecrets api config ns cluster cert w = (w1, e)" by fastforce
  have "w' = w1" "r = (case e of None \<Rightarrow> CertApplied | Some err \<Rightarrow> CertApplyPanic err)"
    using apply_cert_run [where api = api and home = home and readFile = readFile and build = build and lib = lib and args = args and w = w] run Some t app by (auto split: option.splits)
  with apply_certificate_effect [OF laws app] Some t show ?thesis by (cases e) simp_all
qed

lemma documented_target:
  "cert_target ''/root'' (\<lambda>w f. if f = ''sample-cluster.key'' then Inr [1, 2] else Inl ''no such file'') (\<lambda>f. Inr ()) Map.empty
     [''--namespace'', ''l2sm-system'', ''--kubeconfig'', ''control-plane-kc'', ''--clustername'', ''sample-cluster'',
      ''sample-cluster.key''] w = Some ((), ''l2sm-system'', ''sample-cluster'', [1, 2])"
  by (simp add: cert_target_def apply_cert_flags_def flag_name_def string_flag_def)

theorem apply_cert_stores_witness:
  "\<exists>w'. apply_cert_main mem_secrets ''/root'' (\<lambda>w f. if f = ''sample-cluster.key'' then Inr [1, 2] else Inl ''no such file'')
       (\<lambda>f. Inr ()) Map.empty
       [''--namespace'', ''l2sm-system'', ''--kubeconfig'', ''control-plane-kc'', ''--clustername'', ''sample-cluster'',
        ''sample-cluster.key''] [] = (w', CertApplied)
     \<and> map_of w' (''l2sm-system'', ''sample-cluster'' @ ''-cert'')
          = Some ([''l2sm-cert'' \<mapsto> ''sample-cluster''], [''cert-value'' \<mapsto> [1, 2]])"
proof -
  let ?read = "\<lambda>(w :: secret_store) f. if f = ''sample-cluster.key'' then Inr [1, 2] else Inl ''no such file''"
  let ?args = "[''--namespace'', ''l2sm-system'', ''--kubeconfig'', ''control-plane-kc'', ''--clustername'', ''sample-cluster'',
    ''sample-cluster.key'']"
  obtain w' r where run: "apply_cert_main mem_secrets ''/root'' ?read (\<lambda>f. Inr ()) Map.empty ?args [] = (w', r)"
    by fastforce
  have applied: "r = CertApplied"
    using run apply_cert_run [of mem_secrets "''/root''" ?read "\<lambda>f. Inr ()" Map.empty ?args "[]"]
    unfolding documented_target
    by (simp add: ApplyCertificateSecrets_def mem_secrets_def Let_def certificate_secret_def mem_secret_write_def)
  have laws: "secret_laws mem_secrets c (\<lambda>w. map_of w)" for c using mem_secret_laws by (cases c) simp
  from conjunct2 [OF apply_cert_stores [OF laws run], rule_format, OF documented_target] applied run
  show ?thesis by (intro exI [of _ w']) blast
qed

end
