(* ===== verification/Scheme.thy ===== *)
theory Scheme
  imports ApiTypes
begin

text \<open>
  How the kinds of \<open>api/v1\<close> get into the schemes of the two services: the package variables of
  \<open>groupversion_info.go\<close>, the \<open>init\<close> functions of the three files of types, and \<open>init\<close> of \<open>cmd/main.go\<close>. The
  scheme builder of controller-runtime and the scheme of apimachinery are parameters; of an object
  that is registered they read the name of its type.
\<close>

section \<open>The calls\<close>

record ('b, 's) scheme_lib =
  sch_Builder :: "group_version \<Rightarrow> 'b"
  sch_Register :: "'b \<Rightarrow> string list \<Rightarrow> 'b"
  sch_AddToScheme :: "'b \<Rightarrow> 's \<Rightarrow> string + 's"
  sch_NewScheme :: 's
  sch_clientgo :: "'s \<Rightarrow> string + 's"

definition SchemeBuilder :: "('b, 's) scheme_lib \<Rightarrow> 'b" where
  "SchemeBuilder sl = sch_Builder sl GroupVersion"

text \<open>A method value of the builder that \<open>SchemeBuilder\<close> points to: it sees what the \<open>init\<close> functions
  registered after it was taken.\<close>

definition AddToScheme :: "('b, 's) scheme_lib \<Rightarrow> 'b \<Rightarrow> 's \<Rightarrow> string + 's" where
  "AddToScheme sl builder = sch_AddToScheme sl builder"

definition providerprofile_init :: "('b, 's) scheme_lib \<Rightarrow> 'b \<Rightarrow> 'b" where
  "providerprofile_init sl builder = sch_Register sl builder [''ProviderProfile'', ''ProviderProfileList'']"

definition slicenetwork_init :: "('b, 's) scheme_lib \<Rightarrow> 'b \<Rightarrow> 'b" where
  "slicenetwork_init sl builder = sch_Register sl builder [''SliceNetwork'', ''SliceNetworkList'']"

definition sliceoverlay_init :: "('b, 's) scheme_lib \<Rightarrow> 'b \<Rightarrow> 'b" where
  "sliceoverlay_init sl builder = sch_Register sl builder [''SliceOverlay'', ''SliceOverlayList'']"

text \<open>Go initialises the package variables, then runs the \<open>init\<close> functions in the order of the files.\<close>

definition api_inits :: "('b, 's) scheme_lib \<Rightarrow> ('b \<Rightarrow> 'b) list" where
  "api_inits sl = [providerprofile_init sl, slicenetwork_init sl, sliceoverlay_init sl]"

definition api_init :: "('b, 's) scheme_lib \<Rightarrow> 'b" where
  "api_init sl = fold (\<lambda>f. f) (api_inits sl) (SchemeBuilder sl)"

text \<open>\<open>init\<close> of the manager; a failed \<open>utilruntime.Must\<close> panics, \<open>None\<close>.\<close>

definition manager_init :: "('b, 's) scheme_lib \<Rightarrow> 's option" where
  "manager_init sl =
     (case sch_clientgo sl (sch_NewScheme sl) of
        Inl err \<Rightarrow> None
      | Inr scheme \<Rightarrow>
          (case AddToScheme sl (api_init sl) scheme of
             Inl err \<Rightarrow> None
           | Inr scheme' \<Rightarrow> Some scheme'))"

section \<open>What is relied on\<close>

text \<open>Of a builder: its group version and the kinds registered with it; of a scheme: the kinds it knows.
  Adding a builder to a scheme adds the registered kinds under the builder's version, and some kinds
  \<open>meta\<close> of apimachinery's own (\<open>metav1.AddToGroupVersion\<close>), and takes none away.\<close>

definition scheme_laws :: "('b, 's) scheme_lib \<Rightarrow> ('b \<Rightarrow> group_version) \<Rightarrow> ('b \<Rightarrow> string set)
    \<Rightarrow> ('s \<Rightarrow> (group_version \<times> string) set) \<Rightarrow> string set \<Rightarrow> bool" where
  "scheme_laws sl version registered known meta \<longleftrightarrow>
     (\<forall>gv. version (sch_Builder sl gv) = gv \<and> registered (sch_Builder sl gv) = {})
   \<and> (\<forall>b kinds. version (sch_Register sl b kinds) = version b
        \<and> registered (sch_Register sl b kinds) = registered b \<union> set kinds)
   \<and> (\<forall>b s s'. sch_AddToScheme sl b s = Inr s' \<longrightarrow>
        known s \<union> {version b} \<times> registered b \<subseteq> known s'
        \<and> known s' \<subseteq> known s \<union> {version b} \<times> (registered b \<union> meta))"

lemma builder_version:
  assumes "scheme_laws sl version registered known meta"
  shows "version (sch_Builder sl gv) = gv" "version (sch_Register sl b kinds) = version b"
  using assms unfolding scheme_laws_def by simp_all

lemma builder_registered:
  assumes "scheme_laws sl version registered known meta"
  shows "registered (sch_Builder sl gv) = {}" "registered (sch_Register sl b kinds) = registered b \<union> set kinds"
  using assms unfolding scheme_laws_def by simp_all

lemma builder_adds:
  assumes "scheme_laws sl version registered known meta" and "sch_AddToScheme sl b s = Inr s'"
  shows "known s \<union> {version b} \<times> registered b \<subseteq> known s'"
    and "known s' \<subseteq> known s \<union> {version b} \<times> (registered b \<union> meta)"
  using assms unfolding scheme_laws_def by simp_all

text \<open>The kinds of the API group.\<close>

definition api_kinds :: "string set" where
  "api_kinds = {''ProviderProfile'', ''ProviderProfileList'', ''SliceNetwork'', ''SliceNetworkList'',
     ''SliceOverlay'', ''SliceOverlayList''}"

lemma registrations:
  assumes "scheme_laws sl version registered known meta" and "set fs \<subseteq> set (api_inits sl)"
  shows "version (fold (\<lambda>f. f) fs b) = version b
    \<and> registered (fold (\<lambda>f. f) fs b) = registered b \<union> (\<Union>f \<in> set fs. registered (f (SchemeBuilder sl)))"
  using assms(2)
proof (induction fs arbitrary: b)
  case (Cons f fs)
  from Cons.prems have f: "f \<in> set (api_inits sl)" and fs: "set fs \<subseteq> set (api_inits sl)" by simp_all
  from f have "version (f b) = version b" "registered (f b) = registered b \<union> registered (f (SchemeBuilder sl))"
    by (auto simp: api_inits_def providerprofile_init_def slicenetwork_init_def sliceoverlay_init_def SchemeBuilder_def
        builder_version [OF assms(1)] builder_registered [OF assms(1)])
  with Cons.IH [OF fs, of "f b"] show ?case by (simp add: Un_assoc)
qed simp

text \<open>In whatever order the files are initialised, the builder ends with the kinds of the group.\<close>

lemma inits_register:
  assumes "scheme_laws sl version registered known meta" and "set fs = set (api_inits sl)"
  shows "version (fold (\<lambda>f. f) fs (SchemeBuilder sl)) = GroupVersion"
    and "registered (fold (\<lambda>f. f) fs (SchemeBuilder sl)) = api_kinds"
  using registrations [OF assms(1), of fs "SchemeBuilder sl"] assms(2)
  by (simp_all add: SchemeBuilder_def builder_version [OF assms(1)] builder_registered [OF assms(1)] api_inits_def api_kinds_def
      providerprofile_init_def slicenetwork_init_def sliceoverlay_init_def insert_commute)

lemma api_scheme:
  assumes "scheme_laws sl version registered known meta" and "AddToScheme sl (api_init sl) s = Inr s'"
  shows "known s \<union> {GroupVersion} \<times> api_kinds \<subseteq> known s'"
    and "known s' \<subseteq> known s \<union> {GroupVersion} \<times> (api_kinds \<union> meta)"
  using builder_adds [OF assms(1) assms(2) [unfolded AddToScheme_def]] inits_register [OF assms(1) refl]
  by (simp_all add: api_init_def)

section \<open>A scheme as the set of its kinds\<close>

definition set_schemes :: "(group_version \<times> string set, (group_version \<times> string) set) scheme_lib" where
  "set_schemes =
     \<lparr>sch_Builder = \<lambda>gv. (gv, {}), sch_Register = \<lambda>b kinds. (fst b, snd b \<union> set kinds),
      sch_AddToScheme = \<lambda>b s. Inr (s \<union> {fst b} \<times> (snd b \<union> {''WatchEvent''})), sch_NewScheme = {},
      sch_clientgo = \<lambda>s. Inr (insert (\<lparr>gv_group = [], gv_version = ''v1''\<rparr>, ''Secret'') s)\<rparr>"

lemma set_schemes_laws: "scheme_laws set_schemes fst snd (\<lambda>s. s) {''WatchEvent''}"
  by (auto simp: scheme_laws_def set_schemes_def)

lemma set_schemes_init:
  "manager_init set_schemes =
     Some (insert (\<lparr>gv_group = [], gv_version = ''v1''\<rparr>, ''Secret'') ({GroupVersion} \<times> (api_kinds \<union> {''WatchEvent''})))"
  by (simp add: manager_init_def AddToScheme_def api_init_def api_inits_def set_schemes_def SchemeBuilder_def
      providerprofile_init_def slicenetwork_init_def sliceoverlay_init_def api_kinds_def insert_commute)

end
