(* ===== verification/Startup.thy ===== *)
theory Startup
  imports GoFlag Scheme Reconciler Server
begin

text \<open>
  How the two services start: \<open>cmd/main.go\<close> (the controller manager), \<open>SetupWithManager\<close> of both reconcilers
  with \<open>newMDClient\<close>, and \<open>cmd/server/main.go\<close>. controller-runtime, gRPC and client-go are parameters: a
  manager \<open>'m\<close> with the calls made on it, each an action that may report an error.
\<close>

section \<open>Setting up the reconcilers\<close>

text \<open>What \<open>ctrl.NewControllerManagedBy(mgr).For(..).Watches(..).Named(..).Complete(r)\<close> is given.\<close>

record 'w controller =
  cn_for :: string
  cn_watches :: string
  cn_requests :: "provider_profile option \<Rightarrow> 'w \<Rightarrow> 'w \<times> request list"
  cn_name :: string
  cn_reconcile :: "request \<Rightarrow> ('w, rec_error) action"

text \<open>The calls made on controller-runtime and its manager; \<open>ml_config\<close> is \<open>GetConfigOrDie\<close>.\<close>

record tls_config =
  tls_NextProtos :: "string list"
  tls_rest :: json

record webhook_options =
  wo_TLSOpts :: "(tls_config \<Rightarrow> tls_config) list"
  wo_CertDir :: string
  wo_CertName :: string
  wo_KeyName :: string

record metrics_options =
  mo_BindAddress :: string
  mo_SecureServing :: bool
  mo_TLSOpts :: "(tls_config \<Rightarrow> tls_config) list"
  mo_withAuth :: bool
  mo_CertDir :: string
  mo_CertName :: string
  mo_KeyName :: string

record 's manager_options =
  go_Scheme :: 's
  go_Metrics :: metrics_options
  go_WebhookServer :: webhook_options
  go_HealthProbeBindAddress :: string
  go_LeaderElection :: bool
  go_LeaderElectionID :: string

record ('c, 'm, 's, 'w) manager_lib =
  ml_config :: "'w \<Rightarrow> 'w \<times> 'c option"
  ml_new :: "'c \<Rightarrow> 's manager_options \<Rightarrow> 'w \<Rightarrow> 'w \<times> (string + 'm)"
  ml_GetConfig :: "'m \<Rightarrow> 'c option"
  ml_GetClient :: "'m \<Rightarrow> 'w hub"
  ml_Complete :: "'m \<Rightarrow> 'w controller \<Rightarrow> ('w, string) action"
  ml_AddHealthzCheck :: "'m \<Rightarrow> string \<Rightarrow> ('w, string) action"
  ml_AddReadyzCheck :: "'m \<Rightarrow> string \<Rightarrow> ('w, string) action"
  ml_Start :: "'m \<Rightarrow> ('w, string) action"

text \<open>The structs \<open>SliceNetworkReconciler\<close> and \<open>SliceOverlayReconciler\<close>; the scheme is only handed on.\<close>

record ('c, 'w) reconciler =
  r_Client :: "'w hub"
  r_MDClient :: "('c, 'w) client option"

definition network_controller :: "('c, 'w) reconciler \<Rightarrow> 'w controller" where
  "network_controller r =
     \<lparr>cn_for = ''SliceNetwork'', cn_watches = ''ProviderProfile'',
      cn_requests = requestsForProviderProfile_network (r_Client r), cn_name = ''slicenetwork'',
      cn_reconcile = network_Reconcile (r_Client r) (map_option client_ops (r_MDClient r))\<rparr>"

definition overlay_controller :: "('c, 'w) reconciler \<Rightarrow> 'w controller" where
  "overlay_controller r =
     \<lparr>cn_for = ''SliceOverlay'', cn_watches = ''ProviderProfile'',
      cn_requests = requestsForProviderProfile_overlay (r_Client r), cn_name = ''sliceoverlay'',
      cn_reconcile = overlay_Reconcile (r_Client r) (map_option client_ops (r_MDClient r))\<rparr>"

definition newMDClient :: "('c, 'w) client_lib \<Rightarrow> environment \<Rightarrow> 'c option \<Rightarrow> (new_client_error + ('c, 'w) client) option" where
  "newMDClient cl env config =
     NewClient cl (GetMultiDomainClientType env) [case config of None \<Rightarrow> NilConfigArg | Some c \<Rightarrow> ConfigArg c]"

datatype setup_error =
    SetupPanic
  | MDClientFailed new_client_error
  | CompleteFailed string

text \<open>The part the two \<open>SetupWithManager\<close> share, word for word: fill in the client, then complete.\<close>

definition setup_reconciler :: "(('c, 'w) reconciler \<Rightarrow> 'w controller) \<Rightarrow> ('c, 'm, 's, 'w) manager_lib \<Rightarrow> ('c, 'w) client_lib
    \<Rightarrow> environment \<Rightarrow> ('c, 'w) reconciler \<Rightarrow> 'm \<Rightarrow> ('w, setup_error) action" where
  "setup_reconciler controller lib cl env r mgr w =
     (case (if r_MDClient r = None
            then (case newMDClient cl env (ml_GetConfig lib mgr) of
                    None \<Rightarrow> Inl SetupPanic
                  | Some (Inl err) \<Rightarrow> Inl (MDClientFailed err)
                  | Some (Inr mdcli) \<Rightarrow> Inr (r\<lparr>r_MDClient := Some mdcli\<rparr>))
            else Inr r) of
        Inl err \<Rightarrow> (w, Some err)
      | Inr r' \<Rightarrow> (case ml_Complete lib mgr (controller r') w of (w', e) \<Rightarrow> (w', map_option CompleteFailed e)))"

definition network_SetupWithManager :: "('c, 'm, 's, 'w) manager_lib \<Rightarrow> ('c, 'w) client_lib \<Rightarrow> environment \<Rightarrow> ('c, 'w) reconciler
    \<Rightarrow> 'm \<Rightarrow> ('w, setup_error) action" where
  "network_SetupWithManager = setup_reconciler network_controller"

definition overlay_SetupWithManager :: "('c, 'm, 's, 'w) manager_lib \<Rightarrow> ('c, 'w) client_lib \<Rightarrow> environment \<Rightarrow> ('c, 'w) reconciler
    \<Rightarrow> 'm \<Rightarrow> ('w, setup_error) action" where
  "overlay_SetupWithManager = setup_reconciler overlay_controller"

section \<open>The flags and options of the manager\<close>

record manager_flags =
  mf_metricsAddr :: string
  mf_probeAddr :: string
  mf_enableLeaderElection :: bool
  mf_secureMetrics :: bool
  mf_webhookCertPath :: string
  mf_webhookCertName :: string
  mf_webhookCertKey :: string
  mf_metricsCertPath :: string
  mf_metricsCertName :: string
  mf_metricsCertKey :: string
  mf_enableHTTP2 :: bool

definition main_flags :: flag_set where
  "main_flags =
     [''metrics-bind-address'' \<mapsto> StringFlag, ''health-probe-bind-address'' \<mapsto> StringFlag, ''leader-elect'' \<mapsto> BoolFlag,
      ''metrics-secure'' \<mapsto> BoolFlag, ''webhook-cert-path'' \<mapsto> StringFlag, ''webhook-cert-name'' \<mapsto> StringFlag,
      ''webhook-cert-key'' \<mapsto> StringFlag, ''metrics-cert-path'' \<mapsto> StringFlag, ''metrics-cert-name'' \<mapsto> StringFlag,
      ''metrics-cert-key'' \<mapsto> StringFlag, ''enable-http2'' \<mapsto> BoolFlag]"

definition read_flags :: "(string \<rightharpoonup> string) \<Rightarrow> manager_flags" where
  "read_flags vals =
     \<lparr>mf_metricsAddr = string_flag vals ''metrics-bind-address'' ''0'',
      mf_probeAddr = string_flag vals ''health-probe-bind-address'' '':8081'',
      mf_enableLeaderElection = bool_flag vals ''leader-elect'' False,
      mf_secureMetrics = bool_flag vals ''metrics-secure'' True,
      mf_webhookCertPath = string_flag vals ''webhook-cert-path'' [],
      mf_webhookCertName = string_flag vals ''webhook-cert-name'' ''tls.crt'',
      mf_webhookCertKey = string_flag vals ''webhook-cert-key'' ''tls.key'',
      mf_metricsCertPath = string_flag vals ''metrics-cert-path'' [],
      mf_metricsCertName = string_flag vals ''metrics-cert-name'' ''tls.crt'',
      mf_metricsCertKey = string_flag vals ''metrics-cert-key'' ''tls.key'',
      mf_enableHTTP2 = bool_flag vals ''enable-http2'' False\<rparr>"

definition disableHTTP2 :: "tls_config \<Rightarrow> tls_config" where
  "disableHTTP2 c = c\<lparr>tls_NextProtos := [''http/1.1'']\<rparr>"

definition tlsOpts :: "manager_flags \<Rightarrow> (tls_config \<Rightarrow> tls_config) list" where
  "tlsOpts mf = (if \<not> mf_enableHTTP2 mf then [disableHTTP2] else [])"

definition webhookServerOptions :: "manager_flags \<Rightarrow> webhook_options" where
  "webhookServerOptions mf =
     (let options = \<lparr>wo_TLSOpts = tlsOpts mf, wo_CertDir = [], wo_CertName = [], wo_KeyName = []\<rparr>
      in if length (mf_webhookCertPath mf) > 0
         then options\<lparr>wo_CertDir := mf_webhookCertPath mf, wo_CertName := mf_webhookCertName mf,
                wo_KeyName := mf_webhookCertKey mf\<rparr>
         else options)"

definition metricsServerOptions :: "manager_flags \<Rightarrow> metrics_options" where
  "metricsServerOptions mf =
     (let options = \<lparr>mo_BindAddress = mf_metricsAddr mf, mo_SecureServing = mf_secureMetrics mf, mo_TLSOpts = tlsOpts mf,
            mo_withAuth = False, mo_CertDir = [], mo_CertName = [], mo_KeyName = []\<rparr>;
          options' = (if mf_secureMetrics mf then options\<lparr>mo_withAuth := True\<rparr> else options)
      in if length (mf_metricsCertPath mf) > 0
         then options'\<lparr>mo_CertDir := mf_metricsCertPath mf, mo_CertName := mf_metricsCertName mf,
                mo_KeyName := mf_metricsCertKey mf\<rparr>
         else options')"

definition managerOptions :: "'s \<Rightarrow> manager_flags \<Rightarrow> 's manager_options" where
  "managerOptions scheme mf =
     \<lparr>go_Scheme = scheme, go_Metrics = metricsServerOptions mf, go_WebhookServer = webhookServerOptions mf,
      go_HealthProbeBindAddress = mf_probeAddr mf, go_LeaderElection = mf_enableLeaderElection mf,
      go_LeaderElectionID = ''87382e54.l2sm.io''\<rparr>"

section \<open>cmd/main.go\<close>

text \<open>How the process ends: at the flags, with exit code 1 for a step that failed, with a panic, or when
  the manager stopped, with or without an error.\<close>

datatype main_end =
    MainFlags nat
  | NoConfig
  | ManagerFailed string
  | ControllerFailed string setup_error
  | HealthzFailed string
  | ReadyzFailed string
  | Ran "string option"

definition manager_main :: "('c, 'm, 's, 'w) manager_lib \<Rightarrow> ('c, 'w) client_lib \<Rightarrow> environment \<Rightarrow> flag_set \<Rightarrow> 's
    \<Rightarrow> string list \<Rightarrow> 'w \<Rightarrow> 'w \<times> main_end" where
  "manager_main lib cl env libflags scheme args w =
     (case parse_flags (libflags ++ main_flags) args Map.empty of
        FlagHelp \<Rightarrow> (w, MainFlags 0)
      | FlagError \<Rightarrow> (w, MainFlags 2)
      | ParsedFlags vals rest \<Rightarrow>
          (case ml_config lib w of
             (w0, None) \<Rightarrow> (w0, NoConfig)
           | (w0, Some config) \<Rightarrow>
               (case ml_new lib config (managerOptions scheme (read_flags vals)) w0 of
                  (w1, Inl err) \<Rightarrow> (w1, ManagerFailed err)
                | (w1, Inr mgr) \<Rightarrow>
                    (case overlay_SetupWithManager lib cl env \<lparr>r_Client = ml_GetClient lib mgr, r_MDClient = None\<rparr> mgr w1 of
                       (w2, Some err) \<Rightarrow> (w2, ControllerFailed ''SliceOverlay'' err)
                     | (w2, None) \<Rightarrow>
                         (case network_SetupWithManager lib cl env \<lparr>r_Client = ml_GetClient lib mgr, r_MDClient = None\<rparr> mgr w2 of
                            (w3, Some err) \<Rightarrow> (w3, ControllerFailed ''SliceNetwork'' err)
                          | (w3, None) \<Rightarrow>
                              (case ml_AddHealthzCheck lib mgr ''healthz'' w3 of
                                 (w4, Some err) \<Rightarrow> (w4, HealthzFailed err)
                               | (w4, None) \<Rightarrow>
                                   (case ml_AddReadyzCheck lib mgr ''readyz'' w4 of
                                      (w5, Some err) \<Rightarrow> (w5, ReadyzFailed err)
                                    | (w5, None) \<Rightarrow>
                                        (case ml_Start lib mgr w5 of (w6, e) \<Rightarrow> (w6, Ran e)))))))))"

fun main_code :: "main_end \<Rightarrow> nat" where
  "main_code (MainFlags n) = n"
| "main_code (Ran None) = 0"
| "main_code (ControllerFailed name SetupPanic) = 2"
| "main_code _ = 1"

section \<open>cmd/server/main.go\<close>

text \<open>The registered gRPC service: the four handlers on one Kubernetes client.\<close>

record 'w service =
  sv_CreateNetwork :: "pb_CreateNetworkRequest option \<Rightarrow> 'w \<Rightarrow> 'w \<times> (server_error + create_network_response)"
  sv_DeleteNetwork :: "pb_DeleteNetworkRequest option \<Rightarrow> 'w \<Rightarrow> 'w \<times> (server_error + string)"
  sv_CreateSlice :: "pb_CreateSliceRequest option \<Rightarrow> 'w \<Rightarrow> 'w \<times> (server_error + string)"
  sv_DeleteSlice :: "pb_DeleteSliceRequest option \<Rightarrow> 'w \<Rightarrow> 'w \<times> (server_error + string)"

definition server_of :: "(group_version \<Rightarrow> string) \<Rightarrow> 'w hub \<Rightarrow> 'w service" where
  "server_of gvString kclient =
     \<lparr>sv_CreateNetwork = server_CreateNetwork gvString kclient, sv_DeleteNetwork = server_DeleteNetwork gvString kclient,
      sv_CreateSlice = server_CreateSlice gvString kclient, sv_DeleteSlice = server_DeleteSlice gvString kclient\<rparr>"

record ('c, 'l, 's, 'w) server_lib =
  sl_Listen :: "string \<Rightarrow> string \<Rightarrow> 'w \<Rightarrow> 'w \<times> (string + 'l)"
  sl_InClusterConfig :: "'w \<Rightarrow> string + 'c"
  sl_New :: "'c \<Rightarrow> 's \<Rightarrow> 'w \<Rightarrow> 'w \<times> (string + 'w hub)"
  sl_Serve :: "'l \<Rightarrow> 'w service \<Rightarrow> ('w, string) action"

datatype server_end =
    ListenFailed string
  | InClusterConfigFailed string
  | SchemePanic string
  | APIClientFailed string
  | Served "string option"

definition server_main :: "(group_version \<Rightarrow> string) \<Rightarrow> ('b, 's) scheme_lib \<Rightarrow> ('c, 'l, 's, 'w) server_lib \<Rightarrow> 'w \<Rightarrow> 'w \<times> server_end" where
  "server_main gvString sl lib w =
     (case sl_Listen lib ''tcp'' '':50051'' w of
        (w1, Inl err) \<Rightarrow> (w1, ListenFailed err)
      | (w1, Inr lis) \<Rightarrow>
          (case sl_InClusterConfig lib w1 of
             Inl err \<Rightarrow> (w1, InClusterConfigFailed err)
           | Inr config \<Rightarrow>
               (case AddToScheme sl (api_init sl) (sch_NewScheme sl) of
                  Inl err \<Rightarrow> (w1, SchemePanic err)
                | Inr scheme \<Rightarrow>
                    (case sl_New lib config scheme w1 of
                       (w2, Inl err) \<Rightarrow> (w2, APIClientFailed err)
                     | (w2, Inr kclient) \<Rightarrow>
                         (case sl_Serve lib lis (server_of gvString kclient) w2 of (w3, e) \<Rightarrow> (w3, Served e))))))"

section \<open>The options\<close>

text \<open>The flags that give a setting.\<close>

definition manager_args :: "manager_flags \<Rightarrow> (string \<times> string) list" where
  "manager_args mf =
     [(''metrics-bind-address'', mf_metricsAddr mf), (''health-probe-bind-address'', mf_probeAddr mf),
      (''leader-elect'', show_bool (mf_enableLeaderElection mf)), (''metrics-secure'', show_bool (mf_secureMetrics mf)),
      (''webhook-cert-path'', mf_webhookCertPath mf), (''webhook-cert-name'', mf_webhookCertName mf),
      (''webhook-cert-key'', mf_webhookCertKey mf), (''metrics-cert-path'', mf_metricsCertPath mf),
      (''metrics-cert-name'', mf_metricsCertName mf), (''metrics-cert-key'', mf_metricsCertKey mf),
      (''enable-http2'', show_bool (mf_enableHTTP2 mf))]"

lemma manager_args_flags:
  "list_all (\<lambda>nv. plain_name (fst nv) \<and> (\<exists>k. main_flags (fst nv) = Some k \<and> accepts k (snd nv))) (manager_args mf)"
  by (simp add: manager_args_def main_flags_def plain_name_def)

lemma manager_args_known:
  assumes "(n, v) \<in> set (manager_args mf)"
  shows "plain_name n \<and> (\<exists>k. (lib ++ main_flags) n = Some k \<and> accepts k v)"
proof -
  have "plain_name n \<and> (\<exists>k. main_flags n = Some k \<and> accepts k v)"
    using bspec [OF manager_args_flags [unfolded list_all_iff] assms] by simp
  then obtain k where "plain_name n" "main_flags n = Some k" "accepts k v" by blast
  moreover from this have "(lib ++ main_flags) n = Some k" by (simp add: map_add_Some_iff)
  ultimately show ?thesis by (intro conjI exI)
qed

lemma read_manager_args: "read_flags (map_of (rev (manager_args mf))) = mf"
  by (simp add: read_flags_def manager_args_def string_flag_def bool_flag_def)

text \<open>The configuration a TLS server ends with: every option is applied to it in turn.\<close>

definition apply_tls :: "(tls_config \<Rightarrow> tls_config) list \<Rightarrow> tls_config \<Rightarrow> tls_config" where
  "apply_tls opts c = fold (\<lambda>f. f) opts c"

text \<open>C39: the command line of the manager. Every setting can be given by its flags, after any library's
  flags, and reads back as given; without flags metrics are off, secured, no certificate is watched and
  leader election is off. Unless \<open>enable-http2\<close> is set, the metrics and the webhook server offer nothing
  but \<open>http/1.1\<close>. The metrics endpoint is protected by authentication exactly when it is served securely, and
  certificate names are used exactly when a path is given.\<close>

theorem manager_command_line:
  "(\<forall>mf. parse_flags (lib ++ main_flags) (map flag_arg (manager_args mf)) Map.empty
          = ParsedFlags (map_of (rev (manager_args mf))) []
        \<and> read_flags (map_of (rev (manager_args mf))) = mf)
   \<and> (let o0 = managerOptions scheme (read_flags Map.empty)
      in mo_BindAddress (go_Metrics o0) = ''0'' \<and> mo_SecureServing (go_Metrics o0) \<and> mo_CertDir (go_Metrics o0) = []
       \<and> wo_CertDir (go_WebhookServer o0) = [] \<and> \<not> go_LeaderElection o0
       \<and> (\<forall>c. tls_NextProtos (apply_tls (mo_TLSOpts (go_Metrics o0)) c) = [''http/1.1'']))
   \<and> (\<forall>mf c. let o1 = managerOptions scheme mf
        in apply_tls (mo_TLSOpts (go_Metrics o1)) c
             = (if mf_enableHTTP2 mf then c else c\<lparr>tls_NextProtos := [''http/1.1'']\<rparr>)
         \<and> apply_tls (wo_TLSOpts (go_WebhookServer o1)) c = apply_tls (mo_TLSOpts (go_Metrics o1)) c
         \<and> mo_withAuth (go_Metrics o1) = mo_SecureServing (go_Metrics o1)
         \<and> mo_SecureServing (go_Metrics o1) = mf_secureMetrics mf
         \<and> (mo_CertDir (go_Metrics o1), mo_CertName (go_Metrics o1), mo_KeyName (go_Metrics o1))
             = (if mf_metricsCertPath mf = [] then ([], [], [])
                else (mf_metricsCertPath mf, mf_metricsCertName mf, mf_metricsCertKey mf))
         \<and> (wo_CertDir (go_WebhookServer o1), wo_CertName (go_WebhookServer o1), wo_KeyName (go_WebhookServer o1))
             = (if mf_webhookCertPath mf = [] then ([], [], [])
                else (mf_webhookCertPath mf, mf_webhookCertName mf, mf_webhookCertKey mf)))"
proof (intro conjI allI)
  fix mf
  show "parse_flags (lib ++ main_flags) (map flag_arg (manager_args mf)) Map.empty
      = ParsedFlags (map_of (rev (manager_args mf))) []"
    using parse_flag_args [OF manager_args_known, where rest = "[]"] by simp
  show "read_flags (map_of (rev (manager_args mf))) = mf" by (rule read_manager_args)
qed (simp_all add: Let_def managerOptions_def metricsServerOptions_def webhookServerOptions_def tlsOpts_def apply_tls_def
      disableHTTP2_def read_flags_def string_flag_def bool_flag_def)

section \<open>Starting\<close>

lemma setup_reconciler_ok:
  "setup_reconciler controller lib cl env \<lparr>r_Client = h, r_MDClient = None\<rparr> mgr w = (w', None) \<longleftrightarrow>
     (\<exists>mdc. newMDClient cl env (ml_GetConfig lib mgr) = Some (Inr mdc)
        \<and> ml_Complete lib mgr (controller \<lparr>r_Client = h, r_MDClient = Some mdc\<rparr>) w = (w', None))"
  by (auto simp: setup_reconciler_def split: option.splits sum.splits prod.splits)

text \<open>The calls on the manager before it starts, for the client \<open>mdc\<close>.\<close>

definition start_calls :: "('c, 'm, 's, 'w) manager_lib \<Rightarrow> ('c, 'w) client \<Rightarrow> 'm \<Rightarrow> ('w, string) action list" where
  "start_calls lib mdc mgr =
     (let r = \<lparr>r_Client = ml_GetClient lib mgr, r_MDClient = Some mdc\<rparr>
      in [ml_Complete lib mgr (overlay_controller r), ml_Complete lib mgr (network_controller r),
          ml_AddHealthzCheck lib mgr ''healthz'', ml_AddReadyzCheck lib mgr ''readyz''])"

text \<open>The state, manager and client with which the manager is started, when it is.\<close>

definition starts_with :: "('c, 'm, 's, 'w) manager_lib \<Rightarrow> ('c, 'w) client_lib \<Rightarrow> environment \<Rightarrow> flag_set \<Rightarrow> 's \<Rightarrow> string list \<Rightarrow> 'w
    \<Rightarrow> 'm \<Rightarrow> ('c, 'w) client \<Rightarrow> 'w \<Rightarrow> bool" where
  "starts_with lib cl env libflags scheme args w mgr mdc w5 \<longleftrightarrow>
     (\<exists>vals rest w0 config w1. parse_flags (libflags ++ main_flags) args Map.empty = ParsedFlags vals rest
        \<and> ml_config lib w = (w0, Some config)
        \<and> ml_new lib config (managerOptions scheme (read_flags vals)) w0 = (w1, Inr mgr)
        \<and> newMDClient cl env (ml_GetConfig lib mgr) = Some (Inr mdc)
        \<and> for_each (\<lambda>call. call) (start_calls lib mdc mgr) w1 = (w5, None))"

lemma manager_main_ran:
  "manager_main lib cl env libflags scheme args w = (w', Ran e) \<longleftrightarrow>
     (\<exists>mgr mdc w5. starts_with lib cl env libflags scheme args w mgr mdc w5 \<and> ml_Start lib mgr w5 = (w', e))"
  (is "?main \<longleftrightarrow> ?calls")
proof
  assume ?main
  then obtain vals rest w0 config w1 mgr w2 w3 w4 w5 where
    p: "parse_flags (libflags ++ main_flags) args Map.empty = ParsedFlags vals rest" "ml_config lib w = (w0, Some config)"
      "ml_new lib config (managerOptions scheme (read_flags vals)) w0 = (w1, Inr mgr)"
    and s: "overlay_SetupWithManager lib cl env \<lparr>r_Client = ml_GetClient lib mgr, r_MDClient = None\<rparr> mgr w1 = (w2, None)"
      "network_SetupWithManager lib cl env \<lparr>r_Client = ml_GetClient lib mgr, r_MDClient = None\<rparr> mgr w2 = (w3, None)"
    and c: "ml_AddHealthzCheck lib mgr ''healthz'' w3 = (w4, None)" "ml_AddReadyzCheck lib mgr ''readyz'' w4 = (w5, None)"
      "ml_Start lib mgr w5 = (w', e)"
    unfolding manager_main_def
    by (auto split: parsed_flags.splits prod.splits option.splits sum.splits)
  obtain mdc where m: "newMDClient cl env (ml_GetConfig lib mgr) = Some (Inr mdc)"
    "ml_Complete lib mgr (overlay_controller \<lparr>r_Client = ml_GetClient lib mgr, r_MDClient = Some mdc\<rparr>) w1 = (w2, None)"
    using s(1) unfolding overlay_SetupWithManager_def setup_reconciler_ok by blast
  then have "ml_Complete lib mgr (network_controller \<lparr>r_Client = ml_GetClient lib mgr, r_MDClient = Some mdc\<rparr>) w2 = (w3, None)"
    using s(2) unfolding network_SetupWithManager_def setup_reconciler_ok by auto
  with m c have "for_each (\<lambda>call. call) (start_calls lib mdc mgr) w1 = (w5, None)"
    by (simp add: start_calls_def Let_def)
  with p m(1) c(3) show ?calls unfolding starts_with_def by blast
next
  assume ?calls
  then obtain vals rest w0 config w1 mgr mdc w5 where
    p: "parse_flags (libflags ++ main_flags) args Map.empty = ParsedFlags vals rest" "ml_config lib w = (w0, Some config)"
      "ml_new lib config (managerOptions scheme (read_flags vals)) w0 = (w1, Inr mgr)"
    and m: "newMDClient cl env (ml_GetConfig lib mgr) = Some (Inr mdc)"
    and calls: "for_each (\<lambda>call. call) (start_calls lib mdc mgr) w1 = (w5, None)" and start: "ml_Start lib mgr w5 = (w', e)"
    unfolding starts_with_def by blast
  let ?r = "\<lparr>r_Client = ml_GetClient lib mgr, r_MDClient = None\<rparr>"
  obtain w2 w3 w4 where c: "ml_Complete lib mgr (overlay_controller \<lparr>r_Client = ml_GetClient lib mgr, r_MDClient = Some mdc\<rparr>) w1 = (w2, None)"
    "ml_Complete lib mgr (network_controller \<lparr>r_Client = ml_GetClient lib mgr, r_MDClient = Some mdc\<rparr>) w2 = (w3, None)"
    "ml_AddHealthzCheck lib mgr ''healthz'' w3 = (w4, None)" "ml_AddReadyzCheck lib mgr ''readyz'' w4 = (w5, None)"
    using calls unfolding start_calls_def Let_def for_each_ok_Cons by auto
  have "overlay_SetupWithManager lib cl env ?r mgr w1 = (w2, None)" "network_SetupWithManager lib cl env ?r mgr w2 = (w3, None)"
    using m c(1,2) unfolding overlay_SetupWithManager_def network_SetupWithManager_def setup_reconciler_ok by blast+
  with p c(3,4) start show ?main unfolding manager_main_def by simp
qed

lemma client_ops_ocm: "client_ops (OCMClient k :: ('c, 'w) client) = ocm_client k"
  by (simp add: ocm_client_def)

lemma newMDClient_type:
  assumes "newMDClient cl env c = Some (Inr mdc)"
  shows "GetMultiDomainClientType env \<in> {RestType, OCMType}"
    and "GetMultiDomainClientType env = OCMType \<Longrightarrow> \<exists>x k. c = Some x \<and> cl_new cl x = Inr k \<and> mdc = OCMClient k"
  using assms unfolding newMDClient_def NewClient_def
  by (auto simp: RestType_def OCMType_def split: if_splits option.splits sum.splits)

text \<open>C38: the start of the manager. It is started exactly when the flags parse, the configuration and the
  manager can be had, the client of the configured type can be made, and these calls succeed in this
  order: the overlay controller and then the network controller are registered, both with that client,
  and both checks are added. Then the type is \<open>rest\<close> or \<open>ocm\<close>, the default; for \<open>ocm\<close> both controllers run
  \<open>Reconcile\<close> on the manager's client of the hub with the OCM client made for the manager's configuration.
  The exit code is 0 only after the help or when a started manager stopped without an error.\<close>

theorem manager_main_starts:
  "(\<forall>w' e. manager_main lib cl env libflags scheme args w = (w', Ran e) \<longleftrightarrow>
       (\<exists>mgr mdc w5. starts_with lib cl env libflags scheme args w mgr mdc w5 \<and> ml_Start lib mgr w5 = (w', e)))
   \<and> (\<forall>mgr mdc w5. starts_with lib cl env libflags scheme args w mgr mdc w5 \<longrightarrow>
        GetMultiDomainClientType env \<in> {RestType, OCMType}
      \<and> (GetMultiDomainClientType env = OCMType \<longrightarrow>
          (\<exists>config k. ml_GetConfig lib mgr = Some config \<and> cl_new cl config = Inr k
             \<and> cn_reconcile (network_controller \<lparr>r_Client = ml_GetClient lib mgr, r_MDClient = Some mdc\<rparr>)
                 = network_Reconcile (ml_GetClient lib mgr) (Some (ocm_client k))
             \<and> cn_reconcile (overlay_controller \<lparr>r_Client = ml_GetClient lib mgr, r_MDClient = Some mdc\<rparr>)
                 = overlay_Reconcile (ml_GetClient lib mgr) (Some (ocm_client k)))))
   \<and> (env ''MULTI_DOMAIN_CLIENT_TYPE'' = None \<longrightarrow> GetMultiDomainClientType env = OCMType)
   \<and> (\<forall>w' r. manager_main lib cl env libflags scheme args w = (w', r) \<longrightarrow> main_code r = 0 \<longrightarrow>
        r = MainFlags 0 \<or> r = Ran None)"
proof (intro conjI allI impI manager_main_ran)
  fix mgr mdc w5
  assume "starts_with lib cl env libflags scheme args w mgr mdc w5"
  then have c: "newMDClient cl env (ml_GetConfig lib mgr) = Some (Inr mdc)" unfolding starts_with_def by blast
  show "GetMultiDomainClientType env \<in> {RestType, OCMType}" by (rule newMDClient_type(1) [OF c])
  assume "GetMultiDomainClientType env = OCMType"
  from newMDClient_type(2) [OF c this] obtain x k where
    "ml_GetConfig lib mgr = Some x" "cl_new cl x = Inr k" "mdc = OCMClient k" by blast
  then show "\<exists>config k. ml_GetConfig lib mgr = Some config \<and> cl_new cl config = Inr k
      \<and> cn_reconcile (network_controller \<lparr>r_Client = ml_GetClient lib mgr, r_MDClient = Some mdc\<rparr>)
          = network_Reconcile (ml_GetClient lib mgr) (Some (ocm_client k))
      \<and> cn_reconcile (overlay_controller \<lparr>r_Client = ml_GetClient lib mgr, r_MDClient = Some mdc\<rparr>)
          = overlay_Reconcile (ml_GetClient lib mgr) (Some (ocm_client k))"
    by (intro exI [of _ x] exI [of _ k])
       (simp add: network_controller_def overlay_controller_def client_ops_ocm del: client_ops.simps)
next
  assume "env ''MULTI_DOMAIN_CLIENT_TYPE'' = None"
  then show "GetMultiDomainClientType env = OCMType" by (simp add: env_defs OCMType_def)
next
  fix w' r
  assume run: "manager_main lib cl env libflags scheme args w = (w', r)" and code: "main_code r = 0"
  have "r = MainFlags n \<Longrightarrow> n = 0" for n using code by simp
  moreover have "r = Ran (Some e) \<Longrightarrow> False" for e using code by simp
  moreover have "r = ControllerFailed name err \<Longrightarrow> False" for name err using code by (cases err) simp_all
  ultimately show "r = MainFlags 0 \<or> r = Ran None"
    using code by (cases r; (auto)?) (metis not_None_eq)
qed

text \<open>A manager that accepts everything, on the in-memory hub.\<close>

definition example_manager :: "(string, unit, 's, hub_store) manager_lib" where
  "example_manager =
     \<lparr>ml_config = \<lambda>w. (w, Some ''hub''), ml_new = \<lambda>c opts w. (w, Inr ()), ml_GetConfig = \<lambda>m. Some ''hub'',
      ml_GetClient = \<lambda>m. mem_hub, ml_Complete = \<lambda>m c w. (w, None), ml_AddHealthzCheck = \<lambda>m name w. (w, None),
      ml_AddReadyzCheck = \<lambda>m name w. (w, None), ml_Start = \<lambda>m w. (w, None)\<rparr>"

definition example_clients :: "(string, hub_store) client_lib" where
  "example_clients = \<lparr>cl_install_cluster = None, cl_install_work = None, cl_new = \<lambda>c. Inr mem_kube\<rparr>"

lemma example_starts:
  "starts_with example_manager example_clients Map.empty Map.empty scheme [''--leader-elect''] w () (OCMClient mem_kube) w"
  by (simp add: starts_with_def start_calls_def Let_def example_manager_def example_clients_def newMDClient_def
      NewClient_def env_defs RestType_def OCMType_def main_flags_def flag_name_def parse_bool_def)

theorem manager_main_starts_witness:
  "manager_main example_manager example_clients Map.empty Map.empty () [''--leader-elect''] example_hub = (example_hub, Ran None)"
proof -
  have "ml_Start example_manager () example_hub = (example_hub, None)" by (simp add: example_manager_def)
  with example_starts [of "()" example_hub]
  have "\<exists>mgr mdc w5. starts_with example_manager example_clients Map.empty Map.empty () [''--leader-elect''] example_hub mgr mdc w5
      \<and> ml_Start example_manager mgr w5 = (example_hub, None)"
    by (intro exI conjI)
  then show ?thesis
    by (rule iffD2 [OF conjunct1 [OF manager_main_starts, rule_format]])
qed

section \<open>The programs\<close>

text \<open>A Go program runs \<open>init\<close> before \<open>main\<close>; a panic in it ends the process.\<close>

definition manager_program :: "('b, 's) scheme_lib \<Rightarrow> ('c, 'm, 's, 'w) manager_lib \<Rightarrow> ('c, 'w) client_lib \<Rightarrow> environment
    \<Rightarrow> flag_set \<Rightarrow> string list \<Rightarrow> 'w \<Rightarrow> 'w \<times> main_end option" where
  "manager_program sl lib cl env libflags args w =
     (case manager_init sl of
        None \<Rightarrow> (w, None)
      | Some scheme \<Rightarrow> (case manager_main lib cl env libflags scheme args w of (w', end') \<Rightarrow> (w', Some end')))"

lemma manager_program_ran:
  "manager_program sl lib cl env libflags args w = (w', Some (Ran e)) \<longleftrightarrow>
     (\<exists>scheme. manager_init sl = Some scheme \<and> (\<exists>mgr mdc w5.
        starts_with lib cl env libflags scheme args w mgr mdc w5 \<and> ml_Start lib mgr w5 = (w', e)))"
  unfolding manager_main_ran [symmetric] manager_program_def by (simp split: option.split prod.split)

text \<open>The gRPC server opens its port before anything else and serves the four handlers on the client of the
  cluster it runs in.\<close>

lemma server_main_served:
  "server_main gv sl lib w = (w', Served e) \<longleftrightarrow>
     (\<exists>w1 lis config scheme w2 kclient. sl_Listen lib ''tcp'' '':50051'' w = (w1, Inr lis)
        \<and> sl_InClusterConfig lib w1 = Inr config \<and> AddToScheme sl (api_init sl) (sch_NewScheme sl) = Inr scheme
        \<and> sl_New lib config scheme w1 = (w2, Inr kclient)
        \<and> sl_Serve lib lis (server_of gv kclient) w2 = (w', e))"
  by (auto simp: server_main_def split: prod.splits sum.splits)

text \<open>C37: the schemes. A manager that runs was made with a scheme that knows all kinds of the API group,
  among them those both controllers are registered for and watch; what it knows besides is client-go's
  and apimachinery's own. A server that serves has its client of a scheme that knows the kinds of the
  group. The order in which the files of types are initialised makes no difference. The manager panics
  before \<open>main\<close> exactly when one of its two calls to \<open>AddToScheme\<close> fails, and then does nothing.\<close>

theorem programs_know_kinds:
  fixes sl :: "('b, 's) scheme_lib" and cl :: "('c, 'w) client_lib"
  assumes "scheme_laws sl version registered known meta"
  shows "(\<forall>w' e. manager_program sl lib cl env libflags args w = (w', Some (Ran e)) \<longrightarrow>
       (\<exists>base scheme mgr mdc w5. sch_clientgo sl (sch_NewScheme sl) = Inr base
          \<and> starts_with lib cl env libflags scheme args w mgr mdc w5 \<and> ml_Start lib mgr w5 = (w', e)
          \<and> known base \<union> {GroupVersion} \<times> api_kinds \<subseteq> known scheme
          \<and> known scheme \<subseteq> known base \<union> {GroupVersion} \<times> (api_kinds \<union> meta)))
   \<and> (\<forall>w' e. server_main gv sl slib w = (w', Served e) \<longrightarrow>
       (\<exists>w1 lis config scheme w2 kclient. sl_Listen slib ''tcp'' '':50051'' w = (w1, Inr lis)
          \<and> sl_InClusterConfig slib w1 = Inr config \<and> sl_New slib config scheme w1 = (w2, Inr kclient)
          \<and> sl_Serve slib lis (server_of gv kclient) w2 = (w', e) \<and> {GroupVersion} \<times> api_kinds \<subseteq> known scheme))
   \<and> (\<forall>fs. set fs = set (api_inits sl) \<longrightarrow> registered (fold (\<lambda>f. f) fs (SchemeBuilder sl)) = registered (api_init sl))
   \<and> (\<forall>r :: ('c, 'w) reconciler. {cn_for (network_controller r), cn_watches (network_controller r),
            cn_for (overlay_controller r), cn_watches (overlay_controller r)} \<subseteq> api_kinds)
   \<and> ((\<exists>w'. manager_program sl lib cl env libflags args w = (w', None)) \<longleftrightarrow>
        (case sch_clientgo sl (sch_NewScheme sl) of
           Inl err \<Rightarrow> True
         | Inr base \<Rightarrow> \<exists>err. AddToScheme sl (api_init sl) base = Inl err))
   \<and> (\<forall>w'. manager_program sl lib cl env libflags args w = (w', None) \<longrightarrow> w' = w)"
proof (intro conjI allI impI)
  fix w' e
  assume "manager_program sl lib cl env libflags args w = (w', Some (Ran e))"
  then obtain scheme where i: "manager_init sl = Some scheme" and rest: "\<exists>mgr mdc w5.
      starts_with lib cl env libflags scheme args w mgr mdc w5 \<and> ml_Start lib mgr w5 = (w', e)"
    unfolding manager_program_ran by (rule exE) (erule conjE, rule that)
  from i obtain base where base: "sch_clientgo sl (sch_NewScheme sl) = Inr base" "AddToScheme sl (api_init sl) base = Inr scheme"
    by (auto simp: manager_init_def split: sum.splits)
  from rest base(1) api_scheme [OF assms base(2)]
  show "\<exists>base scheme mgr mdc w5. sch_clientgo sl (sch_NewScheme sl) = Inr base
      \<and> starts_with lib cl env libflags scheme args w mgr mdc w5 \<and> ml_Start lib mgr w5 = (w', e)
      \<and> known base \<union> {GroupVersion} \<times> api_kinds \<subseteq> known scheme
      \<and> known scheme \<subseteq> known base \<union> {GroupVersion} \<times> (api_kinds \<union> meta)"
    by (elim exE conjE) (intro exI conjI)
next
  fix w' e
  assume "server_main gv sl slib w = (w', Served e)"
  then obtain w1 lis config scheme w2 kclient where served: "sl_Listen slib ''tcp'' '':50051'' w = (w1, Inr lis)"
    "sl_InClusterConfig slib w1 = Inr config" "AddToScheme sl (api_init sl) (sch_NewScheme sl) = Inr scheme"
    "sl_New slib config scheme w1 = (w2, Inr kclient)" "sl_Serve slib lis (server_of gv kclient) w2 = (w', e)"
    unfolding server_main_served by (elim exE conjE) (rule that)
  have "{GroupVersion} \<times> api_kinds \<subseteq> known scheme" using api_scheme(1) [OF assms served(3)] by (rule order_trans [OF Un_upper2])
  with served show "\<exists>w1 lis config scheme w2 kclient. sl_Listen slib ''tcp'' '':50051'' w = (w1, Inr lis)
      \<and> sl_InClusterConfig slib w1 = Inr config \<and> sl_New slib config scheme w1 = (w2, Inr kclient)
      \<and> sl_Serve slib lis (server_of gv kclient) w2 = (w', e) \<and> {GroupVersion} \<times> api_kinds \<subseteq> known scheme"
    by (intro exI conjI)
next
  fix fs :: "('b \<Rightarrow> 'b) list"
  assume "set fs = set (api_inits sl)"
  then show "registered (fold (\<lambda>f. f) fs (SchemeBuilder sl)) = registered (api_init sl)"
    using inits_register(2) [OF assms] by (simp add: api_init_def)
next
  fix r :: "('c, 'w) reconciler"
  show "{cn_for (network_controller r), cn_watches (network_controller r),
      cn_for (overlay_controller r), cn_watches (overlay_controller r)} \<subseteq> api_kinds"
    by (simp add: network_controller_def overlay_controller_def api_kinds_def)
next
  show "(\<exists>w'. manager_program sl lib cl env libflags args w = (w', None)) \<longleftrightarrow>
      (case sch_clientgo sl (sch_NewScheme sl) of
         Inl err \<Rightarrow> True | Inr base \<Rightarrow> \<exists>err. AddToScheme sl (api_init sl) base = Inl err)"
    by (simp add: manager_program_def manager_init_def split: sum.split prod.split)
next
  fix w'
  assume "manager_program sl lib cl env libflags args w = (w', None)"
  then show "w' = w" by (simp add: manager_program_def split: option.splits prod.splits)
qed

theorem programs_know_kinds_witness:
  "\<exists>scheme mgr mdc w5. starts_with example_manager example_clients Map.empty Map.empty scheme [''--leader-elect''] example_hub mgr mdc w5
     \<and> {GroupVersion} \<times> api_kinds \<subseteq> scheme"
proof -
  obtain scheme where i: "manager_init set_schemes = Some scheme" using set_schemes_init by simp
  have "ml_Start example_manager () example_hub = (example_hub, None)" by (simp add: example_manager_def)
  with i example_starts [of scheme example_hub]
  have "manager_program set_schemes example_manager example_clients Map.empty Map.empty [''--leader-elect''] example_hub
      = (example_hub, Some (Ran None))"
    unfolding manager_program_ran by (intro exI conjI)
  from conjunct1 [OF programs_know_kinds [OF set_schemes_laws], rule_format, OF this]
  show ?thesis by (elim exE conjE) (intro exI conjI, assumption, simp)
qed

end
