(* ===== verification/Spec2Isabelle.thy ===== *)
theory Spec2Isabelle
  imports Watch Total Lifecycle DeepCopy Tools Startup
begin

text \<open>
  L2S-CES: slices and overlay networks over several Kubernetes clusters. This library models the Go
  program and proves what its parts promise, and what they promise together.

  \<^bold>\<open>The program.\<close> A client of the gRPC service (\<open>cmd/server\<close>) asks for networks and slices. The service
  stores each request as a custom resource (\<open>SliceNetwork\<close>, \<open>SliceOverlay\<close>) in the hub cluster. A
  controller manager (\<open>cmd/main.go\<close>) runs one reconciler per kind (\<open>internal/controller\<close>): it keeps a
  finalizer on the resource, resolves the provider from the resource or a \<open>ProviderProfile\<close>, and calls
  the multi-domain client (\<open>pkg/mdclient\<close>), which wraps an \<open>L2Network\<close> or a \<open>NetworkEdgeDevice\<close>
  (\<open>pkg/l2sminterface\<close>) in a ManifestWork for every cluster of the resource. Open Cluster Management,
  which is not in the repository, brings these to the clusters. Deleting a resource runs the same path
  with the deletes of the client before the finalizer is given up.

  \<^bold>\<open>Theories and sources.\<close>
  \<^item> \<open>Prelude\<close>: loops with errors, results, collections of hints. \<open>GoString\<close>, \<open>GoNet\<close>, \<open>GoUrl\<close>, \<open>GoFlag\<close>: the parts of
    Go's standard library in use (\<open>strings\<close>, \<open>strconv\<close>, \<open>net\<close>, \<open>net/url\<close>, \<open>flag\<close>, \<open>path/filepath\<close>), executable.
  \<^item> \<open>ApiTypes\<close>: the structs of \<open>api/v1\<close> and of L2S-M as records. \<open>DeepCopy\<close>: \<open>zz_generated.deepcopy.go\<close>, on
    objects with explicit addresses.
  \<^item> \<open>Env\<close>: \<open>internal/env\<close>, \<open>pkg/utils\<close>. \<open>Topology\<close>: \<open>pkg/topologygenerator\<close>.
  \<^item> \<open>CrGen\<close>, \<open>Subnet\<close> with \<open>L2NetworkGen\<close>, \<open>Ned\<close>, \<open>OverlayGen\<close>: the generators of \<open>pkg/l2sminterface\<close>
    (\<open>cr_generator.go\<close>, \<open>l2network_generator.go\<close>, \<open>ned_generator.go\<close>, \<open>overlay_generator.go\<close>).
  \<^item> \<open>ManifestName\<close>, \<open>MonitorAlloc\<close>, \<open>Endpoint\<close>, \<open>OcmClient\<close>: \<open>pkg/mdclient/ocmclient.go\<close>, over the Kubernetes
    client of \<open>Kube\<close>; \<open>OcmCorrect\<close> and \<open>OcmSlice\<close> hold its correctness. \<open>MdClient\<close>: \<open>mdclient.go\<close> and the
    operations of \<open>restclient.go\<close>.
  \<^item> \<open>Hub\<close>: the hub's API server. \<open>Resolver\<close>: \<open>provider_resolver.go\<close> and \<open>requestsForProviderProfile\<close>.
    \<open>Reconciler\<close>: \<open>Reconcile\<close> of both controllers; \<open>Controllers\<close>: what a run achieves.
  \<^item> \<open>Messages\<close>, \<open>Server\<close>: the messages of \<open>l2sces.pb.go\<close> and \<open>cmd/server/server.go\<close>.
  \<^item> \<open>System\<close>: runs of both reconcilers, requests and changes by others, interleaved, as a step relation.
    \<open>Refinement\<close>: the OCM client against abstract operations on the ManifestWorks.
  \<^item> Compositions of controllers, client and service: \<open>Settle\<close> and \<open>Converge\<close> (passes of both reconcilers over
    many objects), \<open>Watch\<close> (the watch on profiles), \<open>Requeue\<close> and \<open>RequeueEnds\<close> (the loop that runs a failed
    request again), \<open>Retry\<close> and \<open>Total\<close> (passes of such loops), \<open>Lifecycle\<close> (request, deployment, deletion,
    clean-up).
  \<^item> \<open>Scheme\<close>: \<open>groupversion_info.go\<close> and the \<open>init\<close> functions of \<open>api/v1\<close> and \<open>cmd/main.go\<close>.
  \<^item> \<open>Operator\<close>: \<open>pkg/operator\<close>. \<open>Tools\<close>: \<open>GetRestConfigs\<close>, \<open>cmd/generate-cr\<close>, \<open>cmd/apply-cert\<close>.
    \<open>Startup\<close>: \<open>SetupWithManager\<close>, \<open>cmd/main.go\<close>, \<open>cmd/server/main.go\<close>.

  \<^bold>\<open>How code is modelled.\<close> A Go function that may fail returns a sum or an optional error; a panic is a
  \<open>None\<close> outside that, or a constructor of its own. Calls that reach a server take and return the world
  \<open>'w\<close>, a type variable: an \<open>action\<close> is \<open>'w \<Rightarrow> 'w \<times> 'e option\<close>. Slices are lists, nil-able pointers options,
  fixed-width integers words (\<open>GoNet\<close>, \<open>MonitorAlloc\<close>: \<open>uint32\<close> wraps), other integers naturals or integers.
  What is outside the repository is a parameter: the Kubernetes client (\<open>kube\<close>), the hub's API server
  (\<open>hub\<close>), DNS, the JSON and YAML codecs, the manager, the file system. What is relied on is a named
  predicate: \<open>work_laws\<close> (a read returns what is stored, a write stores or reports), \<open>hub_laws\<close>,
  \<open>api_laws\<close>, \<open>profile_laws\<close>, \<open>transient_laws\<close>, \<open>secret_laws\<close>, \<open>lib_copies\<close>, \<open>scheme_laws\<close>; each is proved of an
  in-memory instance (\<open>mem_kube\<close>, \<open>mem_hub\<close>, \<open>flaky_hub\<close>, \<open>mem_secrets\<close>, \<open>fresh_lib\<close>, \<open>set_schemes\<close>), on which the
  witnesses run.

  \<^bold>\<open>What the lemmas show.\<close> From the bottom up: names are legal, monitoring addresses and subnets are
  distinct and in range under stated bounds, with every input that fails or panics named; generated
  devices, topologies and overlays are those of the input; a successful operation of the OCM client
  leaves exactly the intended ManifestWorks, through write conflicts and retries, and refines the
  abstract operation; \<open>md_client\<close> is the contract the reconcilers use, a locale interpreted on the OCM
  client and on the REST client; \<open>reconciler\<close> proves the common shape of both reconcilers once. A run
  deploys, cleans, never loses its finalizer before its ManifestWorks, and touches nothing else; so, over all
  interleavings, no ManifestWork is an orphan. The locale \<open>settling\<close> lifts single runs to passes: successful runs
  over compatible objects leave exactly the wanted works in any order, and from every reachable state
  one pass makes the clusters equal to what the hub asks for (\<open>system_converges\<close>). The locale \<open>transient\<close>
  shows that the requeue loop ends when finitely many calls fail; \<open>retrying\<close> puts both together: what a
  failed run leaves does not hinder a later one, so a pass of loops ends in that state, with nothing
  assumed of its runs (\<open>system_settles\<close>). \<open>Watch\<close> shows that after a change of a
  profile the requests the controllers derive from it settle the system again. \<open>Lifecycle\<close> follows one network and one
  slice from the request to the last ManifestWork. Requests store what they say, deep copies share no memory,
  certificates come back, and the manager starts only with both controllers on the configured client.

  \<^bold>\<open>Bounds and fuel.\<close> Recursion is structural or on a list that shrinks. \<open>retry_law\<close> only says that
  \<open>RetryOnConflict\<close> makes some finite number of attempts; a lost conflict is an error like any other. The
  requeue loop may run forever: \<open>requeue\<close> is a partial function, and that it returns is proved, from the
  assumption \<open>transient_laws\<close> that failures use up a finite measure. Passes and the loop assume that
  the clusters of live slices have gateway addresses, so that no DNS answer decides what is deployed, and
  that no two objects want different contents for one ManifestWork, which a slice and a network of one name
  on one cluster do (\<open>ocm_deployments_share_names\<close>). A live slice without a topology, or with too small a
  monitoring CIDR, keeps its loop running forever (\<open>slice_requeue_ends\<close>).

  \<^bold>\<open>Not modelled.\<close> The generated gRPC bindings and the rest of \<open>l2sces.pb.go\<close> (reflection tables, messages of
  calls the server does not implement); log output and the text of error messages beyond their arguments; timeouts and
  cancellation of contexts; the work queue of controller-runtime, except that \<open>System\<close> allows any order
  of runs, and its read cache: a read of the hub gives what is stored at that moment (\<open>hub_laws\<close>), while the
  manager's client may answer from an older state; in \<open>DeepCopy\<close>, the difference between a nil and an empty
  slice or map; the tests, the manual test client, \<open>internal/ocminterface\<close> (an empty package) and the YAML under \<open>config\<close>
  and \<open>deployments\<close>.
\<close>

end
